(* ===== verification/Prelude.thy ===== *)
theory Prelude
  imports Main "HOL-Library.Sublist"
begin

text \<open>
  What the components share.  Go's run-time panics and error values, pointers and slices;
  64-bit integers with their wrap-around; the outcome of a call that may panic; the generic
  lemmas on lists and options; the collections of simplification rules that the component
  theories fill.
\<close>

named_theorems go_simps \<open>evaluation rules for the Go primitives\<close>
named_theorems env_defs \<open>definitions of the operations that act on the outside world\<close>

section \<open>Errors\<close>

text \<open>
  Go error values.  \<^term>\<open>Plain\<close> is what \<^verbatim>\<open>errors.New\<close> builds, \<^term>\<open>Wrapped\<close> what
  \<^verbatim>\<open>fmt.Errorf\<close> with a \<^verbatim>\<open>%v\<close> verb or \<^verbatim>\<open>errors.Wrap\<close> builds
  around another error.  \<^term>\<open>Resource\<close> is ZMS's \<^verbatim>\<open>rdl.ResourceError\<close> with its HTTP
  code, \<^term>\<open>Status\<close> the status error of the Kubernetes API with its reason.  The last two
  come from packages outside the repository; what the code reads of them is their dynamic type,
  the code and the reason.
\<close>

datatype api_reason = AlreadyExists | NotFound | Conflict | OtherReason string

datatype err =
    Plain string
  | Wrapped string err
  | Resource int string
  | Status api_reason

fun as_ResourceError :: "err \<Rightarrow> int option" where
  \<comment> \<open>the type assertion \<open>err.(rdl.ResourceError)\<close>, with the code of the value\<close>
  "as_ResourceError (Resource c m) = Some c"
| "as_ResourceError _ = None"

fun IsAlreadyExists :: "err \<Rightarrow> bool" where
  "IsAlreadyExists (Status AlreadyExists) = True"
| "IsAlreadyExists _ = False"

fun IsNotFound :: "err \<Rightarrow> bool" where
  "IsNotFound (Status NotFound) = True"
| "IsNotFound _ = False"

section \<open>Panics and outcomes\<close>

text \<open>
  A Go function either returns or panics.  The panics that the modelled code can raise are a
  method call or field access through a nil pointer or nil interface, an index out of range, a type
  assertion that does not hold, the explicit panic of \<^verbatim>\<open>log.Panicf\<close>, and
  \<^verbatim>\<open>panic(err)\<close> with an error value.
\<close>

datatype go_panic =
  NilDereference | IndexOutOfRange | BadTypeAssertion | LogPanic string | PanicError err

datatype 'a outcome = Return 'a | Panic go_panic

fun bind_outcome :: "'a outcome \<Rightarrow> ('a \<Rightarrow> 'b outcome) \<Rightarrow> 'b outcome" where
  "bind_outcome (Return a) f = f a"
| "bind_outcome (Panic p) f = Panic p"

definition returns :: "'a outcome \<Rightarrow> bool" where
  "returns r \<longleftrightarrow> (case r of Return _ \<Rightarrow> True | Panic _ \<Rightarrow> False)"

lemma returns_simps [simp]:
  "returns (Return a)" "\<not> returns (Panic p)"
  by (simp_all add: returns_def)

lemma returns_iff: "returns r \<longleftrightarrow> (\<exists>a. r = Return a)"
  by (cases r) simp_all

lemma bind_outcome_Return_iff [simp]:
  "bind_outcome r f = Return b \<longleftrightarrow> (\<exists>a. r = Return a \<and> f a = Return b)"
  by (cases r) auto

lemma bind_outcome_assoc:
  "bind_outcome (bind_outcome r f) g = bind_outcome r (\<lambda>a. bind_outcome (f a) g)"
  by (cases r) auto

section \<open>Pointers and slices\<close>

text \<open>
  A pointer is an option, \<^term>\<open>None\<close> being nil.  A slice is an option of a list: Go tells
  a nil slice from an empty one (\<^verbatim>\<open>reflect.DeepEqual\<close> does, \<^verbatim>\<open>len\<close> and
  \<^verbatim>\<open>range\<close> do not), so the model does too.
\<close>

type_synonym 'a slice = "'a list option"

definition elems :: "'a slice \<Rightarrow> 'a list" where
  "elems s = (case s of None \<Rightarrow> [] | Some xs \<Rightarrow> xs)"

definition append_slice :: "'a slice \<Rightarrow> 'a \<Rightarrow> 'a slice" where
  "append_slice s x = Some (elems s @ [x])"

definition slice_of :: "'a list \<Rightarrow> 'a slice" where
  \<comment> \<open>a slice built by appending each element to a nil slice\<close>
  "slice_of xs = (if xs = [] then None else Some xs)"

lemma elems_simps [simp, go_simps]:
  "elems None = []" "elems (Some xs) = xs"
  "elems (append_slice s x) = elems s @ [x]"
  "elems (slice_of xs) = xs"
  by (simp_all add: elems_def append_slice_def slice_of_def)

lemma append_slice_slice_of [simp]:
  "append_slice (slice_of xs) x = slice_of (xs @ [x])"
  by (simp add: append_slice_def slice_of_def)

lemma slice_of_Nil [simp]: "slice_of [] = None"
  by (simp add: slice_of_def)

definition deref :: "'a option \<Rightarrow> 'a outcome" where
  "deref p = (case p of None \<Rightarrow> Panic NilDereference | Some a \<Rightarrow> Return a)"

lemma deref_simps [simp, go_simps]:
  "deref None = Panic NilDereference" "deref (Some a) = Return a"
  by (simp_all add: deref_def)

lemma deref_Return_iff [simp]: "deref p = Return a \<longleftrightarrow> p = Some a"
  by (cases p) simp_all

section \<open>64-bit integers\<close>

text \<open>
  Go's \<^verbatim>\<open>int\<close> (on the 64-bit platforms the controller is built for),
  \<^verbatim>\<open>int64\<close> and \<^verbatim>\<open>time.Duration\<close> wrap around modulo two to the 64th.
\<close>

definition wrap64 :: "int \<Rightarrow> int" where
  "wrap64 i = (i + 2 ^ 63) mod 2 ^ 64 - 2 ^ 63"

abbreviation min_int64 :: int where
  "min_int64 \<equiv> - (2 ^ 63)"

abbreviation max_int64 :: int where
  "max_int64 \<equiv> 2 ^ 63 - 1"

definition in_int64 :: "int \<Rightarrow> bool" where
  "in_int64 i \<longleftrightarrow> min_int64 \<le> i \<and> i \<le> max_int64"

lemma wrap64_id: "in_int64 i \<Longrightarrow> wrap64 i = i"
  by (simp add: in_int64_def wrap64_def)

lemma wrap64_in_int64: "in_int64 (wrap64 i)"
proof -
  have "0 \<le> (i + 2 ^ 63) mod 2 ^ 64" "(i + 2 ^ 63) mod 2 ^ 64 < 2 ^ 64"
    by (rule pos_mod_sign pos_mod_bound; simp)+
  then show ?thesis
    by (simp add: in_int64_def wrap64_def)
qed

definition clamp64 :: "int \<Rightarrow> int" where
  "clamp64 i = max min_int64 (min max_int64 i)"

lemma clamp64_id: "in_int64 i \<Longrightarrow> clamp64 i = i"
  by (simp add: in_int64_def clamp64_def)

lemma clamp64_bounds: "in_int64 (clamp64 i)"
  by (simp add: in_int64_def clamp64_def)

lemma clamp64_nonneg: "0 \<le> i \<Longrightarrow> 0 \<le> clamp64 i"
  by (simp add: clamp64_def)

lemma clamp64_le: "0 \<le> i \<Longrightarrow> clamp64 i \<le> i"
  by (simp add: clamp64_def)

definition quot :: "int \<Rightarrow> int \<Rightarrow> int" where
  \<comment> \<open>Go's integer division truncates towards zero\<close>
  "quot a b = sgn a * sgn b * (\<bar>a\<bar> div \<bar>b\<bar>)"

lemma quot_nonneg: "0 \<le> a \<Longrightarrow> 0 < b \<Longrightarrow> quot a b = a div b"
  by (cases "a = 0") (simp_all add: quot_def)

section \<open>Generic list lemmas\<close>

lemma fold_append_eq:
  "fold (\<lambda>x acc. acc @ g x) xs acc = acc @ concat (map g xs)"
  by (induction xs arbitrary: acc) simp_all

lemma fold_filter_slice:
  "fold (\<lambda>x s. if P x then s else append_slice s x) xs (slice_of ys)
     = slice_of (ys @ filter (\<lambda>x. \<not> P x) xs)"
  by (induction xs arbitrary: ys) simp_all

lemma distinct_map_inj: "distinct xs \<Longrightarrow> inj_on f (set xs) \<Longrightarrow> distinct (map f xs)"
  by (simp add: distinct_map)

end
