(* ===== verification/Go_Strings.thy ===== *)
theory Go_Strings
  imports Prelude
begin

text \<open>
  The functions of Go's packages \<^verbatim>\<open>strings\<close>, \<^verbatim>\<open>strconv\<close> and
  \<^verbatim>\<open>fmt\<close> that the controller calls, on byte strings.  A Go string is a sequence of
  bytes and so is an Isabelle string.  The separators and blanks that the program passes
  are ASCII.
\<close>

section \<open>Prefixes\<close>

definition HasPrefix :: "string \<Rightarrow> string \<Rightarrow> bool" where
  "HasPrefix s p \<longleftrightarrow> prefix p s"

definition TrimPrefix :: "string \<Rightarrow> string \<Rightarrow> string" where
  "TrimPrefix s p = (if HasPrefix s p then drop (length p) s else s)"

lemma TrimPrefix_append [simp]: "TrimPrefix (p @ s) p = s"
  by (simp add: TrimPrefix_def HasPrefix_def)

lemma HasPrefix_append [simp]: "HasPrefix (p @ s) p"
  by (simp add: HasPrefix_def)

lemma HasPrefix_refl [simp]: "HasPrefix s s"
  by (simp add: HasPrefix_def)

lemma TrimPrefix_cases:
  "(\<exists>t. s = p @ t \<and> TrimPrefix s p = t) \<or> (\<not> HasPrefix s p \<and> TrimPrefix s p = s)"
  by (auto simp: TrimPrefix_def HasPrefix_def prefix_def)

section \<open>Replacement\<close>

text \<open>
  \<^verbatim>\<open>strings.Replace(s, old, new, -1)\<close>: from the left, each non-overlapping
  occurrence of \<open>old\<close> becomes \<open>new\<close>.  The program only replaces non-empty literals; for an
  empty \<open>old\<close>, which it never passes, the equation returns the string unchanged.
\<close>

function ReplaceAll :: "string \<Rightarrow> string \<Rightarrow> string \<Rightarrow> string" where
  "ReplaceAll [] old new = []"
| "ReplaceAll (c # s) old new =
     (if old \<noteq> [] \<and> HasPrefix (c # s) old
      then new @ ReplaceAll (drop (length old) (c # s)) old new
      else c # ReplaceAll s old new)"
  by pat_completeness auto
termination
  by (relation "measure (\<lambda>(s, old, new). length s)") auto

declare ReplaceAll.simps(2) [simp del]

lemma ReplaceAll_char:
  "ReplaceAll s [a] new = concat (map (\<lambda>c. if c = a then new else [c]) s)"
  by (induction s) (auto simp: ReplaceAll.simps(2) HasPrefix_def)

lemma ReplaceAll_char_char:
  "ReplaceAll s [a] [b] = map (\<lambda>c. if c = a then b else c) s"
  by (induction s) (auto simp: ReplaceAll.simps(2) HasPrefix_def)

lemma ReplaceAll_pair_simps:
  "ReplaceAll [x] [a, a] new = [x]"
  "ReplaceAll (a # a # s) [a, a] new = new @ ReplaceAll s [a, a] new"
  "x \<noteq> a \<Longrightarrow> ReplaceAll (x # s) [a, a] new = x # ReplaceAll s [a, a] new"
  "y \<noteq> a \<Longrightarrow> ReplaceAll (x # y # s) [a, a] new = x # ReplaceAll (y # s) [a, a] new"
  by (simp_all add: ReplaceAll.simps(2) HasPrefix_def)

section \<open>Splitting and trimming\<close>

fun Split :: "string \<Rightarrow> char \<Rightarrow> string list" where
  \<comment> \<open>\<open>strings.Split\<close> at a one-byte separator: the empty string gives one empty piece\<close>
  "Split [] sep = [[]]"
| "Split (c # s) sep =
     (if c = sep then [] # Split s sep
      else (case Split s sep of [] \<Rightarrow> [[c]] | p # ps \<Rightarrow> (c # p) # ps))"

lemma Split_nonempty [simp]: "Split s sep \<noteq> []"
  by (induction s) (auto split: list.splits)

lemma Split_no_sep: "p \<in> set (Split s sep) \<Longrightarrow> sep \<notin> set p"
proof (induction s arbitrary: p)
  case (Cons c s)
  obtain q qs where "Split s sep = q # qs"
    by (cases "Split s sep") auto
  with Cons show ?case
    by (auto split: if_splits)
qed simp

definition is_space :: "char \<Rightarrow> bool" where
  \<comment> \<open>the ASCII blanks of \<open>unicode.IsSpace\<close>: tab, newline, vertical tab, form feed, return, space\<close>
  "is_space c \<longleftrightarrow> (of_char c :: nat) \<in> {9, 10, 11, 12, 13, 32}"

definition TrimSpace :: "string \<Rightarrow> string" where
  "TrimSpace s = rev (dropWhile is_space (rev (dropWhile is_space s)))"

lemma TrimSpace_ends:
  assumes "TrimSpace s \<noteq> []"
  shows "\<not> is_space (hd (TrimSpace s))" "\<not> is_space (last (TrimSpace s))"
proof -
  let ?t = "dropWhile is_space s"
  have suf: "TrimSpace s = rev (dropWhile is_space (rev ?t))"
    by (simp add: TrimSpace_def)
  have pre: "prefix (TrimSpace s) ?t"
    by (metis suf rev_rev_ident suffix_dropWhile suffix_to_prefix)
  then have ne: "?t \<noteq> []"
    using assms by (metis prefix_Nil)
  have "hd (TrimSpace s) = hd ?t"
    using pre assms by (auto simp: prefix_def)
  with hd_dropWhile [OF ne] show "\<not> is_space (hd (TrimSpace s))"
    by simp
  have ne2: "dropWhile is_space (rev ?t) \<noteq> []"
    using assms suf by (metis rev.simps(1))
  with hd_dropWhile [OF ne2] show "\<not> is_space (last (TrimSpace s))"
    by (simp only: suf last_rev not_False_eq_True)
qed

end
