(* ===== verification/Athenz_Types.thy ===== *)
theory Athenz_Types
  imports Prelude
begin

text \<open>
  The data that the controller moves: the signed domains of ZMS
  (\<^verbatim>\<open>github.com/AthenZ/athenz/clients/go/zms\<close>) and the AthenzDomain custom resource
  of \<^verbatim>\<open>pkg/apis/athenz/v1\<close> with its deep copies.

  The ZMS structs are declared outside the repository.  Their records here have the fields
  that the repository's code reads or writes; all the remaining fields of a struct (members,
  assertions, services, \<dots>) are one opaque field of type \<^typ>\<open>'x\<close>, which the code only copies
  and compares.  A time is the number of nanoseconds since the Unix epoch, in UTC.
\<close>

section \<open>ZMS data\<close>

record 'x Role =
  roleName :: string
  roleTrust :: string
  roleRest :: 'x

record 'x Policy =
  policyName :: string
  policyRest :: 'x

record 'x DomainPolicies =
  policiesDomain :: string
  policies :: "'x Policy option slice"

record 'x SignedPolicies =
  contents :: "'x DomainPolicies option"
  policiesSignature :: string
  policiesKeyId :: string

record 'x DomainData =
  domainName :: string
  roles :: "'x Role option slice"
  domainPolicies :: "'x SignedPolicies option"
  modified :: int
  domainRest :: 'x

record 'x SignedDomain =
  domain :: "'x DomainData option"
  signature :: string
  keyId :: string

record 'x SignedDomains =
  domains :: "'x SignedDomain option slice"

section \<open>The AthenzDomain custom resource\<close>

text \<open>
  Of the Kubernetes metadata the code reads and writes the name and the resource version;
  the remaining metadata fields are a list of rendered fields, empty for the zero value.
\<close>

record ObjectMeta =
  name :: string
  resourceVersion :: string
  metaRest :: "(string \<times> string) list"

record AthenzDomainStatus =
  message :: string

record 'x AthenzDomainSpec =
  signedDomain :: "'x SignedDomain"

record 'x AthenzDomain =
  typeMeta :: "string \<times> string"
  objectMeta :: ObjectMeta
  status :: AthenzDomainStatus
  spec :: "'x AthenzDomainSpec"

record 'x AthenzDomainList =
  listTypeMeta :: "string \<times> string"
  listMeta :: "(string \<times> string) list"
  items :: "'x AthenzDomain slice"

section \<open>Deep copies\<close>

text \<open>
  The generic copier \<^verbatim>\<open>github.com/mohae/deepcopy\<close> and the copies of the Kubernetes
  metadata structs are code outside the repository: parameters.  \<open>copySpec\<close> is
  \<^verbatim>\<open>deepcopy.Copy\<close> followed by the type assertion on its result, \<^term>\<open>None\<close> when the
  assertion fails.
\<close>

record 'x copiers =
  copySpec :: "'x AthenzDomainSpec \<Rightarrow> 'x AthenzDomainSpec option"
  copyObjectMeta :: "ObjectMeta \<Rightarrow> ObjectMeta"
  copyListMeta :: "(string \<times> string) list \<Rightarrow> (string \<times> string) list"

definition faithful_copiers :: "'x copiers \<Rightarrow> bool" where
  \<comment> \<open>what the two packages document: a copy has the value of the original\<close>
  "faithful_copiers K \<longleftrightarrow>
     (\<forall>s. copySpec K s = Some s) \<and> (\<forall>m. copyObjectMeta K m = m) \<and> (\<forall>m. copyListMeta K m = m)"

definition AthenzDomainSpec_DeepCopy ::
    "'x copiers \<Rightarrow> 'x AthenzDomainSpec option \<Rightarrow> 'x AthenzDomainSpec option" where
  "AthenzDomainSpec_DeepCopy K inp =
     (case inp of None \<Rightarrow> None | Some s \<Rightarrow> copySpec K s)"

definition AthenzDomainSpec_DeepCopyInto ::
    "'x copiers \<Rightarrow> 'x AthenzDomainSpec \<Rightarrow> 'x AthenzDomainSpec outcome" where
  \<comment> \<open>the value written through \<open>out\<close>; a nil clone is dereferenced\<close>
  "AthenzDomainSpec_DeepCopyInto K inp = deref (AthenzDomainSpec_DeepCopy K (Some inp))"

definition AthenzDomainStatus_DeepCopyInto :: "AthenzDomainStatus \<Rightarrow> AthenzDomainStatus" where
  "AthenzDomainStatus_DeepCopyInto inp = inp"

definition AthenzDomainStatus_DeepCopy :: "AthenzDomainStatus option \<Rightarrow> AthenzDomainStatus option" where
  "AthenzDomainStatus_DeepCopy inp =
     (case inp of None \<Rightarrow> None | Some s \<Rightarrow> Some (AthenzDomainStatus_DeepCopyInto s))"

definition AthenzDomain_DeepCopyInto ::
    "'x copiers \<Rightarrow> 'x AthenzDomain \<Rightarrow> 'x AthenzDomain outcome" where
  "AthenzDomain_DeepCopyInto K inp =
     (let out = inp\<lparr>typeMeta := typeMeta inp\<rparr>;
          out = out\<lparr>objectMeta := copyObjectMeta K (objectMeta inp)\<rparr>;
          out = out\<lparr>status := status inp\<rparr>
      in bind_outcome (AthenzDomainSpec_DeepCopyInto K (spec inp))
           (\<lambda>s. Return (out\<lparr>spec := s\<rparr>)))"

definition AthenzDomain_DeepCopy ::
    "'x copiers \<Rightarrow> 'x AthenzDomain option \<Rightarrow> 'x AthenzDomain option outcome" where
  "AthenzDomain_DeepCopy K inp =
     (case inp of None \<Rightarrow> Return None
      | Some d \<Rightarrow> bind_outcome (AthenzDomain_DeepCopyInto K d) (\<lambda>out. Return (Some out)))"

definition AthenzDomain_DeepCopyObject ::
    "'x copiers \<Rightarrow> 'x AthenzDomain option \<Rightarrow> 'x AthenzDomain option outcome" where
  \<comment> \<open>a nil pointer becomes a nil \<open>runtime.Object\<close> interface\<close>
  "AthenzDomain_DeepCopyObject K inp =
     bind_outcome (AthenzDomain_DeepCopy K inp)
       (\<lambda>c. case c of None \<Rightarrow> Return None | Some out \<Rightarrow> Return (Some out))"

fun copy_items :: "'x copiers \<Rightarrow> 'x AthenzDomain list \<Rightarrow> 'x AthenzDomain list outcome" where
  \<comment> \<open>the loop over \<open>Items\<close>\<close>
  "copy_items K [] = Return []"
| "copy_items K (d # ds) =
     bind_outcome (AthenzDomain_DeepCopyInto K d)
       (\<lambda>d'. bind_outcome (copy_items K ds) (\<lambda>ds'. Return (d' # ds')))"

definition AthenzDomainList_DeepCopyInto ::
    "'x copiers \<Rightarrow> 'x AthenzDomainList \<Rightarrow> 'x AthenzDomainList outcome" where
  "AthenzDomainList_DeepCopyInto K inp =
     (let out = inp\<lparr>listTypeMeta := listTypeMeta inp, listMeta := copyListMeta K (listMeta inp)\<rparr>
      in case items inp of
           None \<Rightarrow> Return out
         | Some ds \<Rightarrow> bind_outcome (copy_items K ds) (\<lambda>ds'. Return (out\<lparr>items := Some ds'\<rparr>)))"

definition AthenzDomainList_DeepCopy ::
    "'x copiers \<Rightarrow> 'x AthenzDomainList option \<Rightarrow> 'x AthenzDomainList option outcome" where
  "AthenzDomainList_DeepCopy K inp =
     (case inp of None \<Rightarrow> Return None
      | Some l \<Rightarrow> bind_outcome (AthenzDomainList_DeepCopyInto K l) (\<lambda>out. Return (Some out)))"

definition AthenzDomainList_DeepCopyObject ::
    "'x copiers \<Rightarrow> 'x AthenzDomainList option \<Rightarrow> 'x AthenzDomainList option outcome" where
  "AthenzDomainList_DeepCopyObject K inp =
     bind_outcome (AthenzDomainList_DeepCopy K inp)
       (\<lambda>c. case c of None \<Rightarrow> Return None | Some out \<Rightarrow> Return (Some out))"

lemmas deepcopy_defs =
  AthenzDomainSpec_DeepCopy_def AthenzDomainSpec_DeepCopyInto_def
  AthenzDomain_DeepCopyInto_def AthenzDomain_DeepCopy_def AthenzDomain_DeepCopyObject_def
  AthenzDomainList_DeepCopyInto_def AthenzDomainList_DeepCopy_def
  AthenzDomainList_DeepCopyObject_def

lemma faithful_copiersD:
  assumes "faithful_copiers K"
  shows "copySpec K s = Some s" "copyObjectMeta K m = m" "copyListMeta K l = l"
  using assms by (simp_all add: faithful_copiers_def)

lemma AthenzDomain_DeepCopyInto_id:
  "faithful_copiers K \<Longrightarrow> AthenzDomain_DeepCopyInto K d = Return d"
  by (simp add: deepcopy_defs faithful_copiersD Let_def)

lemma copy_items_id: "faithful_copiers K \<Longrightarrow> copy_items K ds = Return ds"
  by (induction ds) (simp_all add: AthenzDomain_DeepCopyInto_id)

lemma AthenzDomainList_DeepCopyInto_id:
  "faithful_copiers K \<Longrightarrow> AthenzDomainList_DeepCopyInto K l = Return l"
  by (simp add: AthenzDomainList_DeepCopyInto_def faithful_copiersD copy_items_id
      split: option.split)

lemma copy_items_length:
  "copy_items K ds = Return ds' \<Longrightarrow> length ds' = length ds"
  by (induction ds arbitrary: ds') auto

section \<open>Objects of the informer caches\<close>

text \<open>
  The stores of \<^verbatim>\<open>k8s.io/client-go/tools/cache\<close> hold values of type
  \<^verbatim>\<open>interface{}\<close>.  The dynamic types that the code tests for are a pointer to an
  AthenzDomain, a pointer to a Namespace and the tombstone
  \<^verbatim>\<open>DeletedFinalStateUnknown\<close>.
\<close>

datatype 'x obj =
    ObjAthenzDomain "'x AthenzDomain option"
  | ObjNamespace "string option" \<comment> \<open>with the namespace's name\<close>
  | ObjTombstone string "'x obj"
  | ObjOther

fun as_AthenzDomain :: "'x obj \<Rightarrow> 'x AthenzDomain option option" where
  \<comment> \<open>the type assertion \<open>obj.(*AthenzDomain)\<close>: \<open>None\<close> when it fails\<close>
  "as_AthenzDomain (ObjAthenzDomain p) = Some p"
| "as_AthenzDomain _ = None"

end
