(* ===== verification/Util.thy ===== *)
theory Util
  imports Go_Strings Athenz_Types
begin

text \<open>
  The component \<^verbatim>\<open>pkg/util\<close>: the two-way mapping between Kubernetes namespaces and
  Athenz domains, the lists of system and excluded namespaces, and the filter that drops the
  roles and policies of the MSD service from a domain.
\<close>

section \<open>Model\<close>

record Util =
  adminDomain :: string
  systemNamespaces :: "string list"
  excludeNamespaces :: "string \<Rightarrow> bool option" \<comment> \<open>\<open>map[string]bool\<close>\<close>
  excludeMSDRules :: bool

definition NewUtil :: "string \<Rightarrow> string list \<Rightarrow> string list \<Rightarrow> bool \<Rightarrow> Util" where
  "NewUtil admin systemNs excludeNs excludeMSD =
     (let excludedNamespaceMap = fold (\<lambda>ns m. m(ns \<mapsto> True)) excludeNs Map.empty
      in \<lparr>adminDomain = admin, systemNamespaces = systemNs,
          excludeNamespaces = excludedNamespaceMap, excludeMSDRules = excludeMSD\<rparr>)"

definition DomainToNamespace :: "Util \<Rightarrow> string \<Rightarrow> string" where
  "DomainToNamespace u d =
     (if adminDomain u \<noteq> [] \<and> HasPrefix d (adminDomain u)
      then TrimPrefix d (adminDomain u @ ''.'')
      else let dubdash = ReplaceAll d ''-'' ''--''
           in ReplaceAll dubdash ''.'' ''-'')"

fun scan_namespaces :: "string \<Rightarrow> string list \<Rightarrow> bool" where
  \<comment> \<open>the loop of \<open>isSystemNamespace\<close>\<close>
  "scan_namespaces ns [] = False"
| "scan_namespaces ns (v # vs) = (if ns = v then True else scan_namespaces ns vs)"

definition isSystemNamespace :: "Util \<Rightarrow> string \<Rightarrow> bool" where
  "isSystemNamespace u ns = scan_namespaces ns (systemNamespaces u)"

definition NamespaceToDomain :: "Util \<Rightarrow> string \<Rightarrow> string" where
  "NamespaceToDomain u ns =
     (if isSystemNamespace u ns then adminDomain u @ ''.'' @ ns
      else let dotted = ReplaceAll ns ''-'' ''.''
           in ReplaceAll dotted ''..'' ''-'')"

fun scan_system_domains :: "Util \<Rightarrow> string \<Rightarrow> string list \<Rightarrow> bool" where
  \<comment> \<open>the loop of \<open>IsSystemDomain\<close>\<close>
  "scan_system_domains u d [] = False"
| "scan_system_domains u d (ns # nss) =
     (if d = NamespaceToDomain u ns then True else scan_system_domains u d nss)"

definition IsSystemDomain :: "Util \<Rightarrow> string \<Rightarrow> bool" where
  "IsSystemDomain u d = scan_system_domains u d (systemNamespaces u)"

definition IsNamespaceExcluded :: "Util \<Rightarrow> string \<Rightarrow> bool" where
  "IsNamespaceExcluded u ns = (case excludeNamespaces u ns of Some _ \<Rightarrow> True | None \<Rightarrow> False)"

definition IsAdminDomain :: "Util \<Rightarrow> string \<Rightarrow> bool" where
  "IsAdminDomain u d = (d = adminDomain u)"

definition GetAdminDomain :: "Util \<Rightarrow> string" where
  "GetAdminDomain u = adminDomain u"

definition GetSystemNSDomains :: "Util \<Rightarrow> string list" where
  "GetSystemNSDomains u =
     fold (\<lambda>ns ds. ds @ [NamespaceToDomain u ns]) (systemNamespaces u) []"

definition HomeDir :: "(string \<Rightarrow> string) \<Rightarrow> string" where
  \<comment> \<open>\<open>getenv\<close> is \<open>os.Getenv\<close>: the empty string for an unset variable\<close>
  "HomeDir getenv = (if getenv ''HOME'' \<noteq> [] then getenv ''HOME'' else getenv ''USERPROFILE'')"

text \<open>
  \<^verbatim>\<open>filterMSDRules\<close> rewrites the domain it is given and returns it.  Each loop
  dereferences the pointers it ranges over, and the second one goes through
  \<^verbatim>\<open>domain.Policies.Contents\<close>, so a nil pointer on the way panics.
\<close>

fun filterRoles :: "string \<Rightarrow> 'x Role option list \<Rightarrow> 'x Role option slice \<Rightarrow> 'x Role option slice outcome" where
  "filterRoles dn [] acc = Return acc"
| "filterRoles dn (role # rest) acc =
     bind_outcome (deref role) (\<lambda>r.
       let aclPrefix = dn @ '':role.acl.''; msdReadPrefix = dn @ '':role.msd-read-role-''
       in if HasPrefix (roleName r) aclPrefix \<or> HasPrefix (roleName r) msdReadPrefix
          then filterRoles dn rest acc
          else filterRoles dn rest (append_slice acc role))"

fun filterPolicies ::
    "string \<Rightarrow> 'x Policy option list \<Rightarrow> 'x Policy option slice \<Rightarrow> 'x Policy option slice outcome" where
  "filterPolicies dn [] acc = Return acc"
| "filterPolicies dn (policy # rest) acc =
     bind_outcome (deref policy) (\<lambda>p.
       let aclPrefix = dn @ '':policy.acl.''; msdReadPrefix = dn @ '':policy.msd-read-policy-''
       in if HasPrefix (policyName p) aclPrefix \<or> HasPrefix (policyName p) msdReadPrefix
          then filterPolicies dn rest acc
          else filterPolicies dn rest (append_slice acc policy))"

definition filterMSDRules :: "'x DomainData option \<Rightarrow> 'x DomainData option outcome" where
  "filterMSDRules domainPtr =
     bind_outcome (deref domainPtr) (\<lambda>d.
     bind_outcome (filterRoles (domainName d) (elems (roles d)) None) (\<lambda>filteredRoles.
     let d = d\<lparr>roles := filteredRoles\<rparr> in
     bind_outcome (deref (domainPolicies d)) (\<lambda>sp.
     bind_outcome (deref (contents sp)) (\<lambda>dp.
     bind_outcome (filterPolicies (domainName d) (elems (policies dp)) None) (\<lambda>filteredPolicies.
     Return (Some (d\<lparr>domainPolicies :=
               Some (sp\<lparr>contents := Some (dp\<lparr>policies := filteredPolicies\<rparr>)\<rparr>)\<rparr>)))))))"

definition FilterMSDRules :: "Util \<Rightarrow> 'x DomainData option \<Rightarrow> 'x DomainData option outcome" where
  "FilterMSDRules u domainData = (if \<not> excludeMSDRules u then Return domainData else filterMSDRules domainData)"

section \<open>Membership\<close>

lemma isSystemNamespace_iff [simp]: "isSystemNamespace u ns \<longleftrightarrow> ns \<in> set (systemNamespaces u)"
proof -
  have "scan_namespaces ns vs \<longleftrightarrow> ns \<in> set vs" for vs
    by (induction vs) auto
  then show ?thesis
    by (simp add: isSystemNamespace_def)
qed

lemma NewUtil_simps [simp]:
  "adminDomain (NewUtil a s e m) = a"
  "systemNamespaces (NewUtil a s e m) = s"
  "excludeMSDRules (NewUtil a s e m) = m"
  by (simp_all add: NewUtil_def)

lemma IsNamespaceExcluded_NewUtil:
  "IsNamespaceExcluded (NewUtil a s e m) ns \<longleftrightarrow> ns \<in> set e"
proof -
  have "fold (\<lambda>ns m. m(ns \<mapsto> True)) xs m ns = (if ns \<in> set xs then Some True else m ns)" for xs m
    by (induction xs arbitrary: m) auto
  then show ?thesis
    by (simp add: IsNamespaceExcluded_def NewUtil_def)
qed

lemma GetSystemNSDomains_map [simp]:
  "GetSystemNSDomains u = map (NamespaceToDomain u) (systemNamespaces u)"
proof -
  have "fold (\<lambda>ns ds. ds @ [f ns]) xs acc = acc @ map f xs" for f :: "string \<Rightarrow> string" and xs acc
    by (induction xs arbitrary: acc) auto
  then show ?thesis
    by (simp add: GetSystemNSDomains_def)
qed

lemma IsSystemDomain_iff:
  "IsSystemDomain u d \<longleftrightarrow> (\<exists>ns \<in> set (systemNamespaces u). d = adminDomain u @ ''.'' @ ns)"
proof -
  have "scan_system_domains u d nss \<longleftrightarrow> (\<exists>ns \<in> set nss. d = NamespaceToDomain u ns)" for nss
    by (induction nss) auto
  then show ?thesis
    by (simp add: IsSystemDomain_def NamespaceToDomain_def)
qed

section \<open>The mapping between namespaces and domains\<close>

text \<open>
  The two substitutions character by character: a dash of a domain becomes two dashes and a dot
  one; read back, every dash is a dot and two dots in a row are a dash.
\<close>

definition dash_out :: "char \<Rightarrow> string" where
  "dash_out c = (if c = CHR ''-'' then ''--'' else if c = CHR ''.'' then ''-'' else [c])"

definition dot_in :: "char \<Rightarrow> char" where
  "dot_in c = (if c = CHR ''-'' then CHR ''.'' else c)"

abbreviation pair_dots :: "string \<Rightarrow> string" where
  "pair_dots s \<equiv> ReplaceAll s ''..'' ''-''"

lemma encode_eq:
  "ReplaceAll (ReplaceAll d ''-'' ''--'') ''.'' ''-'' = concat (map dash_out d)"
  by (induction d) (auto simp: ReplaceAll_char dash_out_def)

lemma decode_eq: "ReplaceAll ns ''-'' ''.'' = map dot_in ns"
  by (simp add: ReplaceAll_char_char dot_in_def)

lemma DomainToNamespace_plain:
  "adminDomain u = [] \<or> \<not> HasPrefix d (adminDomain u) \<Longrightarrow>
     DomainToNamespace u d = concat (map dash_out d)"
  by (auto simp: DomainToNamespace_def encode_eq Let_def)

lemma NamespaceToDomain_plain:
  "\<not> isSystemNamespace u ns \<Longrightarrow> NamespaceToDomain u ns = pair_dots (map dot_in ns)"
  by (simp add: NamespaceToDomain_def decode_eq Let_def)

text \<open>A system namespace is read back as a domain below the admin domain, never as one outside.\<close>

lemma system_namespace_elsewhere:
  assumes "adminDomain u = [] \<or> \<not> HasPrefix d (adminDomain u)"
    and "isSystemNamespace u (DomainToNamespace u d)"
  shows "NamespaceToDomain u (DomainToNamespace u d) \<noteq> d"
proof
  assume same: "NamespaceToDomain u (DomainToNamespace u d) = d"
  have d: "adminDomain u @ CHR ''.'' # concat (map dash_out d) = d"
    using same assms(2) by (simp add: NamespaceToDomain_def DomainToNamespace_plain [OF assms(1)])
  have "length d \<le> length (concat (map dash_out d))"
    by (induction d) (auto simp: dash_out_def)
  moreover have "length d = length (adminDomain u) + Suc (length (concat (map dash_out d)))"
    using arg_cong [OF d, of length] by simp
  ultimately show False by simp
qed

lemma dash_out_no_dot: "CHR ''.'' \<notin> set (concat (map dash_out d))"
  by (auto simp: dash_out_def split: if_splits)

text \<open>Encoding what the decoder produced restores every dot-free string.\<close>

lemma encode_pair_dots:
  "CHR ''-'' \<notin> set s \<Longrightarrow> concat (map dash_out (pair_dots s)) = concat (map dash_out s)"
proof (induction s rule: induct_list012)
  case (3 x y s)
  show ?case
  proof (cases "x = CHR ''.'' \<and> y = CHR ''.''")
    case True
    with 3 show ?thesis
      by (simp add: ReplaceAll_pair_simps dash_out_def)
  next
    case False
    then have "pair_dots (x # y # s) = x # pair_dots (y # s)"
      by (cases "x = CHR ''.''") (simp_all add: ReplaceAll_pair_simps)
    with 3 show ?thesis by simp
  qed
qed (simp_all add: ReplaceAll_pair_simps)

lemma encode_dot_in:
  "CHR ''.'' \<notin> set ns \<Longrightarrow> concat (map dash_out (map dot_in ns)) = ns"
  by (induction ns) (auto simp: dash_out_def dot_in_def)

lemma dot_in_no_dash: "CHR ''-'' \<notin> set (map dot_in ns)"
  by (auto simp: dot_in_def split: if_splits)

lemma encode_decode:
  "concat (map dash_out (pair_dots (map dot_in ns))) = ns \<longleftrightarrow> CHR ''.'' \<notin> set ns"
proof -
  have "concat (map dash_out (pair_dots (map dot_in ns))) = concat (map dash_out (map dot_in ns))"
    by (rule encode_pair_dots [OF dot_in_no_dash])
  moreover have "concat (map dash_out (map dot_in ns)) = ns \<Longrightarrow> CHR ''.'' \<notin> set ns"
    using dash_out_no_dot by metis
  ultimately show ?thesis
    using encode_dot_in by auto
qed

text \<open>
  The other way round a domain is restored exactly when none of its dots is followed by a dot or
  a dash.
\<close>

fun dots_separate :: "string \<Rightarrow> bool" where
  "dots_separate (x # y # s) =
     ((x = CHR ''.'' \<longrightarrow> y \<noteq> CHR ''.'' \<and> y \<noteq> CHR ''-'') \<and> dots_separate (y # s))"
| "dots_separate _ = True"

lemma dot_in_dash_out:
  "map dot_in (dash_out c) = (if c = CHR ''-'' then ''..'' else [c])"
  by (simp add: dash_out_def dot_in_def)

lemma decode_encode:
  "pair_dots (map dot_in (concat (map dash_out d))) = d \<longleftrightarrow> dots_separate d"
proof (induction d rule: dots_separate.induct)
  case (1 x y s)
  let ?t = "map dot_in (concat (map dash_out (y # s)))"
  have split: "map dot_in (concat (map dash_out (x # y # s))) = map dot_in (dash_out x) @ ?t"
    by simp
  have start: "\<exists>t. ?t = (if y = CHR ''.'' \<or> y = CHR ''-'' then CHR ''.'' else y) # t"
    by (simp add: dash_out_def dot_in_def)
  consider "x = CHR ''-''" | "x = CHR ''.''" "y = CHR ''.'' \<or> y = CHR ''-''"
    | "x = CHR ''.''" "y \<noteq> CHR ''.''" "y \<noteq> CHR ''-''" | "x \<noteq> CHR ''.''" "x \<noteq> CHR ''-''"
    by blast
  then show ?case
  proof cases
    case 2
    with start obtain t where "?t = CHR ''.'' # t" by auto
    with 2 split show ?thesis
      by (auto simp: dot_in_dash_out ReplaceAll_pair_simps)
  next
    case 3
    with start obtain t where t: "?t = y # t" by auto
    with 3 have "pair_dots (CHR ''.'' # ?t) = CHR ''.'' # pair_dots ?t"
      by (simp add: ReplaceAll_pair_simps)
    with 3 split "1.IH" show ?thesis
      by (simp add: dot_in_dash_out)
  qed (use split "1.IH" in \<open>simp_all add: dot_in_dash_out ReplaceAll_pair_simps\<close>)
qed (simp_all add: dash_out_def dot_in_def ReplaceAll_pair_simps)

section \<open>The codec interface\<close>

text \<open>
  What the controller and the cron rely on: a namespace that can be mapped is found again from
  its domain, so distinct namespaces have distinct domains.
\<close>

locale ns_codec =
  fixes to_ns :: "string \<Rightarrow> string"
    and to_dom :: "string \<Rightarrow> string"
    and ok :: "string \<Rightarrow> bool"
  assumes ns_back: "ok ns \<Longrightarrow> to_ns (to_dom ns) = ns"
begin

lemma to_dom_inj: "inj_on to_dom {ns. ok ns}"
  by (rule inj_on_inverseI [where g = to_ns]) (simp add: ns_back)

lemma to_dom_eq_iff: "ok a \<Longrightarrow> ok b \<Longrightarrow> to_dom a = to_dom b \<longleftrightarrow> a = b"
  using ns_back by metis

lemma distinct_domains: "distinct nss \<Longrightarrow> list_all ok nss \<Longrightarrow> distinct (map to_dom nss)"
  by (auto simp: distinct_map list_all_iff intro: inj_on_subset [OF to_dom_inj])

lemma domain_in_image: "ok ns \<Longrightarrow> list_all ok nss \<Longrightarrow> to_dom ns \<in> set (map to_dom nss) \<longleftrightarrow> ns \<in> set nss"
  by (auto simp: list_all_iff to_dom_eq_iff)

end

definition mappable :: "Util \<Rightarrow> string \<Rightarrow> bool" where
  "mappable u ns \<longleftrightarrow>
     (if isSystemNamespace u ns then adminDomain u \<noteq> []
      else CHR ''.'' \<notin> set ns \<and>
           (adminDomain u = [] \<or> \<not> HasPrefix (NamespaceToDomain u ns) (adminDomain u)))"

lemma system_ns_back:
  assumes "isSystemNamespace u ns" "adminDomain u \<noteq> []"
  shows "DomainToNamespace u (NamespaceToDomain u ns) = ns"
proof -
  have dom: "NamespaceToDomain u ns = (adminDomain u @ ''.'') @ ns"
    using assms(1) by (simp add: NamespaceToDomain_def)
  then have "HasPrefix (NamespaceToDomain u ns) (adminDomain u)"
    by (simp add: HasPrefix_def)
  then have "DomainToNamespace u (NamespaceToDomain u ns)
               = TrimPrefix (NamespaceToDomain u ns) (adminDomain u @ ''.'')"
    using assms(2) by (simp add: DomainToNamespace_def)
  then show ?thesis
    by (simp only: dom TrimPrefix_append)
qed

lemma mappable_back:
  assumes "mappable u ns"
  shows "DomainToNamespace u (NamespaceToDomain u ns) = ns"
proof (cases "isSystemNamespace u ns")
  case True
  with assms show ?thesis
    by (intro system_ns_back) (simp_all add: mappable_def)
next
  case False
  with assms have "CHR ''.'' \<notin> set ns"
    and "DomainToNamespace u (NamespaceToDomain u ns)
           = concat (map dash_out (pair_dots (map dot_in ns)))"
    by (simp_all add: mappable_def DomainToNamespace_plain NamespaceToDomain_plain)
  then show ?thesis
    by (simp add: encode_decode)
qed

interpretation util: ns_codec "DomainToNamespace u" "NamespaceToDomain u" "mappable u" for u
  by unfold_locales (rule mappable_back)

section \<open>The MSD filter\<close>

definition msd_role :: "string \<Rightarrow> 'x Role \<Rightarrow> bool" where
  "msd_role dn r \<longleftrightarrow>
     HasPrefix (roleName r) (dn @ '':role.acl.'') \<or> HasPrefix (roleName r) (dn @ '':role.msd-read-role-'')"

definition msd_policy :: "string \<Rightarrow> 'x Policy \<Rightarrow> bool" where
  "msd_policy dn p \<longleftrightarrow>
     HasPrefix (policyName p) (dn @ '':policy.acl.'') \<or>
     HasPrefix (policyName p) (dn @ '':policy.msd-read-policy-'')"

text \<open>The pointers that the filter goes through.\<close>

definition filterable :: "'x DomainData option \<Rightarrow> bool" where
  "filterable ptr \<longleftrightarrow>
     (case ptr of None \<Rightarrow> False
      | Some d \<Rightarrow> None \<notin> set (elems (roles d)) \<and>
          (case domainPolicies d of None \<Rightarrow> False
           | Some sp \<Rightarrow> (case contents sp of None \<Rightarrow> False
                         | Some dp \<Rightarrow> None \<notin> set (elems (policies dp)))))"

lemma filterRoles_eq:
  "filterRoles dn rs (slice_of acc) =
     (if None \<in> set rs then Panic NilDereference
      else Return (slice_of (acc @ filter (\<lambda>r. \<not> msd_role dn (the r)) rs)))"
proof (induction rs arbitrary: acc)
  case (Cons role rs)
  then show ?case
    by (cases role) (simp_all add: msd_role_def)
qed simp

lemma filterPolicies_eq:
  "filterPolicies dn ps (slice_of acc) =
     (if None \<in> set ps then Panic NilDereference
      else Return (slice_of (acc @ filter (\<lambda>p. \<not> msd_policy dn (the p)) ps)))"
proof (induction ps arbitrary: acc)
  case (Cons policy ps)
  then show ?case
    by (cases policy) (simp_all add: msd_policy_def)
qed simp

lemmas filter_loops =
  filterRoles_eq [where acc = "[]", simplified] filterPolicies_eq [where acc = "[]", simplified]

definition drop_msd :: "'x DomainData \<Rightarrow> 'x DomainData" where
  \<comment> \<open>the filter as a specification: the kept roles and policies, in their order\<close>
  "drop_msd d = d\<lparr>
     roles := slice_of (filter (\<lambda>r. \<not> msd_role (domainName d) (the r)) (elems (roles d))),
     domainPolicies := map_option (\<lambda>sp. sp\<lparr>contents := map_option (\<lambda>dp. dp\<lparr>policies :=
         slice_of (filter (\<lambda>p. \<not> msd_policy (domainName d) (the p)) (elems (policies dp)))\<rparr>)
           (contents sp)\<rparr>) (domainPolicies d)\<rparr>"

lemma filterMSDRules_eq:
  "filterMSDRules ptr =
     (if filterable ptr then Return (map_option drop_msd ptr) else Panic NilDereference)"
proof (cases ptr)
  case (Some d)
  then show ?thesis
    by (cases "domainPolicies d"; cases "map_option contents (domainPolicies d)")
      (auto simp: filterMSDRules_def filterable_def filter_loops drop_msd_def
        split: option.split)
qed (simp add: filterMSDRules_def filterable_def)

lemma drop_msd_simps [simp]:
  "domainName (drop_msd d) = domainName d"
  "modified (drop_msd d) = modified d"
  "domainRest (drop_msd d) = domainRest d"
  "elems (roles (drop_msd d)) = filter (\<lambda>r. \<not> msd_role (domainName d) (the r)) (elems (roles d))"
  by (simp_all add: drop_msd_def)

lemma filterable_drop_msd: "filterable (Some d) \<Longrightarrow> filterable (Some (drop_msd d))"
  by (auto simp: filterable_def drop_msd_def split: option.splits)

lemma drop_msd_idem [simp]: "drop_msd (drop_msd d) = drop_msd d"
  by (cases "domainPolicies d"; cases "map_option contents (domainPolicies d)")
    (auto simp: drop_msd_def option.map_comp comp_def split: option.split)

lemma kept_policies:
  "domainPolicies (drop_msd d) = Some sp \<Longrightarrow> contents sp = Some dp \<Longrightarrow>
     Some p \<in> set (elems (policies dp)) \<Longrightarrow> \<not> msd_policy (domainName d) p"
  by (auto simp: drop_msd_def)

lemma FilterMSDRules_cases:
  assumes "FilterMSDRules u ptr = Return (Some d)"
  obtains (off) "\<not> excludeMSDRules u" "ptr = Some d"
  | (on) d0 where "excludeMSDRules u" "ptr = Some d0" "filterable (Some d0)" "d = drop_msd d0"
  using assms by (cases ptr) (auto simp: FilterMSDRules_def filterMSDRules_eq split: if_splits)

lemma FilterMSDRules_fixed:
  assumes "FilterMSDRules u ptr = Return (Some d)"
  shows "FilterMSDRules u (Some d) = Return (Some d)"
  using assms
  by (cases rule: FilterMSDRules_cases)
    (simp_all add: FilterMSDRules_def filterMSDRules_eq filterable_drop_msd)

lemma FilterMSDRules_name:
  "FilterMSDRules u (Some d0) = Return (Some d) \<Longrightarrow> domainName d = domainName d0"
  by (elim FilterMSDRules_cases) auto

section \<open>Properties\<close>

text \<open>
  C20.  A namespace that is not a system namespace and whose domain is not under the admin
  domain's prefix comes back from its domain exactly when it has no dot, as no Kubernetes
  namespace (a DNS label) has.
\<close>

theorem namespace_roundtrip:
  assumes "\<not> isSystemNamespace u ns"
    and "adminDomain u = [] \<or> \<not> HasPrefix (NamespaceToDomain u ns) (adminDomain u)"
  shows "DomainToNamespace u (NamespaceToDomain u ns) = ns \<longleftrightarrow> CHR ''.'' \<notin> set ns"
  by (simp only: DomainToNamespace_plain [OF assms(2)])
    (simp only: NamespaceToDomain_plain [OF assms(1)] encode_decode)

lemma namespace_roundtrip_witness:
  "DomainToNamespace (NewUtil ''admin.domain'' [''kube-system''] [] False)
     (NamespaceToDomain (NewUtil ''admin.domain'' [''kube-system''] [] False) ''k8s-athenz--istio--auth'')
   = ''k8s-athenz--istio--auth''"
  by (subst namespace_roundtrip)
    (simp_all add: NamespaceToDomain_plain dot_in_def ReplaceAll_pair_simps HasPrefix_def)

text \<open>
  C21.  A domain that is not under the admin domain's prefix comes back from its namespace
  exactly when that is no system namespace and no dot in the domain is followed by a dot or a dash;
  the names that Athenz accepts are of the latter form, since every component of a name starts with
  a letter, digit or underscore.
\<close>

theorem domain_roundtrip:
  assumes "adminDomain u = [] \<or> \<not> HasPrefix d (adminDomain u)"
  shows "NamespaceToDomain u (DomainToNamespace u d) = d \<longleftrightarrow>
    \<not> isSystemNamespace u (DomainToNamespace u d) \<and> dots_separate d"
proof (cases "isSystemNamespace u (DomainToNamespace u d)")
  case True
  with system_namespace_elsewhere [OF assms] show ?thesis by simp
next
  case False
  have "NamespaceToDomain u (DomainToNamespace u d) = d \<longleftrightarrow> dots_separate d"
    by (subst NamespaceToDomain_plain [OF False]) (simp only: DomainToNamespace_plain [OF assms] decode_encode)
  with False show ?thesis by simp
qed

lemma domain_roundtrip_witness:
  "NamespaceToDomain (NewUtil ''admin.domain'' [''kube-system''] [] False)
     (DomainToNamespace (NewUtil ''admin.domain'' [''kube-system''] [] False) ''k8s.athenz-istio-auth'')
   = ''k8s.athenz-istio-auth'' \<and>
   NamespaceToDomain (NewUtil [] [] [] False) (DomainToNamespace (NewUtil [] [] [] False) ''a.-b'') \<noteq> ''a.-b'' \<and>
   NamespaceToDomain (NewUtil ''admin.domain'' [''kube-system''] [] False)
     (DomainToNamespace (NewUtil ''admin.domain'' [''kube-system''] [] False) ''kube.system'') \<noteq> ''kube.system''"
proof -
  let ?u = "NewUtil ''admin.domain'' [''kube-system''] [] False"
  have "\<not> isSystemNamespace ?u (DomainToNamespace ?u ''k8s.athenz-istio-auth'')"
      "isSystemNamespace ?u (DomainToNamespace ?u ''kube.system'')"
    by (simp_all add: DomainToNamespace_plain HasPrefix_def dash_out_def)
  then show ?thesis
    using domain_roundtrip [of ?u "''k8s.athenz-istio-auth''"] domain_roundtrip [of ?u "''kube.system''"]
      domain_roundtrip [of "NewUtil [] [] [] False" "''a.-b''"]
    by (simp add: HasPrefix_def)
qed

text \<open>
  Distinct mappable namespaces (system ones included, under a configured admin
  domain) are mapped to distinct domains: no two namespaces of a cluster share a custom
  resource.
\<close>

theorem namespaces_have_distinct_domains:
  assumes "distinct nss" and "list_all (mappable u) nss"
  shows "distinct (map (NamespaceToDomain u) nss)"
  using assms by (rule util.distinct_domains)

lemma namespaces_have_distinct_domains_witness:
  "distinct (map (NamespaceToDomain (NewUtil ''adm'' [''kube-system''] [] False))
     [''kube-system'', ''home-test'', ''home--test''])"
  by (rule namespaces_have_distinct_domains)
    (simp_all add: mappable_def NamespaceToDomain_plain dot_in_def ReplaceAll_pair_simps HasPrefix_def)

text \<open>
  A domain that merely starts with the letters of the admin domain, without the dot that
  would make it a subdomain, is returned unchanged instead of being translated: if it has a
  dot, it is the name of no namespace.
\<close>

theorem admin_sibling_not_translated:
  assumes "adminDomain u \<noteq> []" and "c \<noteq> CHR ''.''"
  shows "DomainToNamespace u (adminDomain u @ c # rest) = adminDomain u @ c # rest"
proof -
  have "\<not> HasPrefix (adminDomain u @ c # rest) (adminDomain u @ ''.'')"
    using assms(2) by (simp add: HasPrefix_def)
  then show ?thesis
    using assms(1) by (simp add: DomainToNamespace_def TrimPrefix_def)
qed

lemma admin_sibling_not_translated_witness:
  "DomainToNamespace (NewUtil ''k8s.admin'' [] [] False) ''k8s.admins'' = ''k8s.admins'' \<and>
   DomainToNamespace (NewUtil [] [] [] False) ''k8s.admins'' = ''k8s-admins''"
proof -
  have "DomainToNamespace (NewUtil [] [] [] False) ''k8s.admins'' = ''k8s-admins''"
    by (simp add: DomainToNamespace_plain dash_out_def)
  then show ?thesis
    using admin_sibling_not_translated [of "NewUtil ''k8s.admin'' [] [] False" "CHR ''s''" "[]"]
    by simp
qed

text \<open>
  C31.  The MSD filter returns exactly when every pointer it goes through is set, and then its
  result is the domain with the MSD roles and policies dropped and the others kept in their
  order, every other field unchanged; on a nil pointer it panics.
\<close>

theorem filterMSDRules_correct:
  "filterMSDRules ptr =
     (if filterable ptr then Return (map_option drop_msd ptr) else Panic NilDereference)"
  by (rule filterMSDRules_eq)

text \<open>
  Filtering is idempotent, and neither a role nor a policy that it keeps is one of the
  MSD service.
\<close>

theorem FilterMSDRules_idempotent:
  assumes "FilterMSDRules u ptr = Return (Some d)"
  shows "FilterMSDRules u (Some d) = Return (Some d) \<and>
    (excludeMSDRules u \<longrightarrow>
       (\<forall>r. Some r \<in> set (elems (roles d)) \<longrightarrow> \<not> msd_role (domainName d) r) \<and>
       (\<forall>sp dp p. domainPolicies d = Some sp \<longrightarrow> contents sp = Some dp \<longrightarrow>
          Some p \<in> set (elems (policies dp)) \<longrightarrow> \<not> msd_policy (domainName d) p))"
  using assms FilterMSDRules_fixed [OF assms]
  by (cases rule: FilterMSDRules_cases) (auto simp: kept_policies)

definition sample_domain :: "unit DomainData" where
  "sample_domain =
     \<lparr>domainName = ''test.domain'',
      roles = Some [Some \<lparr>roleName = ''test.domain:role.admin'', roleTrust = [], roleRest = ()\<rparr>,
                    Some \<lparr>roleName = ''test.domain:role.acl.web'', roleTrust = [], roleRest = ()\<rparr>],
      domainPolicies = Some \<lparr>contents = Some \<lparr>policiesDomain = ''test.domain'', policies = None\<rparr>,
                             policiesSignature = ''s'', policiesKeyId = ''k''\<rparr>,
      modified = 0, domainRest = ()\<rparr>"

lemma FilterMSDRules_sample:
  "FilterMSDRules (NewUtil [] [] [] True) (Some sample_domain) = Return (Some (drop_msd sample_domain))"
  by (simp add: FilterMSDRules_def filterMSDRules_eq filterable_def sample_domain_def)

lemma FilterMSDRules_idempotent_witness:
  "FilterMSDRules (NewUtil [] [] [] True) (Some (drop_msd sample_domain))
     = Return (Some (drop_msd sample_domain)) \<and>
   drop_msd sample_domain \<noteq> sample_domain"
  using FilterMSDRules_idempotent [OF FilterMSDRules_sample]
  by (simp add: drop_msd_def sample_domain_def msd_role_def HasPrefix_def slice_of_def)

end
