(* ===== verification/Environment.thy ===== *)
theory Environment
  imports Athenz_Types
begin

text \<open>
  Everything outside the repository that the controller calls, as one record of operations on
  an abstract world \<^typ>\<open>'w\<close>: the REST transport under the generated AthenzDomain client, the
  core client for config maps, the informer caches, the ZMS client, and the rate limiting work
  queue.  The definitions of the components take this record as an argument; the laws that a
  theorem needs of it are locales below, stated as these packages document them.  The generated
  typed client \<^verbatim>\<open>pkg/client/clientset/versioned/typed/athenz/v1\<close> is part of the
  repository and is modelled here on top of the transport.
\<close>

section \<open>REST requests\<close>

datatype verb = GET | POST | PUT | DELETE | PATCH string

record ListOptions =
  timeoutSeconds :: "int option"
  watch :: bool
  listRest :: string \<comment> \<open>the remaining options, rendered\<close>

datatype params = NoParams | ListParams ListOptions | OptionParams string

datatype 'x body = NoBody | DomainBody "'x AthenzDomain" | OptionsBody string | BytesBody string

record 'x request =
  verb :: verb
  resource :: string
  resourceName :: "string option"
  subResource :: "string list"
  versionedParams :: params
  timeout :: "int option" \<comment> \<open>nanoseconds\<close>
  body :: "'x body"

record ConfigMap =
  cmName :: string
  cmData :: "string \<Rightarrow> string option"

datatype queue_key = KeyString string | KeyOther

record ('w, 'x) env =
  copiers :: "'x copiers"
  \<comment> \<open>the transport: \<open>Do(ctx).Into(result)\<close>, \<open>Do(ctx).Error()\<close>, \<open>Watch(ctx)\<close>\<close>
  rest_Into :: "'x request \<Rightarrow> 'w \<Rightarrow> ('x AthenzDomain \<times> err option) \<times> 'w"
  rest_IntoList :: "'x request \<Rightarrow> 'w \<Rightarrow> ('x AthenzDomainList \<times> err option) \<times> 'w"
  rest_Error :: "'x request \<Rightarrow> 'w \<Rightarrow> err option \<times> 'w"
  rest_Watch :: "'x request \<Rightarrow> 'w \<Rightarrow> err option \<times> 'w"
  \<comment> \<open>the store and indexer of the AthenzDomain informer, and the store of the namespace informer\<close>
  cr_GetByKey :: "'w \<Rightarrow> string \<Rightarrow> 'x obj option \<times> err option"
  cr_List :: "'w \<Rightarrow> 'x obj list"
  cr_ByIndex :: "'w \<Rightarrow> string \<Rightarrow> string \<Rightarrow> 'x obj list \<times> err option"
  cr_ListIndexFuncValues :: "'w \<Rightarrow> string \<Rightarrow> string list"
  ns_GetByKey :: "'w \<Rightarrow> string \<Rightarrow> 'x obj option \<times> err option"
  ns_List :: "'w \<Rightarrow> 'x obj list"
  \<comment> \<open>config maps, by namespace\<close>
  cm_Get :: "string \<Rightarrow> string \<Rightarrow> 'w \<Rightarrow> (ConfigMap option \<times> err option) \<times> 'w"
  cm_Create :: "string \<Rightarrow> ConfigMap \<Rightarrow> 'w \<Rightarrow> (ConfigMap option \<times> err option) \<times> 'w"
  cm_Update :: "string \<Rightarrow> ConfigMap \<Rightarrow> 'w \<Rightarrow> (ConfigMap option \<times> err option) \<times> 'w"
  \<comment> \<open>\<open>GetSignedDomains(domain, metaOnly, metaAttr, master, conditions, matchingTag)\<close>\<close>
  zms_GetSignedDomains :: "string \<Rightarrow> string \<Rightarrow> string \<Rightarrow> bool \<Rightarrow> bool \<Rightarrow> string \<Rightarrow> 'w \<Rightarrow>
    ('x SignedDomains option \<times> string \<times> err option) \<times> 'w"
  \<comment> \<open>the work queue\<close>
  q_AddRateLimited :: "string \<Rightarrow> 'w \<Rightarrow> 'w"
  q_NumRequeues :: "string \<Rightarrow> 'w \<Rightarrow> int"
  q_Forget :: "queue_key \<Rightarrow> 'w \<Rightarrow> 'w"
  q_Get :: "'w \<Rightarrow> (queue_key \<times> bool) \<times> 'w"
  q_Done :: "queue_key \<Rightarrow> 'w \<Rightarrow> 'w"
  q_ShutDown :: "'w \<Rightarrow> 'w"
  \<comment> \<open>the text of an error value: \<open>err.Error()\<close> on a non-nil error\<close>
  error_text :: "err \<Rightarrow> string"

section \<open>The generated AthenzDomain client\<close>

abbreviation athenzdomains :: string where
  "athenzdomains \<equiv> ''athenzdomains''"

definition seconds :: "int option \<Rightarrow> int" where
  \<comment> \<open>\<open>time.Duration(*opts.TimeoutSeconds) * time.Second\<close>, zero when unset\<close>
  "seconds t = (case t of None \<Rightarrow> 0 | Some s \<Rightarrow> wrap64 (s * 10 ^ 9))"

definition client_Get :: "('w, 'x) env \<Rightarrow> string \<Rightarrow> string \<Rightarrow> 'w \<Rightarrow> ('x AthenzDomain \<times> err option) \<times> 'w" where
  "client_Get E nm options =
     rest_Into E \<lparr>verb = GET, resource = athenzdomains, resourceName = Some nm, subResource = [],
                  versionedParams = OptionParams options, timeout = None, body = NoBody\<rparr>"

definition client_List :: "('w, 'x) env \<Rightarrow> ListOptions \<Rightarrow> 'w \<Rightarrow> ('x AthenzDomainList \<times> err option) \<times> 'w" where
  "client_List E opts =
     rest_IntoList E \<lparr>verb = GET, resource = athenzdomains, resourceName = None, subResource = [],
                      versionedParams = ListParams opts, timeout = Some (seconds (timeoutSeconds opts)),
                      body = NoBody\<rparr>"

definition client_Watch :: "('w, 'x) env \<Rightarrow> ListOptions \<Rightarrow> 'w \<Rightarrow> err option \<times> 'w" where
  "client_Watch E opts =
     (let time = seconds (timeoutSeconds opts); opts = opts\<lparr>watch := True\<rparr>
      in rest_Watch E \<lparr>verb = GET, resource = athenzdomains, resourceName = None, subResource = [],
                       versionedParams = ListParams opts, timeout = Some time, body = NoBody\<rparr>)"

definition client_Create ::
    "('w, 'x) env \<Rightarrow> 'x AthenzDomain \<Rightarrow> string \<Rightarrow> 'w \<Rightarrow> ('x AthenzDomain \<times> err option) \<times> 'w" where
  "client_Create E athenzDomain opts =
     rest_Into E \<lparr>verb = POST, resource = athenzdomains, resourceName = None, subResource = [],
                  versionedParams = OptionParams opts, timeout = None, body = DomainBody athenzDomain\<rparr>"

definition client_Update ::
    "('w, 'x) env \<Rightarrow> 'x AthenzDomain \<Rightarrow> string \<Rightarrow> 'w \<Rightarrow> ('x AthenzDomain \<times> err option) \<times> 'w" where
  "client_Update E athenzDomain opts =
     rest_Into E \<lparr>verb = PUT, resource = athenzdomains,
                  resourceName = Some (name (objectMeta athenzDomain)), subResource = [],
                  versionedParams = OptionParams opts, timeout = None, body = DomainBody athenzDomain\<rparr>"

definition client_Delete :: "('w, 'x) env \<Rightarrow> string \<Rightarrow> string \<Rightarrow> 'w \<Rightarrow> err option \<times> 'w" where
  "client_Delete E nm opts =
     rest_Error E \<lparr>verb = DELETE, resource = athenzdomains, resourceName = Some nm, subResource = [],
                   versionedParams = NoParams, timeout = None, body = OptionsBody opts\<rparr>"

definition client_DeleteCollection ::
    "('w, 'x) env \<Rightarrow> string \<Rightarrow> ListOptions \<Rightarrow> 'w \<Rightarrow> err option \<times> 'w" where
  "client_DeleteCollection E opts listOpts =
     rest_Error E \<lparr>verb = DELETE, resource = athenzdomains, resourceName = None, subResource = [],
                   versionedParams = ListParams listOpts,
                   timeout = Some (seconds (timeoutSeconds listOpts)), body = OptionsBody opts\<rparr>"

definition client_Patch ::
    "('w, 'x) env \<Rightarrow> string \<Rightarrow> string \<Rightarrow> string \<Rightarrow> string \<Rightarrow> string list \<Rightarrow> 'w \<Rightarrow>
      ('x AthenzDomain \<times> err option) \<times> 'w" where
  "client_Patch E nm pt data opts subresources =
     rest_Into E \<lparr>verb = PATCH pt, resource = athenzdomains, resourceName = Some nm,
                  subResource = subresources, versionedParams = OptionParams opts, timeout = None,
                  body = BytesBody data\<rparr>"

section \<open>The laws of the API server\<close>

text \<open>
  \<open>crs\<close> reads the AthenzDomain objects that the API server holds.  A create that succeeds adds
  an object under a name that was free; a create under a used name fails with
  \<^verbatim>\<open>AlreadyExists\<close>; an update that succeeds replaces an object, and only if the
  resource version sent is empty or the stored one; a delete that succeeds removes the object.
  The stored object has the spec and status that were sent.  A request that the server answers
  with a status error changes nothing; one that fails in another way (the answer was lost) has
  either been carried out or not, and never touches another object.
  ZMS, the config maps and the work queue are not the API server's AthenzDomain objects.
\<close>

definition stored_as :: "'x AthenzDomain \<Rightarrow> 'x AthenzDomain \<Rightarrow> bool" where
  "stored_as sent o' \<longleftrightarrow>
     spec o' = spec sent \<and> status o' = status sent \<and>
     name (objectMeta o') = name (objectMeta sent)"

locale domain_server =
  fixes E :: "('w, 'x) env"
    and crs :: "'w \<Rightarrow> string \<Rightarrow> 'x AthenzDomain option"
  assumes create_ok:
    "client_Create E b opts w = ((res, None), w') \<Longrightarrow>
       crs w (name (objectMeta b)) = None \<and>
       crs w' = (crs w)(name (objectMeta b) \<mapsto> res) \<and> stored_as b res"
    and create_used:
    "crs w (name (objectMeta b)) \<noteq> None \<Longrightarrow> client_Create E b opts w = ((res, e), w') \<Longrightarrow> e \<noteq> None"
    and create_effect:
    "client_Create E b opts w = ((res, e), w') \<Longrightarrow>
       crs w' = crs w \<or>
       (\<exists>o'. stored_as b o' \<and> crs w' = (crs w)(name (objectMeta b) \<mapsto> o'))"
    and create_rejected:
    "client_Create E b opts w = ((res, Some (Status s)), w') \<Longrightarrow> crs w' = crs w"
    and update_ok:
    "client_Update E b opts w = ((res, None), w') \<Longrightarrow>
       (\<exists>old. crs w (name (objectMeta b)) = Some old \<and>
          (resourceVersion (objectMeta b) = [] \<or>
           resourceVersion (objectMeta b) = resourceVersion (objectMeta old))) \<and>
       crs w' = (crs w)(name (objectMeta b) \<mapsto> res) \<and> stored_as b res"
    and update_effect:
    "client_Update E b opts w = ((res, e), w') \<Longrightarrow>
       crs w' = crs w \<or>
       (\<exists>o'. stored_as b o' \<and> crs w' = (crs w)(name (objectMeta b) \<mapsto> o'))"
    and update_rejected:
    "client_Update E b opts w = ((res, Some (Status s)), w') \<Longrightarrow> crs w' = crs w"
    and delete_ok:
    "client_Delete E n opts w = (None, w') \<Longrightarrow> crs w' = (crs w)(n := None)"
    and delete_effect:
    "client_Delete E n opts w = (e, w') \<Longrightarrow> crs w' = crs w \<or> crs w' = (crs w)(n := None)"
    and delete_rejected:
    "client_Delete E n opts w = (Some (Status s), w') \<Longrightarrow> crs w' = crs w"
    and zms_frame: "zms_GetSignedDomains E z1 z2 z3 z4 z5 z6 w = (zr, w') \<Longrightarrow> crs w' = crs w"
    and queue_frame: "crs (q_AddRateLimited E x w) = crs w"

section \<open>The laws of the informer caches\<close>

text \<open>
  An indexer answers \<^verbatim>\<open>ByIndex\<close> for an index function it was given with the stored
  objects whose index values contain the one asked for.  \<open>index\<close> is the function of the
  index \<open>key\<close>.
\<close>

locale cr_indexer =
  fixes E :: "('w, 'x) env"
    and key :: string
    and index :: "'x obj \<Rightarrow> string list"
  assumes by_index: "\<exists>os. cr_ByIndex E w key v = (os, None) \<and>
      set os = {x \<in> set (cr_List E w). v \<in> set (index x)}"

section \<open>The laws of the work queue\<close>

text \<open>
  The queue was created with a rate limiter, read by \<open>limiter_of\<close>: adding an item
  rate-limited asks the limiter for its delay at the clock reading \<open>clock\<close>, and the requeue
  counter and \<^verbatim>\<open>Forget\<close> are those of the limiter.
\<close>

locale limited_queue =
  fixes E :: "('w, 'x) env"
    and when' :: "int \<Rightarrow> string \<Rightarrow> 'r \<Rightarrow> int \<times> 'r"
    and forget :: "string \<Rightarrow> 'r \<Rightarrow> 'r"
    and requeues :: "string \<Rightarrow> 'r \<Rightarrow> int"
    and limiter_of :: "'w \<Rightarrow> 'r"
    and clock :: "'w \<Rightarrow> int"
  assumes add_limited: "limiter_of (q_AddRateLimited E x w) = snd (when' (clock w) x (limiter_of w))"
    and forget_limited: "limiter_of (q_Forget E (KeyString x) w) = forget x (limiter_of w)"
    and num_limited: "q_NumRequeues E x w = requeues x (limiter_of w)"
    and done_limited: "limiter_of (q_Done E k w) = limiter_of w"

end
