(* ===== verification/Go_Time.thy ===== *)
theory Go_Time
  imports Prelude
begin

text \<open>
  What the controller uses of Go's package \<^verbatim>\<open>time\<close> to print a time: the civil date
  of an instant in UTC and the layout \<^verbatim>\<open>time.RFC3339\<close>.  A time is the number of
  nanoseconds since the Unix epoch.  The date is computed as the package does it, by cycles of
  400, 100, 4 and 1 years from 1 January of year 1.  The lemmas show that printing forgets
  the fraction of a second and nothing else.
\<close>

section \<open>Numbers\<close>

fun digits :: "nat \<Rightarrow> string" where
  "digits n = (if n < 10 then [] else digits (n div 10)) @ [char_of (48 + n mod 10)]"

declare digits.simps [simp del]

definition pad :: "nat \<Rightarrow> nat \<Rightarrow> string" where
  "pad w n = replicate (w - length (digits n)) CHR ''0'' @ digits n"

definition pad_int :: "nat \<Rightarrow> int \<Rightarrow> string" where
  \<comment> \<open>\<open>appendInt\<close>: a minus sign, then the zero-padded magnitude\<close>
  "pad_int w i = (if i < 0 then ''-'' else []) @ pad w (nat \<bar>i\<bar>)"

definition is_digit :: "char \<Rightarrow> bool" where
  "is_digit c \<longleftrightarrow> 48 \<le> (of_char c :: nat) \<and> (of_char c :: nat) \<le> 57"

definition num_of :: "string \<Rightarrow> nat" where
  "num_of s = foldl (\<lambda>a c. 10 * a + (of_char c - 48)) 0 s"

lemma of_char_digit: "n < 10 \<Longrightarrow> of_char (char_of (48 + n) :: char) = (48 + n :: nat)"
  by simp

lemma digits_are_digits: "c \<in> set (digits n) \<Longrightarrow> is_digit c"
proof (induction n rule: digits.induct)
  case (1 n)
  then show ?case
    by (subst (asm) (2) digits.simps) (auto simp: is_digit_def split: if_splits)
qed

lemma num_of_snoc: "num_of (s @ [c]) = 10 * num_of s + (of_char c - 48)"
  by (simp add: num_of_def)

lemma num_of_digits: "num_of (digits n) = n"
proof (induction n rule: digits.induct)
  case (1 n)
  have "num_of (if n < 10 then [] else digits (n div 10)) = n div 10"
    using 1 by (simp add: num_of_def)
  then show ?case
    by (subst digits.simps) (simp only: num_of_snoc, simp)
qed

lemma num_of_pad: "num_of (pad w n) = n"
proof -
  have "num_of (replicate k CHR ''0'' @ s) = num_of s" for k s
    by (induction k) (simp_all add: num_of_def)
  then show ?thesis
    by (simp add: pad_def num_of_digits)
qed

lemma pad_are_digits: "c \<in> set (pad w n) \<Longrightarrow> is_digit c"
  by (auto simp: pad_def dest: digits_are_digits) (simp add: is_digit_def)

lemma pad_inject [simp]: "pad w m = pad w n \<longleftrightarrow> m = n"
  using num_of_pad by metis

lemma pad_split:
  assumes "\<not> is_digit c"
  shows "pad w m @ c # s = pad w n @ c # t \<longleftrightarrow> m = n \<and> s = t"
proof
  assume eq: "pad w m @ c # s = pad w n @ c # t"
  have tw: "takeWhile is_digit (pad w k @ c # r) = pad w k" for k r
    using assms by (subst takeWhile_append2) (auto dest: pad_are_digits)
  from tw [of m s] tw [of n t] eq have "pad w m = pad w n"
    by simp
  with eq show "m = n \<and> s = t" by simp
qed simp

section \<open>Civil dates\<close>

definition is_leap :: "int \<Rightarrow> bool" where
  "is_leap y \<longleftrightarrow> y mod 4 = 0 \<and> (y mod 100 \<noteq> 0 \<or> y mod 400 = 0)"

definition year_yday :: "int \<Rightarrow> int \<times> int" where
  \<comment> \<open>from the number of days since 1 January of year 1\<close>
  "year_yday n =
     (let n400 = n div 146097; d = n mod 146097;
          n100 = d div 36524 - d div 36524 div 4; d = d - 36524 * n100;
          n4 = d div 1461; d = d - 1461 * n4;
          n1 = d div 365 - d div 365 div 4; d = d - 365 * n1
      in (400 * n400 + 100 * n100 + 4 * n4 + n1 + 1, d))"

definition daysBefore :: "int list" where
  "daysBefore = [0, 31, 59, 90, 120, 151, 181, 212, 243, 273, 304, 334, 365]"

definition month_day :: "bool \<Rightarrow> int \<Rightarrow> int \<times> int" where
  "month_day leap yday =
     (if leap \<and> yday = 31 + 29 - 1 then (2, 29)
      else let day = (if leap \<and> yday > 31 + 29 - 1 then yday - 1 else yday);
               month = day div 31; end' = daysBefore ! nat (month + 1)
           in if end' \<le> day then (month + 2, day - end' + 1)
              else (month + 1, day - daysBefore ! nat month + 1))"

definition yday_of :: "bool \<Rightarrow> int \<times> int \<Rightarrow> int" where
  "yday_of leap md =
     (case md of (m, d) \<Rightarrow>
        daysBefore ! nat (m - 1) + (if leap \<and> 2 < m then 1 else 0) + d - 1)"

lemma daysBefore_le:
  assumes "0 \<le> i" "i \<le> 12"
  shows "daysBefore ! nat i \<le> 31 * i"
proof -
  have "\<forall>k < 13. daysBefore ! k \<le> 31 * int k"
    by (simp add: daysBefore_def All_less_Suc numeral_eq_Suc)
  with assms show ?thesis by (auto dest: spec [where x = "nat i"])
qed

lemma yday_of_month_day:
  assumes "0 \<le> i" "i < 365 \<or> leap \<and> i = 365"
  shows "yday_of leap (month_day leap i) = i"
    and "0 \<le> fst (month_day leap i)" "0 \<le> snd (month_day leap i)"
proof -
  have "yday_of leap (month_day leap i) = i \<and> 0 \<le> fst (month_day leap i) \<and> 0 \<le> snd (month_day leap i)"
  proof (cases "leap \<and> i = 59")
    case True
    then show ?thesis
      by (simp add: month_day_def yday_of_def daysBefore_def)
  next
    case False
    define day where "day = (if leap \<and> i > 59 then i - 1 else i)"
    define m where "m = day div 31"
    have day: "0 \<le> day" "day < 365" and m: "0 \<le> m" "m \<le> 11" "31 * m \<le> day"
      using assms False by (auto simp: day_def m_def split: if_splits)
    have md: "month_day leap i =
        (if daysBefore ! nat (m + 1) \<le> day then (m + 2, day - daysBefore ! nat (m + 1) + 1)
         else (m + 1, day - daysBefore ! nat m + 1))"
      using False by (auto simp: month_day_def Let_def m_def day_def)
    have "daysBefore ! nat m \<le> day"
      using daysBefore_le [of m] m by simp
    moreover have "leap \<Longrightarrow> i > 59 \<Longrightarrow> 1 \<le> m \<and> (m = 1 \<longrightarrow> daysBefore ! nat (m + 1) \<le> day)"
      using False by (auto simp: m_def day_def daysBefore_def)
    moreover have "m = 0 \<or> m = 1 \<and> \<not> daysBefore ! nat (m + 1) \<le> day" if "leap" "\<not> i > 59"
    proof -
      have "i < 59" using that False by linarith
      with that have "m < 2" "m = 1 \<Longrightarrow> \<not> daysBefore ! nat (m + 1) \<le> day"
        by (simp_all add: m_def day_def daysBefore_def)
      with m(1) show ?thesis by linarith
    qed
    ultimately show ?thesis
      unfolding md yday_of_def using m day False
      by (auto simp: day_def algebra_simps split: if_splits)
  qed
  then show "yday_of leap (month_day leap i) = i"
    and "0 \<le> fst (month_day leap i)" "0 \<le> snd (month_day leap i)" by simp_all
qed

text \<open>One step of the cycles: at most three whole periods, and a last day of a fourth one.\<close>

lemma cycle_step:
  assumes "0 \<le> r" "r \<le> 4 * k" "0 < (k :: int)" "n = r div k - r div k div 4"
  shows "0 \<le> n" "n \<le> 3" "0 \<le> r - k * n" "r - k * n < k \<or> n = 3 \<and> r - k * n = k"
proof -
  define q where "q = r div k"
  have r: "r = k * q + r mod k" "0 \<le> r mod k" "r mod k < k"
    using assms by (simp_all add: q_def)
  have "k * q \<le> k * 4" using r assms(2) by linarith
  then have "q \<le> 4" using assms(3) by simp
  moreover have "0 \<le> q" using assms by (simp add: q_def pos_imp_zdiv_nonneg_iff)
  ultimately consider "q = 0" | "q = 1" | "q = 2" | "q = 3" | "q = 4" by linarith
  then have "0 \<le> n \<and> n \<le> 3 \<and> 0 \<le> r - k * n \<and> (r - k * n < k \<or> n = 3 \<and> r - k * n = k)"
    using assms(2,4) r by cases (simp_all flip: q_def)
  then show "0 \<le> n" "n \<le> 3" "0 \<le> r - k * n" "r - k * n < k \<or> n = 3 \<and> r - k * n = k"
    by simp_all
qed

lemma leap_cycle:
  assumes "y = 400 * a + 100 * b + 4 * c + 3 + 1" "0 \<le> b" "b \<le> 3" "0 \<le> c" "c \<le> 24"
    "c \<noteq> 24 \<or> b = (3 :: int)"
  shows "is_leap y"
proof -
  have "y = 4 * (100 * a + 25 * b + c + 1)"
    using assms(1) by simp
  then have four: "y mod 4 = 0" by simp
  show ?thesis
  proof (cases "c = 24")
    case True
    with assms have "y = 400 * (a + 1)" by simp
    then show ?thesis by (simp add: is_leap_def)
  next
    case False
    have "y mod 100 = (4 * c + 4 + (4 * a + b) * 100) mod 100"
      using assms(1) by (simp add: algebra_simps)
    also have "\<dots> = 4 * c + 4"
      using False assms(4,5) by (simp only: mod_mult_self1) simp
    finally show ?thesis
      using four assms(4) by (simp add: is_leap_def)
  qed
qed

lemma year_yday_days:
  assumes "year_yday n = (y, d)"
  shows "n = 365 * (y - 1) + (y - 1) div 4 - (y - 1) div 100 + (y - 1) div 400 + d"
    and "0 \<le> d" "d < 365 \<or> is_leap y \<and> d = 365"
proof -
  define n400 r where n400: "n400 = n div 146097" and r: "r = n mod 146097"
  define n100 where n100: "n100 = r div 36524 - r div 36524 div 4"
  define r1 where r1: "r1 = r - 36524 * n100"
  define n4 where n4: "n4 = r1 div 1461"
  define r2 where r2: "r2 = r1 - 1461 * n4"
  define n1 where n1: "n1 = r2 div 365 - r2 div 365 div 4"
  have yd: "y = 400 * n400 + 100 * n100 + 4 * n4 + n1 + 1" "d = r2 - 365 * n1"
    using assms unfolding year_yday_def Let_def prod.inject
    by (simp_all only: n400 [symmetric] r [symmetric] n100 [symmetric] r1 [symmetric]
        n4 [symmetric] r2 [symmetric] n1 [symmetric])
  have b: "0 \<le> r" "r < 146097" "n = 146097 * n400 + r"
    unfolding n400 r by simp_all
  have c: "0 \<le> n100" "n100 \<le> 3" "0 \<le> r1" "r1 < 36524 \<or> n100 = 3 \<and> r1 = 36524"
    unfolding r1 using cycle_step [OF b(1) _ _ n100] b(2) by simp_all
  have e: "0 \<le> r2" "r2 < 1461" "r2 = r1 mod 1461"
    by (simp_all add: r2 n4 minus_mult_div_eq_mod)
  have e': "0 \<le> n4" "n4 \<le> 24" "n4 = 24 \<longrightarrow> n100 < 3 \<longrightarrow> r2 < 1460"
    using c e(1,2) r2 by linarith+
  have f: "0 \<le> n1" "n1 \<le> 3" "0 \<le> d" "d < 365 \<or> n1 = 3 \<and> d = 365"
    unfolding yd(2) using cycle_step [OF e(1) _ _ n1] e(2) by simp_all
  have q: "(y - 1) div 4 = 100 * n400 + 25 * n100 + n4" "(y - 1) div 100 = 4 * n400 + n100"
    "(y - 1) div 400 = n400"
    using yd(1) c(1,2) e'(1,2) f(1,2)
    by (intro int_div_pos_eq [where r = n1] int_div_pos_eq [where r = "4 * n4 + n1"]
        int_div_pos_eq [where r = "100 * n100 + 4 * n4 + n1"]; simp)+
  show "n = 365 * (y - 1) + (y - 1) div 4 - (y - 1) div 100 + (y - 1) div 400 + d"
    unfolding q using yd b(3) r1 r2 by (simp add: algebra_simps)
  show "0 \<le> d" by (rule f)
  show "d < 365 \<or> is_leap y \<and> d = 365"
  proof (cases "d < 365")
    case False
    then have n1: "n1 = 3" and d: "d = 365" using f by auto
    then have "r2 = 1460" using yd(2) by simp
    then have "n4 \<noteq> 24 \<or> n100 = 3" using e' c by linarith
    then have "is_leap y"
      using yd(1) n1 c(1,2) e'(1,2) by (intro leap_cycle [of y n400 n100 n4]) simp_all
    with d show ?thesis by simp
  qed simp
qed

section \<open>The layout RFC3339\<close>

definition civil :: "int \<Rightarrow> int \<times> int \<times> int" where
  \<comment> \<open>the date of a number of days since the Unix epoch\<close>
  "civil days =
     (case year_yday (days + 719162) of (y, yd) \<Rightarrow>
        (case month_day (is_leap y) yd of (m, d) \<Rightarrow> (y, m, d)))"

definition format_seconds :: "int \<Rightarrow> string" where
  "format_seconds secs =
     (let days = secs div 86400; sod = secs mod 86400
      in case civil days of (y, m, d) \<Rightarrow>
           pad_int 4 y @ ''-'' @ pad_int 2 m @ ''-'' @ pad_int 2 d @ ''T'' @
           pad_int 2 (sod div 3600) @ '':'' @ pad_int 2 (sod mod 3600 div 60) @ '':'' @
           pad_int 2 (sod mod 60) @ ''Z'')"

definition format_RFC3339 :: "int \<Rightarrow> string" where
  \<comment> \<open>\<open>t.Format(time.RFC3339)\<close> of a UTC time: the layout has no fraction of a second\<close>
  "format_RFC3339 t = format_seconds (t div 10 ^ 9)"

lemma civil_inject:
  assumes "civil a = civil b"
  shows "a = b"
proof -
  obtain y d where ya: "year_yday (a + 719162) = (y, d)" by fastforce
  obtain y' d' where yb: "year_yday (b + 719162) = (y', d')" by fastforce
  from assms ya yb have y: "y = y'" and md: "month_day (is_leap y) d = month_day (is_leap y) d'"
    by (auto simp: civil_def split: prod.splits)
  have "d = d'"
    using year_yday_days [OF ya] year_yday_days [OF yb] y md
    by (metis yday_of_month_day(1))
  with y show ?thesis
    using year_yday_days(1) [OF ya] year_yday_days(1) [OF yb] by simp
qed

lemma civil_nonneg:
  assumes "0 \<le> days" "civil days = (y, m, d)"
  shows "0 \<le> y" "0 \<le> m" "0 \<le> d"
proof -
  obtain yd where yy: "year_yday (days + 719162) = (y, yd)"
    and md: "month_day (is_leap y) yd = (m, d)"
    using assms(2) by (auto simp: civil_def split: prod.splits)
  show "0 \<le> m" "0 \<le> d"
    using yday_of_month_day(2,3) [OF year_yday_days(2,3) [OF yy]] md by simp_all
  show "0 \<le> y"
  proof (rule ccontr)
    assume "\<not> 0 \<le> y"
    then have "(y - 1) div 4 \<le> 0" "(y - 1) div 400 \<le> 0" "y - 1 \<le> (y - 1) div 100"
      by linarith+
    moreover have "yd \<le> 365" using year_yday_days(3) [OF yy] by auto
    moreover have "365 * z + A - C + B + yd < 719162"
      if "A \<le> 0" "B \<le> 0" "z \<le> C" "z < 0" for z A B C
      using that \<open>yd \<le> 365\<close> by linarith
    ultimately show False
      using year_yday_days(1) [OF yy] assms(1) \<open>\<not> 0 \<le> y\<close>
      by fastforce
  qed
qed

lemma not_digits [simp]:
  "\<not> is_digit CHR ''-''" "\<not> is_digit CHR ''T''" "\<not> is_digit CHR '':''" "\<not> is_digit CHR ''Z''"
  by (simp_all add: is_digit_def)

lemma pad_int_nonneg [simp]: "0 \<le> i \<Longrightarrow> pad_int w i = pad w (nat i)"
  by (simp add: pad_int_def)

lemma format_seconds_inject:
  assumes "0 \<le> a" "0 \<le> b" "format_seconds a = format_seconds b"
  shows "a = b"
proof -
  obtain y m d where ca: "civil (a div 86400) = (y, m, d)" by (cases "civil (a div 86400)")
  obtain y' m' d' where cb: "civil (b div 86400) = (y', m', d')" by (cases "civil (b div 86400)")
  have pos: "0 \<le> y" "0 \<le> m" "0 \<le> d" "0 \<le> y'" "0 \<le> m'" "0 \<le> d'"
    using civil_nonneg [OF _ ca] civil_nonneg [OF _ cb] assms(1,2) by simp_all
  define u v where uv: "u = a mod 86400" "v = b mod 86400"
  have uv0: "0 \<le> u" "0 \<le> v" by (simp_all add: uv)
  have same: "y = y'" "m = m'" "d = d'" "u div 3600 = v div 3600"
      "u mod 3600 div 60 = v mod 3600 div 60" "u mod 60 = v mod 60"
    using assms(3) pos uv0
    by (simp_all add: format_seconds_def Let_def ca cb pad_split pos_imp_zdiv_nonneg_iff
        eq_nat_nat_iff flip: uv)
  have "a div 86400 = b div 86400"
    using ca cb same by (intro civil_inject) simp
  moreover have "x = 3600 * (x div 3600) + 60 * (x mod 3600 div 60) + x mod 60" for x :: int
  proof -
    have "x mod 3600 mod 60 = x mod 60" by (rule mod_mod_cancel) simp
    then show ?thesis
      using div_mult_mod_eq [of x 3600] div_mult_mod_eq [of "x mod 3600" 60] by linarith
  qed
  then have "u = v"
    using same by metis
  ultimately show ?thesis
    unfolding uv by (metis div_mult_mod_eq)
qed

text \<open>Two instants after the epoch print alike exactly when they lie in the same second.\<close>

lemma format_RFC3339_inject:
  assumes "0 \<le> t" "0 \<le> u"
  shows "format_RFC3339 t = format_RFC3339 u \<longleftrightarrow> t div 10 ^ 9 = u div 10 ^ 9"
  using assms format_seconds_inject [of "t div 10 ^ 9" "u div 10 ^ 9"]
  by (auto simp: format_RFC3339_def)

lemma format_epoch: "format_RFC3339 0 = ''1970-01-01T00:00:00Z''"
proof -
  have "civil 0 = (1970, 1, 1)"
    by (simp add: civil_def year_yday_def month_day_def daysBefore_def Let_def)
  moreover have "pad 4 1970 = ''1970''" "pad 2 1 = ''01''" "pad 2 0 = ''00''"
    by (simp_all add: pad_def digits.simps [of 1970] digits.simps [of 197] digits.simps [of 19]
        digits.simps [of 1, simplified] digits.simps [of 0] char_of_def bit_0)
  ultimately show ?thesis
    by (simp add: format_RFC3339_def format_seconds_def)
qed

end
