(* ===== verification/CR.thy ===== *)
theory CR
  imports Environment Go_Time
begin

text \<open>
  The component \<^verbatim>\<open>pkg/cr\<close>: creating, updating and removing AthenzDomain custom
  resources, reading them from the informer cache, the latest modification time, and the index
  of trust domains.  A function that writes takes and returns the world; a panic keeps the
  world as it was when it was raised.
\<close>

section \<open>Model\<close>

definition trustDomainIndexKey :: string where
  "trustDomainIndexKey = ''trustDomain''"

definition GetCRByName :: "('w, 'x) env \<Rightarrow> string \<Rightarrow> 'w \<Rightarrow> 'x AthenzDomain option \<times> bool \<times> err option" where
  "GetCRByName E dn w =
     (let (object, _) = cr_GetByKey E w dn
      in case object of
           None \<Rightarrow> (None, False, None)
         | Some ob \<Rightarrow>
             (case as_AthenzDomain ob of
                None \<Rightarrow> (None, True, Some (Plain ''Error occurred when casting AthenzDomain object''))
              | Some p \<Rightarrow> (p, True, None)))"

definition clear_signatures :: "'x AthenzDomainSpec option \<Rightarrow> 'x AthenzDomainSpec outcome" where
  \<comment> \<open>the two assignments to \<open>Signature\<close> on a copy\<close>
  "clear_signatures copy =
     bind_outcome (deref copy) (\<lambda>s.
     let sd = (signedDomain s)\<lparr>signature := []\<rparr> in
     bind_outcome (deref (domain sd)) (\<lambda>d.
     bind_outcome (deref (domainPolicies d)) (\<lambda>sp.
     Return (s\<lparr>signedDomain := sd\<lparr>domain := Some (d\<lparr>domainPolicies :=
        Some (sp\<lparr>policiesSignature := []\<rparr>)\<rparr>)\<rparr>\<rparr>))))"

definition updateCR ::
    "('w, 'x) env \<Rightarrow> 'x AthenzDomain option \<Rightarrow> 'x AthenzDomain option \<Rightarrow> 'w \<Rightarrow>
      ('x AthenzDomain option \<times> err option) outcome \<times> 'w" where
  "updateCR E object newCR w =
     (case (object, newCR) of
        (Some obj, Some new) \<Rightarrow>
          (let oldObjCopy = AthenzDomainSpec_DeepCopy (copiers E) (Some (spec obj));
               newObjCopy = AthenzDomainSpec_DeepCopy (copiers E) (Some (spec new))
           in case bind_outcome (clear_signatures oldObjCopy)
                     (\<lambda>o'. bind_outcome (clear_signatures newObjCopy) (\<lambda>n'. Return (o', n'))) of
                Panic p \<Rightarrow> (Panic p, w)
              | Return (o', n') \<Rightarrow>
                  (let eql = (o' = n'); statusEql = (status obj = status new)
                   in if eql \<and> statusEql then (Return (None, None), w)
                      else let new = new\<lparr>objectMeta := (objectMeta new)\<lparr>resourceVersion :=
                                 resourceVersion (objectMeta obj)\<rparr>\<rparr>;
                               ((res, err), w') = client_Update E new [] w
                           in (Return (Some res, err), w')))
      | _ \<Rightarrow> (Return (None, Some (Plain ''one of the domain objects to compare is empty'')), w))"

definition new_cr :: "string \<Rightarrow> 'x SignedDomain \<Rightarrow> 'x AthenzDomain" where
  "new_cr dn sd =
     \<lparr>typeMeta = ([], []),
      objectMeta = \<lparr>name = dn, resourceVersion = [], metaRest = []\<rparr>,
      status = \<lparr>message = []\<rparr>,
      spec = \<lparr>signedDomain = sd\<rparr>\<rparr>"

definition CreateUpdateAthenzDomain ::
    "('w, 'x) env \<Rightarrow> string \<Rightarrow> 'x SignedDomain option \<Rightarrow> 'w \<Rightarrow>
      ('x AthenzDomain option \<times> err option) outcome \<times> 'w" where
  "CreateUpdateAthenzDomain E dn domainData w =
     (case domainData of
        None \<Rightarrow> (Return (None, Some (Plain ''Domain data from ZMS API call is nil'')), w)
      | Some sd \<Rightarrow>
          (let newCR = new_cr dn sd; (obj, exist, err) = GetCRByName E dn w
           in case err of
                Some e \<Rightarrow>
                  (Return (None, Some (Wrapped ''Did not find key in store. Error while looking up for key'' e)), w)
              | None \<Rightarrow>
                  (if \<not> exist
                   then let ((cr, err), w') = client_Create E newCR [] w
                        in (case err of
                              None \<Rightarrow> (Return (Some cr, None), w')
                            | Some e \<Rightarrow>
                                (if \<not> IsAlreadyExists e
                                 then (Return (None, Some (Wrapped ''Failed to create new AthenzDomain CR'' e)), w')
                                 else updateCR E obj (Some newCR) w'))
                   else updateCR E obj (Some newCR) w)))"

definition RemoveAthenzDomain :: "('w, 'x) env \<Rightarrow> string \<Rightarrow> 'w \<Rightarrow> err option \<times> 'w" where
  "RemoveAthenzDomain E dn w =
     (let (obj, exist, err) = GetCRByName E dn w
      in case err of
           Some e \<Rightarrow> (Some e, w)
         | None \<Rightarrow>
             (if exist \<and> obj \<noteq> None
              then let (err, w') = client_Delete E dn [] w
                   in (case err of Some e \<Rightarrow> (Some e, w') | None \<Rightarrow> (None, w'))
              else (None, w)))"

text \<open>
  The scan for the latest modification time.  The inner option is \<^term>\<open>None\<close> when an object
  of another type makes the function return the empty string at once.
\<close>

fun scan_latest :: "'x obj list \<Rightarrow> int \<Rightarrow> int option outcome" where
  "scan_latest [] latest = Return (Some latest)"
| "scan_latest (ob # obs) latest =
     (case as_AthenzDomain ob of
        None \<Rightarrow> Return None
      | Some cr \<Rightarrow>
          bind_outcome (deref cr) (\<lambda>c.
          bind_outcome (deref (domain (signedDomain (spec c)))) (\<lambda>d.
          scan_latest obs (if latest < modified d then modified d else latest))))"

definition GetLatestTimestamp :: "('w, 'x) env \<Rightarrow> 'w \<Rightarrow> string outcome" where
  "GetLatestTimestamp E w =
     (let crs = cr_List E w
      in if length crs = 0 then Return []
         else bind_outcome (scan_latest crs 0) (\<lambda>r.
           case r of
             None \<Rightarrow> Return []
           | Some latest \<Rightarrow>
               let timestr = format_RFC3339 latest
               in if timestr = ''1970-01-01T00:00:00Z'' then Return [] else Return timestr))"

definition IsTrustDomain :: "('w, 'x) env \<Rightarrow> string \<Rightarrow> 'w \<Rightarrow> bool" where
  "IsTrustDomain E dn w =
     (let (delegatedList, err) = cr_ByIndex E w trustDomainIndexKey dn
      in case err of
           Some _ \<Rightarrow> False
         | None \<Rightarrow> (if length delegatedList = 0 then False else True))"

fun collect_trusts :: "'x Role option list \<Rightarrow> string list \<Rightarrow> string list outcome" where
  "collect_trusts [] acc = Return acc"
| "collect_trusts (role # rest) acc =
     bind_outcome (deref role) (\<lambda>r.
       collect_trusts rest (if roleTrust r \<noteq> [] then acc @ [roleTrust r] else acc))"

definition trusts_of :: "'x AthenzDomain option \<Rightarrow> (string list \<times> err option) outcome" where
  \<comment> \<open>the part of \<open>TrustDomainIndexFunc\<close> after the type assertions\<close>
  "trusts_of dom' =
     bind_outcome (deref dom') (\<lambda>c.
       case domain (signedDomain (spec c)) of
         None \<Rightarrow> Return ([], None)
       | Some d \<Rightarrow>
           bind_outcome (collect_trusts (elems (roles d)) []) (\<lambda>ts. Return (ts, None)))"

definition TrustDomainIndexFunc :: "'x obj \<Rightarrow> (string list \<times> err option) outcome" where
  "TrustDomainIndexFunc ob =
     (case as_AthenzDomain ob of
        Some p \<Rightarrow> trusts_of p
      | None \<Rightarrow>
          (case ob of
             ObjTombstone k inner \<Rightarrow>
               (case as_AthenzDomain inner of
                  None \<Rightarrow> Return ([], None)
                | Some p \<Rightarrow> trusts_of p)
           | _ \<Rightarrow> Return ([], None)))"

definition UpdateErrorStatus :: "('w, 'x) env \<Rightarrow> 'x AthenzDomain \<Rightarrow> 'w \<Rightarrow> 'w" where
  "UpdateErrorStatus E obj w = snd (client_Update E obj [] w)"

lemmas [env_defs] =
  updateCR_def CreateUpdateAthenzDomain_def RemoveAthenzDomain_def UpdateErrorStatus_def

section \<open>The cache view\<close>

text \<open>What the cache says about a domain, in the three ways \<^verbatim>\<open>GetCRByName\<close> reports it.\<close>

lemma GetCRByName_absent:
  "fst (cr_GetByKey E w dn) = None \<Longrightarrow> GetCRByName E dn w = (None, False, None)"
  by (simp add: GetCRByName_def split_beta)

lemma GetCRByName_present:
  "fst (cr_GetByKey E w dn) = Some (ObjAthenzDomain p) \<Longrightarrow> GetCRByName E dn w = (p, True, None)"
  by (simp add: GetCRByName_def split_beta)

lemma GetCRByName_cases:
  obtains (absent) "GetCRByName E dn w = (None, False, None)"
  | (present) p where "GetCRByName E dn w = (p, True, None)"
  | (foreign) e where "GetCRByName E dn w = (None, True, Some e)"
proof (cases "fst (cr_GetByKey E w dn)")
  case None
  then show ?thesis by (intro that(1) GetCRByName_absent)
next
  case (Some ob)
  then show ?thesis
    using that(2,3) by (cases "as_AthenzDomain ob") (simp_all add: GetCRByName_def split_beta)
qed

section \<open>Comparing specs\<close>

text \<open>
  The comparison of an update looks at everything but the two signatures.  \<open>unsigned\<close> is the
  spec with the signatures removed, defined where the pointers on the way are set.
\<close>

definition comparable :: "'x AthenzDomainSpec \<Rightarrow> bool" where
  "comparable s \<longleftrightarrow>
     (case domain (signedDomain s) of None \<Rightarrow> False | Some d \<Rightarrow> domainPolicies d \<noteq> None)"

definition unsigned :: "'x AthenzDomainSpec \<Rightarrow> 'x AthenzDomainSpec" where
  "unsigned s = s\<lparr>signedDomain := (signedDomain s)\<lparr>signature := [],
     domain := map_option (\<lambda>d. d\<lparr>domainPolicies :=
       map_option (\<lambda>sp. sp\<lparr>policiesSignature := []\<rparr>) (domainPolicies d)\<rparr>)
         (domain (signedDomain s))\<rparr>\<rparr>"

lemma clear_signatures_eq:
  "clear_signatures (Some s) = (if comparable s then Return (unsigned s) else Panic NilDereference)"
  by (cases "domain (signedDomain s)"; cases "map_option domainPolicies (domain (signedDomain s))")
    (auto simp: clear_signatures_def comparable_def unsigned_def split: option.split)

lemma unsigned_idem [simp]: "unsigned (unsigned s) = unsigned s"
  by (simp add: unsigned_def option.map_comp comp_def)

definition up_to_date :: "'x AthenzDomain \<Rightarrow> 'x AthenzDomain \<Rightarrow> bool" where
  "up_to_date obj new \<longleftrightarrow> unsigned (spec obj) = unsigned (spec new) \<and> status obj = status new"

abbreviation with_version :: "'x AthenzDomain \<Rightarrow> 'x AthenzDomain \<Rightarrow> 'x AthenzDomain" where
  "with_version obj new \<equiv>
     new\<lparr>objectMeta := (objectMeta new)\<lparr>resourceVersion := resourceVersion (objectMeta obj)\<rparr>\<rparr>"

lemma updateCR_eq:
  assumes "faithful_copiers (copiers E)"
  shows "updateCR E (Some obj) (Some new) w =
    (if \<not> comparable (spec obj) \<or> \<not> comparable (spec new) then (Panic NilDereference, w)
     else if up_to_date obj new then (Return (None, None), w)
     else let ((res, err), w') = client_Update E (with_version obj new) [] w
          in (Return (Some res, err), w'))"
  by (simp add: updateCR_def AthenzDomainSpec_DeepCopy_def faithful_copiersD [OF assms]
      clear_signatures_eq up_to_date_def Let_def)

lemma updateCR_nil:
  "updateCR E None new w =
     (Return (None, Some (Plain ''one of the domain objects to compare is empty'')), w)"
  "updateCR E obj None w =
     (Return (None, Some (Plain ''one of the domain objects to compare is empty'')), w)"
  by (simp_all add: updateCR_def split: option.split)

lemma new_cr_simps [simp]:
  "name (objectMeta (new_cr dn sd)) = dn"
  "resourceVersion (objectMeta (new_cr dn sd)) = []"
  "signedDomain (spec (new_cr dn sd)) = sd"
  "spec (new_cr dn sd) = \<lparr>signedDomain = sd\<rparr>"
  "message (status (new_cr dn sd)) = []"
  by (simp_all add: new_cr_def)

section \<open>Effects on the API server\<close>

text \<open>
  The cache agrees with the server about a domain: what a caught-up informer shows.
\<close>

definition cache_current ::
    "('w, 'x) env \<Rightarrow> ('w \<Rightarrow> string \<Rightarrow> 'x AthenzDomain option) \<Rightarrow> 'w \<Rightarrow> string \<Rightarrow> bool" where
  "cache_current E crs w dn \<longleftrightarrow>
     cr_GetByKey E w dn = (map_option (\<lambda>c. ObjAthenzDomain (Some c)) (crs w dn), None)"

lemma GetCRByName_current:
  "cache_current E crs w dn \<Longrightarrow>
     GetCRByName E dn w = (crs w dn, crs w dn \<noteq> None, None)"
  by (cases "crs w dn") (simp_all add: cache_current_def GetCRByName_def)

text \<open>
  What a call may have done to the server when it wrote the spec of an object under a name:
  nothing, or stored an object with that spec there.
\<close>

definition may_store ::
    "(string \<Rightarrow> 'x AthenzDomain option) \<Rightarrow> string \<Rightarrow> 'x SignedDomain set \<Rightarrow>
      (string \<Rightarrow> 'x AthenzDomain option) \<Rightarrow> bool" where
  "may_store m n S m' \<longleftrightarrow>
     m' = m \<or> (\<exists>c. signedDomain (spec c) \<in> S \<and> message (status c) = [] \<and> m' = m(n \<mapsto> c))"

lemma may_store_refl [intro]: "may_store m n S m"
  by (simp add: may_store_def)

lemma may_store_trans [trans]: "may_store m n S m' \<Longrightarrow> may_store m' n S m'' \<Longrightarrow> may_store m n S m''"
  by (auto simp: may_store_def)

lemma may_store_mono: "may_store m n S m' \<Longrightarrow> S \<subseteq> T \<Longrightarrow> may_store m n T m'"
  by (auto simp: may_store_def)

lemma may_store_other: "may_store m n S m' \<Longrightarrow> k \<noteq> n \<Longrightarrow> m' k = m k"
  by (auto simp: may_store_def)

lemma stored_may_store:
  assumes "stored_as b c" "message (status b) = []"
  shows "may_store m n {signedDomain (spec b)} (m(n \<mapsto> c))"
  using assms unfolding may_store_def stored_as_def by (intro disjI2 exI [of _ c]) simp

context domain_server begin

lemma updateCR_effect:
  assumes "updateCR E obj (Some new) w = (r, w')" "message (status new) = []"
  shows "may_store (crs w) (name (objectMeta new)) {signedDomain (spec new)} (crs w')"
proof -
  have "w' = w \<or> (\<exists>o' res err. client_Update E (with_version o' new) [] w = ((res, err), w'))"
    using assms(1)
    by (auto simp: updateCR_def Let_def split: option.splits outcome.splits if_splits prod.splits)
  moreover have "may_store (crs w) (name (objectMeta new)) {signedDomain (spec new)} (crs w')"
    if "client_Update E (with_version o' new) [] w = ((res, err), w')" for o' res err
    using update_effect [OF that] stored_may_store [of "with_version o' new"] assms(2) by fastforce
  ultimately show ?thesis by auto
qed

lemma updateCR_written:
  assumes "updateCR E obj (Some new) w = (Return (Some cr, None), w')"
  shows "crs w' (name (objectMeta new)) = Some cr \<and> spec cr = spec new \<and> status cr = status new"
proof -
  obtain o' where "client_Update E (with_version o' new) [] w = ((cr, None), w')"
    using assms
    by (auto simp: updateCR_def Let_def split: option.splits outcome.splits if_splits prod.splits)
  then show ?thesis
    by (auto dest!: update_ok simp: stored_as_def)
qed

lemma createUpdate_effect:
  assumes "CreateUpdateAthenzDomain E dn (Some sd) w = (r, w')"
  shows "may_store (crs w) dn {sd} (crs w')"
proof (cases rule: GetCRByName_cases [of E dn w])
  case absent
  obtain cr err w1 where c: "client_Create E (new_cr dn sd) [] w = ((cr, err), w1)"
    by (metis prod.exhaust)
  have "may_store (crs w) dn {sd} (crs w1)"
    using create_effect [OF c] stored_may_store [of "new_cr dn sd"] by fastforce
  moreover have "w' = w1"
    using assms(1) absent c
    by (auto simp: CreateUpdateAthenzDomain_def updateCR_nil split: option.splits if_splits)
  ultimately show ?thesis by simp
next
  case (present p)
  with assms show ?thesis
    using updateCR_effect [of p "new_cr dn sd" w r w'] by (simp add: CreateUpdateAthenzDomain_def)
qed (use assms in \<open>auto simp: CreateUpdateAthenzDomain_def\<close>)

lemma createUpdate_written:
  assumes "CreateUpdateAthenzDomain E dn (Some sd) w = (Return (Some cr, None), w')"
  shows "crs w' dn = Some cr \<and> signedDomain (spec cr) = sd \<and> message (status cr) = []"
proof (cases rule: GetCRByName_cases [of E dn w])
  case absent
  then have "client_Create E (new_cr dn sd) [] w = ((cr, None), w')"
    using assms
    by (auto simp: CreateUpdateAthenzDomain_def updateCR_nil Let_def
        split: option.splits if_splits prod.splits)
  from create_ok [OF this] show ?thesis
    by (simp add: stored_as_def)
next
  case (present p)
  with assms have "updateCR E p (Some (new_cr dn sd)) w = (Return (Some cr, None), w')"
    by (simp add: CreateUpdateAthenzDomain_def)
  from updateCR_written [OF this] show ?thesis by simp
qed (use assms in \<open>simp add: CreateUpdateAthenzDomain_def\<close>)

lemma remove_effect:
  assumes "RemoveAthenzDomain E dn w = (e, w')"
  shows "crs w' = crs w \<or> crs w' = (crs w)(dn := None)"
proof -
  have "w' = w \<or> (\<exists>e'. client_Delete E dn [] w = (e', w'))"
    using assms(1)
    by (auto simp: RemoveAthenzDomain_def Let_def split: option.splits if_splits prod.splits)
  then show ?thesis
    by (blast dest: delete_effect)
qed

lemma remove_gone:
  assumes "RemoveAthenzDomain E dn w = (None, w')" "cache_current E crs w dn"
  shows "crs w' = (crs w)(dn := None)"
proof (cases "crs w dn")
  case None
  with assms show ?thesis
    by (auto simp: RemoveAthenzDomain_def GetCRByName_current)
next
  case (Some c)
  with assms have "client_Delete E dn [] w = (None, w')"
    by (auto simp: RemoveAthenzDomain_def GetCRByName_current split: option.splits prod.splits)
  then show ?thesis by (rule delete_ok)
qed

end

section \<open>Latest modification time\<close>

text \<open>The modification times of a store that holds AthenzDomain objects with data only.\<close>

fun mtimes :: "'x obj list \<Rightarrow> int list option" where
  "mtimes [] = Some []"
| "mtimes (ob # obs) =
     (case ob of
        ObjAthenzDomain (Some c) \<Rightarrow>
          (case (domain (signedDomain (spec c)), mtimes obs) of
             (Some d, Some ts) \<Rightarrow> Some (modified d # ts) | _ \<Rightarrow> None)
      | _ \<Rightarrow> None)"

lemma scan_latest_mtimes:
  "mtimes obs = Some ts \<Longrightarrow> scan_latest obs latest = Return (Some (fold max ts latest))"
proof (induction obs arbitrary: ts latest)
  case (Cons ob obs)
  then show ?case
    by (auto split: obj.splits option.splits simp: max_def)
qed simp

lemma mtimes_Nil [simp]: "mtimes obs = Some [] \<longleftrightarrow> obs = []"
  by (cases obs) (auto split: obj.splits option.splits)

lemma GetLatestTimestamp_eq:
  assumes "mtimes (cr_List E w) = Some ts"
  shows "GetLatestTimestamp E w =
    Return (if fold max ts 0 < 10 ^ 9 then [] else format_RFC3339 (fold max ts 0))"
proof -
  have nn: "0 \<le> fold max xs a" if "0 \<le> a" for xs and a :: int
    using that by (induction xs arbitrary: a) auto
  have "format_RFC3339 m = ''1970-01-01T00:00:00Z'' \<longleftrightarrow> m < 10 ^ 9" if "0 \<le> m" for m
    using format_RFC3339_inject [of m 0] that by (auto simp: format_epoch)
  then show ?thesis
    using nn [of 0 ts] assms by (simp add: GetLatestTimestamp_def scan_latest_mtimes Let_def) auto
qed

section \<open>Trust domains\<close>

definition trust_index :: "'x obj \<Rightarrow> string list" where
  \<comment> \<open>the values under which the indexer files an object\<close>
  "trust_index ob = (case TrustDomainIndexFunc ob of Return (ts, _) \<Rightarrow> ts | Panic _ \<Rightarrow> [])"

lemma collect_trusts_eq:
  "collect_trusts rs acc =
     (if None \<in> set rs then Panic NilDereference
      else Return (acc @ filter (\<lambda>t. t \<noteq> []) (map (\<lambda>r. roleTrust (the r)) rs)))"
proof (induction rs arbitrary: acc)
  case (Cons role rs)
  then show ?case by (cases role) auto
qed simp

definition trusts :: "'x obj \<Rightarrow> string \<Rightarrow> bool" where
  \<comment> \<open>a cached AthenzDomain that delegates some role to a domain\<close>
  "trusts ob dn \<longleftrightarrow>
     (\<exists>c d r. ob = ObjAthenzDomain (Some c) \<and> domain (signedDomain (spec c)) = Some d \<and>
        Some r \<in> set (elems (roles d)) \<and> roleTrust r = dn)"

lemma trusts_list_ex:
  fixes c :: "'x AthenzDomain"
  shows "trusts (ObjAthenzDomain (Some c)) dn \<longleftrightarrow>
     (case domain (signedDomain (spec c)) of
        None \<Rightarrow> False
      | Some d \<Rightarrow> list_ex (\<lambda>p. case p of None \<Rightarrow> False | Some r \<Rightarrow> roleTrust r = dn) (elems (roles d)))"
proof -
  have "(case p of None \<Rightarrow> False | Some r \<Rightarrow> roleTrust r = dn) \<longleftrightarrow> (\<exists>r. p = Some r \<and> roleTrust r = dn)"
    for p :: "'x Role option"
    by (cases p) simp_all
  then show ?thesis
    by (auto simp: trusts_def list_ex_iff split: option.split)
qed

definition indexable :: "'x obj \<Rightarrow> bool" where
  \<comment> \<open>an AthenzDomain without nil roles: what a decoded custom resource is\<close>
  "indexable ob \<longleftrightarrow>
     (\<exists>c. ob = ObjAthenzDomain (Some c) \<and>
        (\<forall>d. domain (signedDomain (spec c)) = Some d \<longrightarrow> None \<notin> set (elems (roles d))))"

lemma trust_index_iff:
  assumes "indexable ob"
  shows "dn \<in> set (trust_index ob) \<longleftrightarrow> dn \<noteq> [] \<and> trusts ob dn"
proof -
  obtain c where c: "ob = ObjAthenzDomain (Some c)"
    using assms by (auto simp: indexable_def)
  show ?thesis
  proof (cases "domain (signedDomain (spec c))")
    case None
    then show ?thesis
      by (simp add: c trust_index_def TrustDomainIndexFunc_def trusts_of_def trusts_def)
  next
    case (Some d)
    then have none: "None \<notin> set (elems (roles d))"
      using assms by (auto simp: c indexable_def)
    have "dn \<in> (\<lambda>r. roleTrust (the r)) ` set (elems (roles d)) \<longleftrightarrow>
        (\<exists>r. Some r \<in> set (elems (roles d)) \<and> roleTrust r = dn)"
      using none by (auto simp: image_iff) (metis option.collapse option.sel)+
    with Some none show ?thesis
      by (auto simp: c trust_index_def TrustDomainIndexFunc_def trusts_of_def trusts_def
          collect_trusts_eq)
  qed
qed

lemma IsTrustDomain_iff:
  assumes "cr_indexer E trustDomainIndexKey trust_index"
    and "list_all indexable (cr_List E w)"
  shows "IsTrustDomain E dn w \<longleftrightarrow> dn \<noteq> [] \<and> (\<exists>ob \<in> set (cr_List E w). trusts ob dn)"
proof -
  obtain os where os: "cr_ByIndex E w trustDomainIndexKey dn = (os, None)"
    and set: "set os = {x \<in> set (cr_List E w). dn \<in> set (trust_index x)}"
    using cr_indexer.by_index [OF assms(1)] by blast
  have "IsTrustDomain E dn w \<longleftrightarrow> set os \<noteq> {}"
    by (simp add: IsTrustDomain_def os)
  then show ?thesis
    using assms(2) by (auto simp: set list_all_iff trust_index_iff)
qed

end
