(* ===== verification/Cron.thy ===== *)
theory Cron
  imports Util CR
begin

text \<open>
  The component \<^verbatim>\<open>pkg/cron\<close>: the update cron, which asks ZMS for the domains
  modified since the last etag, the full resync, the validity check that decides which domains
  are synchronised, and the config map that records the last contact with ZMS.
\<close>

section \<open>Model\<close>

record AthenzContactTimeConfigMap =
  cmNamespace :: string
  cmMapName :: string
  cmKey :: string

record Cron =
  checkInterval :: int
  syncInterval :: int
  etag :: string
  contactTimeCm :: AthenzContactTimeConfigMap

definition NewCron :: "int \<Rightarrow> int \<Rightarrow> string \<Rightarrow> AthenzContactTimeConfigMap \<Rightarrow> Cron" where
  "NewCron check sync' tag cm =
     \<lparr>checkInterval = check, syncInterval = sync', etag = tag, contactTimeCm = cm\<rparr>"

definition SetEtag :: "string \<Rightarrow> Cron \<Rightarrow> Cron" where
  "SetEtag timestamp c = c\<lparr>etag := timestamp\<rparr>"

text \<open>
  The configuration of \<^verbatim>\<open>github.com/cenkalti/backoff\<close>; what its constructor sets is
  an argument, of which three fields are overwritten.
\<close>

record BackOff =
  initialInterval :: int
  multiplier :: int
  maxElapsedTime :: int
  backoffRest :: string

definition getExponentialBackoff :: "BackOff \<Rightarrow> Cron \<Rightarrow> BackOff" where
  "getExponentialBackoff b c =
     b\<lparr>initialInterval := 2 * 10 ^ 9, multiplier := 2, maxElapsedTime := quot (checkInterval c) 2\<rparr>"

definition ValidateDomain :: "('w, 'x) env \<Rightarrow> Util \<Rightarrow> string \<Rightarrow> 'w \<Rightarrow> bool" where
  "ValidateDomain E u d w =
     (let namespace = DomainToNamespace u d; (item, _) = ns_GetByKey E w namespace
      in if item \<noteq> None \<or> IsAdminDomain u d \<or> IsTrustDomain E d w then True else False)"

definition UpdateAthenzContactTime :: "('w, 'x) env \<Rightarrow> Cron \<Rightarrow> string \<Rightarrow> 'w \<Rightarrow> 'w" where
  "UpdateAthenzContactTime E c tag w =
     (let cm = contactTimeCm c;
          configmap = \<lparr>cmName = cmMapName cm, cmData = [cmKey cm \<mapsto> tag]\<rparr>;
          ((configMap, err), w) = cm_Get E (cmNamespace cm) (cmMapName cm) w
      in case err of
           Some e \<Rightarrow>
             (if IsNotFound e then snd (cm_Create E (cmNamespace cm) configmap w)
              else w)
         | None \<Rightarrow>
             (if configMap \<noteq> None then snd (cm_Update E (cmNamespace cm) configmap w) else w))"

fun enqueue_updated ::
    "('w, 'x) env \<Rightarrow> Util \<Rightarrow> 'x SignedDomain option list \<Rightarrow> 'w \<Rightarrow> unit outcome \<times> 'w" where
  \<comment> \<open>the loop over the updated domains in \<open>requestCall\<close>\<close>
  "enqueue_updated E u [] w = (Return (), w)"
| "enqueue_updated E u (sd # sds) w =
     (case bind_outcome (deref sd) (\<lambda>s. deref (domain s)) of
        Panic p \<Rightarrow> (Panic p, w)
      | Return d \<Rightarrow>
          (let valid = ValidateDomain E u (domainName d) w
           in enqueue_updated E u sds
                (if valid then q_AddRateLimited E (domainName d) w else w)))"

definition requestCall ::
    "('w, 'x) env \<Rightarrow> Util \<Rightarrow> Cron \<times> 'w \<Rightarrow> err option outcome \<times> Cron \<times> 'w" where
  "requestCall E u cw =
     (let (c, w) = cw;
          ((doms, tag, err), w) = zms_GetSignedDomains E [] ''true'' [] False False (etag c) w
      in case err of
           Some e \<Rightarrow>
             (Return (Some (Wrapped ''Error getting latest updated domains from ZMS API. Error'' e)), c, w)
         | None \<Rightarrow>
             (let (r, w) = (case doms of
                              None \<Rightarrow> (Return (), w)
                            | Some ds \<Rightarrow>
                                (if 0 < length (elems (domains ds))
                                 then enqueue_updated E u (elems (domains ds)) w
                                 else (Return (), w)))
              in case r of
                   Panic p \<Rightarrow> (Panic p, c, w)
                 | Return _ \<Rightarrow>
                     (if tag \<noteq> []
                      then let c = c\<lparr>etag := tag\<rparr> in (Return None, c, UpdateAthenzContactTime E c tag w)
                      else (Return None, c, w))))"

text \<open>
  The two cron loops wait in a \<^verbatim>\<open>select\<close> for the stop channel or for their timer.
  A run is the sequence of the ways the \<^verbatim>\<open>select\<close> ends; while the loop sleeps the
  world moves on, by the function that comes with the timer.  \<^verbatim>\<open>backoff.RetryNotify\<close>
  is code outside the repository and is the argument \<open>retry\<close>.
\<close>

datatype 'w wakeup = StopCh | TimeAfter "'w \<Rightarrow> 'w"

type_synonym ('c, 'w) retrier =
  "BackOff \<Rightarrow> ('c \<times> 'w \<Rightarrow> err option outcome \<times> 'c \<times> 'w) \<Rightarrow> 'c \<times> 'w \<Rightarrow> err option outcome \<times> 'c \<times> 'w"

fun UpdateCron ::
    "('w, 'x) env \<Rightarrow> Util \<Rightarrow> (Cron, 'w) retrier \<Rightarrow> BackOff \<Rightarrow> 'w wakeup list \<Rightarrow> Cron \<times> 'w \<Rightarrow>
      unit outcome \<times> Cron \<times> 'w" where
  "UpdateCron E u retry b [] (c, w) = (Return (), c, w)"
| "UpdateCron E u retry b (StopCh # es) (c, w) = (Return (), c, w)"
| "UpdateCron E u retry b (TimeAfter f # es) (c, w) =
     (case retry (getExponentialBackoff b c) (requestCall E u) (c, f w) of
        (Panic p, cw) \<Rightarrow> (Panic p, cw)
      | (Return _, cw) \<Rightarrow> UpdateCron E u retry b es cw)"

definition AddAdminSystemDomains :: "('w, 'x) env \<Rightarrow> Util \<Rightarrow> 'w \<Rightarrow> 'w" where
  "AddAdminSystemDomains E u w =
     (let admin = GetAdminDomain u;
          w = (if admin \<noteq> [] then q_AddRateLimited E admin w else w)
      in fold (\<lambda>d w. if d \<noteq> [] then q_AddRateLimited E d w else w) (GetSystemNSDomains u) w)"

fun resync_namespaces :: "('w, 'x) env \<Rightarrow> Util \<Rightarrow> 'x obj list \<Rightarrow> 'w \<Rightarrow> unit outcome \<times> 'w" where
  "resync_namespaces E u [] w = (Return (), w)"
| "resync_namespaces E u (ns # nslist) w =
     (case ns of
        ObjNamespace p \<Rightarrow>
          (case p of
             None \<Rightarrow> (Panic NilDereference, w)
           | Some nm \<Rightarrow>
               (if IsNamespaceExcluded u nm then resync_namespaces E u nslist w
                else resync_namespaces E u nslist (q_AddRateLimited E (NamespaceToDomain u nm) w)))
      | _ \<Rightarrow> resync_namespaces E u nslist w)"

fun resync_trusts :: "('w, 'x) env \<Rightarrow> string list \<Rightarrow> 'w \<Rightarrow> 'w" where
  "resync_trusts E [] w = w"
| "resync_trusts E (d # ds) w =
     (let (item, err) = cr_GetByKey E w d
      in case err of
           Some _ \<Rightarrow> resync_trusts E ds w
         | None \<Rightarrow> resync_trusts E ds (if item \<noteq> None then q_AddRateLimited E d w else w))"

definition resync_once :: "('w, 'x) env \<Rightarrow> Util \<Rightarrow> 'w \<Rightarrow> unit outcome \<times> 'w" where
  \<comment> \<open>what \<open>FullResync\<close> does each time its timer fires\<close>
  "resync_once E u w =
     (case resync_namespaces E u (ns_List E w) w of
        (Panic p, w) \<Rightarrow> (Panic p, w)
      | (Return _, w) \<Rightarrow>
          (let w = AddAdminSystemDomains E u w;
               trustdomains = cr_ListIndexFuncValues E w trustDomainIndexKey
           in (Return (), resync_trusts E trustdomains w)))"

fun FullResync :: "('w, 'x) env \<Rightarrow> Util \<Rightarrow> 'w wakeup list \<Rightarrow> 'w \<Rightarrow> unit outcome \<times> 'w" where
  "FullResync E u [] w = (Return (), w)"
| "FullResync E u (StopCh # es) w = (Return (), w)"
| "FullResync E u (TimeAfter f # es) w =
     (case resync_once E u (f w) of
        (Panic p, w) \<Rightarrow> (Panic p, w)
      | (Return _, w) \<Rightarrow> FullResync E u es w)"

section \<open>The queue is not the caches\<close>

text \<open>
  Adding to the work queue does not change what the informer caches answer.  Then the calls
  of the loops above can be collected: \<open>add_all\<close> offers a list of domains in turn.
\<close>

locale quiet_queue =
  fixes E :: "('w, 'x) env"
  assumes cr_get_quiet [simp]: "cr_GetByKey E (q_AddRateLimited E x w) = cr_GetByKey E w"
    and cr_index_quiet [simp]: "cr_ByIndex E (q_AddRateLimited E x w) = cr_ByIndex E w"
    and cr_values_quiet [simp]:
      "cr_ListIndexFuncValues E (q_AddRateLimited E x w) = cr_ListIndexFuncValues E w"
    and ns_get_quiet [simp]: "ns_GetByKey E (q_AddRateLimited E x w) = ns_GetByKey E w"

definition add_all :: "('w, 'x) env \<Rightarrow> string list \<Rightarrow> 'w \<Rightarrow> 'w" where
  "add_all E ds w = fold (q_AddRateLimited E) ds w"

lemma add_all_simps [simp]:
  "add_all E [] w = w"
  "add_all E (d # ds) w = add_all E ds (q_AddRateLimited E d w)"
  "add_all E (ds @ ds') w = add_all E ds' (add_all E ds w)"
  by (simp_all add: add_all_def)

lemma AddAdminSystemDomains_eq:
  "AddAdminSystemDomains E u w =
     add_all E (filter (\<lambda>d. d \<noteq> []) (adminDomain u # map (NamespaceToDomain u) (systemNamespaces u))) w"
proof -
  have "fold (\<lambda>d w. if d \<noteq> [] then q_AddRateLimited E d w else w) ds w
          = add_all E (filter (\<lambda>d. d \<noteq> []) ds) w" for ds w
    by (induction ds arbitrary: w) simp_all
  then show ?thesis
    by (simp add: AddAdminSystemDomains_def GetAdminDomain_def Let_def)
qed

text \<open>The namespaces that a resync takes up, in the order of the store.\<close>

definition resync_list :: "Util \<Rightarrow> 'x obj list \<Rightarrow> string list" where
  "resync_list u obs =
     map (NamespaceToDomain u) (filter (\<lambda>nm. \<not> IsNamespaceExcluded u nm)
       (List.map_filter (\<lambda>ob. case ob of ObjNamespace p \<Rightarrow> p | _ \<Rightarrow> None) obs))"

lemma resync_namespaces_eq:
  assumes "ObjNamespace None \<notin> set obs"
  shows "resync_namespaces E u obs w = (Return (), add_all E (resync_list u obs) w)"
  using assms
proof (induction obs arbitrary: w)
  case (Cons ob obs)
  show ?case
  proof (cases ob)
    case (ObjNamespace p)
    with Cons show ?thesis
      by (cases p) (simp_all add: resync_list_def List.map_filter_simps)
  qed (use Cons in \<open>simp_all add: resync_list_def List.map_filter_simps\<close>)
qed (simp add: resync_list_def List.map_filter_simps)

context quiet_queue begin

lemma cr_get_add_all [simp]: "cr_GetByKey E (add_all E ds w) = cr_GetByKey E w"
  by (induction ds arbitrary: w) simp_all

lemma cr_index_add_all [simp]: "cr_ByIndex E (add_all E ds w) = cr_ByIndex E w"
  by (induction ds arbitrary: w) simp_all

lemma cr_values_add_all [simp]:
  "cr_ListIndexFuncValues E (add_all E ds w) = cr_ListIndexFuncValues E w"
  by (induction ds arbitrary: w) simp_all

lemma ns_get_add_all [simp]: "ns_GetByKey E (add_all E ds w) = ns_GetByKey E w"
  by (induction ds arbitrary: w) simp_all

lemma validate_quiet [simp]:
  "ValidateDomain E u d (q_AddRateLimited E x w) = ValidateDomain E u d w"
  by (simp add: ValidateDomain_def IsTrustDomain_def)

lemma enqueue_updated_eq:
  assumes "\<forall>sd \<in> set sds. \<exists>s d. sd = Some s \<and> domain s = Some d"
  shows "enqueue_updated E u sds w =
    (Return (), add_all E (filter (\<lambda>d. ValidateDomain E u d w)
       (map (\<lambda>sd. domainName (the (domain (the sd)))) sds)) w)"
  using assms
proof (induction sds arbitrary: w)
  case (Cons sd sds)
  then show ?case by (auto simp: Let_def)
qed simp

lemma resync_trusts_eq:
  assumes "\<forall>d \<in> set ds. snd (cr_GetByKey E w d) = None"
  shows "resync_trusts E ds w = add_all E (filter (\<lambda>d. fst (cr_GetByKey E w d) \<noteq> None) ds) w"
  using assms
proof (induction ds arbitrary: w)
  case (Cons d ds)
  then show ?case by (cases "cr_GetByKey E w d") auto
qed simp

lemma resync_once_eq:
  assumes "ObjNamespace None \<notin> set (ns_List E w)"
    and "\<forall>d \<in> set (cr_ListIndexFuncValues E w trustDomainIndexKey). snd (cr_GetByKey E w d) = None"
  shows "resync_once E u w = (Return (), add_all E
    (resync_list u (ns_List E w)
     @ filter (\<lambda>d. d \<noteq> []) (adminDomain u # map (NamespaceToDomain u) (systemNamespaces u))
     @ filter (\<lambda>d. fst (cr_GetByKey E w d) \<noteq> None)
         (cr_ListIndexFuncValues E w trustDomainIndexKey)) w)"
  using assms
  by (simp add: resync_once_def resync_namespaces_eq AddAdminSystemDomains_eq resync_trusts_eq
      Let_def del: filter.simps)

end

section \<open>Validity\<close>

lemma ValidateDomain_iff:
  "ValidateDomain E u d w \<longleftrightarrow>
     fst (ns_GetByKey E w (DomainToNamespace u d)) \<noteq> None \<or> d = adminDomain u \<or> IsTrustDomain E d w"
  by (auto simp: ValidateDomain_def IsAdminDomain_def split_beta)

lemma ValidateDomain_namespace:
  "mappable u ns \<Longrightarrow> fst (ns_GetByKey E w ns) \<noteq> None \<Longrightarrow> ValidateDomain E u (NamespaceToDomain u ns) w"
  by (simp add: ValidateDomain_iff util.ns_back)

section \<open>Retries\<close>

text \<open>
  \<^verbatim>\<open>RetryNotify\<close> runs its operation at least once, again after a failure until it
  succeeds or the back-off stops, and returns what the last run returned.
\<close>

inductive retried :: "('s \<Rightarrow> err option outcome \<times> 's) \<Rightarrow> 's \<Rightarrow> err option outcome \<times> 's \<Rightarrow> bool"
  for oper where
  last_try: "retried oper s (oper s)"
| next_try: "oper s = (Return (Some e), s1) \<Longrightarrow> retried oper s1 r \<Longrightarrow> retried oper s r"

locale retry_notify =
  fixes retry :: "('c, 'w) retrier"
  assumes runs: "retried oper s (retry b oper s)"
begin

lemma retry_invariant:
  assumes "I s" "\<And>s. I s \<Longrightarrow> I (snd (oper s))" "retry b oper s = (r, s')"
  shows "I s'"
proof -
  have "retried oper s rs \<Longrightarrow> I s \<Longrightarrow> I (snd rs)" for s rs
  proof (induction rule: retried.induct)
    case (next_try s e s1 r)
    then show ?case using assms(2) [of s] by simp
  qed (rule assms(2))
  then show ?thesis
    using runs [of oper s b] assms(1,3) by fastforce
qed

end

lemma UpdateCron_invariant:
  assumes "retry_notify retry" "I c"
    and keep: "\<And>c w. I c \<Longrightarrow> I (fst (snd (requestCall E u (c, w))))"
  shows "I (fst (snd (UpdateCron E u retry b es (c, w))))"
  using assms(2)
proof (induction es arbitrary: c w)
  case (Cons e es)
  show ?case
  proof (cases e)
    case (TimeAfter f)
    obtain r c1 w1 where s: "retry (getExponentialBackoff b c) (requestCall E u) (c, f w) = (r, c1, w1)"
      by (metis prod.exhaust)
    have "I (fst (c1, w1))"
      by (rule retry_notify.retry_invariant [OF assms(1), where I = "\<lambda>cw. I (fst cw)", OF _ _ s])
        (use Cons.prems keep in auto)
    with TimeAfter s Cons.IH show ?thesis by (cases r) simp_all
  qed (use Cons.prems in simp)
qed simp

lemma requestCall_etag:
  assumes "\<And>tg w doms tag w'. zms_GetSignedDomains E [] ''true'' [] False False tg w
      = ((doms, tag, None), w') \<Longrightarrow> tag \<noteq> [] \<Longrightarrow> tag \<in> T"
    and "etag c \<in> T"
  shows "etag (fst (snd (requestCall E u (c, w)))) \<in> T"
  using assms(2)
  by (auto simp: requestCall_def Let_def dest: assms(1)
      split: prod.splits option.splits outcome.splits)

end
