(* ===== verification/RateLimiter.thy ===== *)
theory RateLimiter
  imports Prelude
begin

text \<open>
  The component \<^verbatim>\<open>pkg/ratelimiter\<close>: the limiter plugged into the work queue.  It
  counts how often each item was offered and spaces the items of the whole queue by a fixed
  interval.  The items of this program's queue are the domain names.  A time is a number of
  nanoseconds; \<^verbatim>\<open>time.Now\<close> is an argument of the operations that read the clock.
  Each operation runs under the mutex of the limiter, so a sequence of calls is a list of
  operations in the order in which they took the lock.
\<close>

section \<open>Model\<close>

record RateLimiter =
  failures :: "string \<Rightarrow> int option" \<comment> \<open>\<open>map[interface{}]int\<close>\<close>
  currentDelay :: int
  delayInterval :: int

definition time_Sub :: "int \<Rightarrow> int \<Rightarrow> int" where
  \<comment> \<open>\<open>time.Time.Sub\<close>: the difference saturates at the ends of \<open>time.Duration\<close>\<close>
  "time_Sub t u = clamp64 (t - u)"

definition NewRateLimiter :: "int \<Rightarrow> int \<Rightarrow> RateLimiter" where
  "NewRateLimiter now interval =
     \<lparr>failures = Map.empty, currentDelay = now + wrap64 (- 1 * interval), delayInterval = interval\<rparr>"

definition map_get :: "(string \<Rightarrow> int option) \<Rightarrow> string \<Rightarrow> int" where
  \<comment> \<open>reading a missing key of a Go map gives the zero value\<close>
  "map_get m k = (case m k of None \<Rightarrow> 0 | Some v \<Rightarrow> v)"

definition When :: "int \<Rightarrow> string \<Rightarrow> RateLimiter \<Rightarrow> int \<times> RateLimiter" where
  "When now item r =
     (let r = r\<lparr>failures := (failures r)(item \<mapsto> wrap64 (map_get (failures r) item + 1))\<rparr>;
          newDelay = currentDelay r + delayInterval r
      in if newDelay < now
         then (0, r\<lparr>currentDelay := now\<rparr>)
         else let r = r\<lparr>currentDelay := newDelay\<rparr>
              in (time_Sub (currentDelay r) now, r))"

definition Forget :: "string \<Rightarrow> RateLimiter \<Rightarrow> RateLimiter" where
  "Forget item r = r\<lparr>failures := (failures r)(item := None)\<rparr>"

definition NumRequeues :: "string \<Rightarrow> RateLimiter \<Rightarrow> int" where
  "NumRequeues item r = map_get (failures r) item"

text \<open>A run of the limiter: the calls of \<^verbatim>\<open>When\<close> with the clock readings at which
  they are made, and the delays that they return.\<close>

fun when_run :: "RateLimiter \<Rightarrow> (int \<times> string) list \<Rightarrow> int list \<times> RateLimiter" where
  "when_run r [] = ([], r)"
| "when_run r ((now, item) # calls) =
     (let (d, r') = When now item r; (ds, r'') = when_run r' calls in (d # ds, r''))"

definition release_times :: "RateLimiter \<Rightarrow> (int \<times> string) list \<Rightarrow> int list" where
  \<comment> \<open>when the queue may see the items: the clock of each call plus the delay it got\<close>
  "release_times r calls = map2 (\<lambda>(now, item) d. now + d) calls (fst (when_run r calls))"

section \<open>Single operations\<close>

lemma map_get_update [simp]: "map_get (m(k \<mapsto> v)) k' = (if k' = k then v else map_get m k')"
  by (simp add: map_get_def)

lemma map_get_delete [simp]: "map_get (m(k := None)) k' = (if k' = k then 0 else map_get m k')"
  by (simp add: map_get_def)

lemma delayInterval_frame [simp]:
  "delayInterval (snd (When now item r)) = delayInterval r"
  "delayInterval (Forget item r) = delayInterval r"
  by (simp_all add: When_def Forget_def Let_def)

lemma currentDelay_Forget [simp]: "currentDelay (Forget item r) = currentDelay r"
  by (simp add: Forget_def)

lemma NumRequeues_When:
  "NumRequeues k (snd (When now item r)) =
     (if k = item then wrap64 (NumRequeues item r + 1) else NumRequeues k r)"
  by (simp add: NumRequeues_def When_def Let_def)

lemma NumRequeues_Forget: "NumRequeues k (Forget item r) = (if k = item then 0 else NumRequeues k r)"
  by (simp add: NumRequeues_def Forget_def)

lemma NumRequeues_New [simp]: "NumRequeues k (NewRateLimiter now interval) = 0"
  by (simp add: NumRequeues_def NewRateLimiter_def map_get_def)

lemma currentDelay_When:
  "currentDelay (snd (When now item r)) = max now (currentDelay r + delayInterval r)"
  by (simp add: When_def Let_def)

lemma delay_When:
  "fst (When now item r) = clamp64 (currentDelay (snd (When now item r)) - now)"
  by (auto simp: When_def Let_def time_Sub_def clamp64_def)

lemma delay_When_nonneg: "0 \<le> fst (When now item r)"
  by (simp add: delay_When currentDelay_When clamp64_nonneg)

text \<open>While the backlog is shorter than the largest duration (292 years) nothing saturates.\<close>

lemma release_When:
  assumes "currentDelay r + delayInterval r - now \<le> max_int64"
  shows "now + fst (When now item r) = currentDelay (snd (When now item r))"
  using assms by (simp add: delay_When currentDelay_When clamp64_def)

section \<open>The limiter interface of the work queue\<close>

text \<open>
  The work queue (\<^verbatim>\<open>k8s.io/client-go/util/workqueue\<close>) is written against an
  interface with the three operations \<^verbatim>\<open>When\<close>, \<^verbatim>\<open>Forget\<close> and
  \<^verbatim>\<open>NumRequeues\<close>.  The controller's retry bound rests on these laws.
\<close>

locale rate_limiter =
  fixes when' :: "int \<Rightarrow> string \<Rightarrow> 'r \<Rightarrow> int \<times> 'r"
    and forget :: "string \<Rightarrow> 'r \<Rightarrow> 'r"
    and requeues :: "string \<Rightarrow> 'r \<Rightarrow> int"
  assumes delay_nonneg: "0 \<le> fst (when' now x r)"
    and requeues_when: "requeues y (snd (when' now x r)) =
          (if y = x then wrap64 (requeues x r + 1) else requeues y r)"
    and requeues_forget: "requeues y (forget x r) = (if y = x then 0 else requeues y r)"
begin

fun offers :: "(int \<times> string) list \<Rightarrow> 'r \<Rightarrow> 'r" where
  "offers [] r = r"
| "offers ((now, x) # cs) r = offers cs (snd (when' now x r))"

lemma requeues_offers:
  assumes "0 \<le> requeues y r" "requeues y r + int (length cs) \<le> max_int64"
  shows "requeues y (offers cs r) = requeues y r + int (length (filter (\<lambda>c. snd c = y) cs))"
  using assms
proof (induction cs arbitrary: r)
  case (Cons c cs)
  obtain now x where c: "c = (now, x)" by fastforce
  have step: "requeues y (snd (when' now x r)) = requeues y r + (if x = y then 1 else 0)"
    using Cons.prems by (auto simp: requeues_when in_int64_def intro!: wrap64_id)
  have "requeues y (offers cs (snd (when' now x r)))
      = requeues y (snd (when' now x r)) + int (length (filter (\<lambda>c. snd c = y) cs))"
    using Cons.prems step by (intro Cons.IH) (auto split: if_splits)
  with c step show ?case by simp
qed simp

lemma requeues_after_forget:
  assumes "int (length cs) \<le> max_int64"
  shows "requeues y (offers cs (forget y r)) = int (length (filter (\<lambda>c. snd c = y) cs))"
  using assms requeues_offers [of y "forget y r" cs] by (simp add: requeues_forget)

end

interpretation limiter: rate_limiter When Forget NumRequeues
  by unfold_locales (simp_all add: delay_When_nonneg NumRequeues_When NumRequeues_Forget)

section \<open>Runs\<close>

lemma when_run_offers: "snd (when_run r calls) = limiter.offers calls r"
  by (induction calls arbitrary: r) (auto simp: split_beta Let_def)

lemma length_when_run [simp]: "length (fst (when_run r calls)) = length calls"
  by (induction calls arbitrary: r) (auto simp: split_beta Let_def)

lemma release_times_Cons:
  "release_times r ((now, item) # calls) =
     (now + fst (When now item r)) # release_times (snd (When now item r)) calls"
  by (simp add: release_times_def split_beta Let_def)

lemma release_times_Nil [simp]: "release_times r [] = []"
  by (simp add: release_times_def)

text \<open>The backlog stays within a duration: what the runs below assume of their clock.\<close>

fun backlog_ok :: "RateLimiter \<Rightarrow> (int \<times> string) list \<Rightarrow> bool" where
  "backlog_ok r [] = True"
| "backlog_ok r ((now, item) # calls) =
     (currentDelay r + delayInterval r - now \<le> max_int64 \<and> backlog_ok (snd (When now item r)) calls)"

fun spaced :: "int \<Rightarrow> int list \<Rightarrow> bool" where
  "spaced gap (t # u # ts) = (t + gap \<le> u \<and> spaced gap (u # ts))"
| "spaced gap _ = True"

lemma spaced_release_times:
  "backlog_ok r calls \<Longrightarrow> spaced (delayInterval r) (currentDelay r # release_times r calls)"
proof (induction r calls rule: backlog_ok.induct)
  case (2 r now item calls)
  then have "now + fst (When now item r) = currentDelay (snd (When now item r))"
    by (simp add: release_When)
  with 2 show ?case
    by (simp add: release_times_Cons currentDelay_When)
qed simp

lemma spaced_nth:
  assumes "spaced gap ts" "0 \<le> gap" "i < j" "j < length ts"
  shows "ts ! i + gap * int (j - i) \<le> ts ! j"
  using assms
proof (induction gap ts arbitrary: i j rule: spaced.induct)
  case (1 gap t u ts)
  obtain j' where j: "j = Suc j'" using 1 by (cases j) auto
  show ?case
  proof (cases i)
    case 0
    show ?thesis
    proof (cases "j' = 0")
      case False
      then have "u + gap * int j' \<le> (u # ts) ! j'"
        using "1.IH" [of 0 j'] "1.prems" j by simp
      with "1.prems" 0 j show ?thesis
        by (simp add: algebra_simps)
    qed (use 1 0 j in simp)
  next
    case (Suc i')
    with 1 j show ?thesis by simp
  qed
qed simp_all

lemma burst_delays:
  assumes "0 < g" "g * int k + g * int (length items) \<le> max_int64"
    "currentDelay r = now + g * int k - g" "delayInterval r = g"
  shows "fst (when_run r (map (Pair now) items)) = map (\<lambda>i. g * int (k + i)) [0..<length items]"
  using assms
proof (induction items arbitrary: r k)
  case (Cons x xs)
  have d: "currentDelay (snd (When now x r)) = now + g * int (Suc k) - g"
    using Cons.prems by (simp add: currentDelay_When algebra_simps)
  have "0 \<le> g * int k" "0 \<le> g * int (length xs)"
    using Cons.prems(1) by simp_all
  then have "in_int64 (g * int k)"
    using Cons.prems(1,2) unfolding in_int64_def
    by (simp only: length_Cons of_nat_Suc distrib_left) linarith
  then have "fst (When now x r) = g * int k"
    using d by (simp add: delay_When clamp64_id algebra_simps)
  moreover have "fst (when_run (snd (When now x r)) (map (Pair now) xs))
      = map (\<lambda>i. g * int (Suc k + i)) [0..<length xs]"
    using Cons.prems d by (intro Cons.IH) (simp_all add: algebra_simps)
  moreover have "[0..<length (x # xs)] = 0 # map Suc [0..<length xs]"
    by (simp add: upt_conv_Cons map_Suc_upt del: upt_Suc)
  ultimately show ?case
    by (simp add: split_beta Let_def comp_def)
qed simp

section \<open>Properties\<close>

text \<open>
  C30.  Whatever the items and the clock readings, two calls of \<^verbatim>\<open>When\<close> release
  their items at least the configured interval apart for each call between them: the queue
  never receives items faster than one per interval.
\<close>

theorem release_times_spaced:
  assumes "backlog_ok r calls" and "0 \<le> delayInterval r" and "i < j" and "j < length calls"
  shows "release_times r calls ! i + delayInterval r * int (j - i) \<le> release_times r calls ! j"
proof -
  have "length (release_times r calls) = length calls"
    by (simp add: release_times_def)
  moreover have "spaced (delayInterval r) (currentDelay r # release_times r calls)"
    by (rule spaced_release_times [OF assms(1)])
  ultimately show ?thesis
    using spaced_nth [of "delayInterval r" "currentDelay r # release_times r calls" "Suc i" "Suc j"]
      assms by simp
qed

lemma release_times_spaced_witness:
  "release_times (NewRateLimiter 0 250) [(1, ''a''), (2, ''b''), (900, ''a'')] ! 0 + 250 * int (1 - 0)
     \<le> release_times (NewRateLimiter 0 250) [(1, ''a''), (2, ''b''), (900, ''a'')] ! 1 \<and>
   release_times (NewRateLimiter 0 250) [(1, ''a''), (2, ''b''), (900, ''a'')] = [1, 251, 900]"
proof -
  let ?r = "NewRateLimiter 0 250" and ?cs = "[(1, ''a''), (2, ''b''), (900, ''a'')]"
  have ok: "backlog_ok ?r ?cs"
    by (simp add: NewRateLimiter_def wrap64_id in_int64_def currentDelay_When)
  have "release_times ?r ?cs = [1, 251, 900]"
    by (simp add: release_times_Cons NewRateLimiter_def wrap64_id in_int64_def delay_When
        currentDelay_When clamp64_def)
  then show ?thesis
    using release_times_spaced [OF ok, of 0 1] by (simp add: NewRateLimiter_def)
qed

text \<open>
  A burst offered to a fresh limiter at one instant: the first item is not delayed at
  all, the \<open>k\<close>-th (from zero) by \<open>k\<close> intervals.
\<close>

theorem burst_is_staggered:
  assumes "0 < g" and "g * int (length ks) \<le> max_int64"
  shows "fst (when_run (NewRateLimiter now g) (map (Pair now) ks))
           = map (\<lambda>k. g * int k) [0..<length ks]"
proof (cases ks)
  case (Cons x xs)
  then have "0 \<le> g * int (length xs)" "g * int (length ks) = g + g * int (length xs)"
    using assms(1) by (simp_all add: distrib_left)
  then have "in_int64 (- g)"
    using assms unfolding in_int64_def by linarith
  then show ?thesis
    using assms burst_delays [of g 0 ks "NewRateLimiter now g" now]
    by (simp add: NewRateLimiter_def wrap64_id)
qed simp

lemma burst_is_staggered_witness:
  "fst (when_run (NewRateLimiter 5 250) (map (Pair 5) [''a'', ''b'', ''c''])) = [0, 250, 500]"
  by (subst burst_is_staggered) (simp_all add: upt_conv_Cons)

text \<open>
  The retry counter of an item is the number of times it was offered since it was last
  forgotten, whatever else happened to other items in between.
\<close>

theorem requeues_count_offers:
  assumes "int (length calls) \<le> max_int64"
  shows "NumRequeues y (snd (when_run (Forget y r) calls))
           = int (length (filter (\<lambda>c. snd c = y) calls))"
  using limiter.requeues_after_forget [OF assms] by (simp add: when_run_offers)

lemma requeues_count_offers_witness:
  "NumRequeues ''a'' (snd (when_run (Forget ''a'' (NewRateLimiter 0 250))
     [(1, ''a''), (2, ''b''), (3, ''a'')])) = 2"
  by (subst requeues_count_offers) simp_all

end
