(* ===== verification/Controller.thy ===== *)
theory Controller
  imports Cron RateLimiter
begin

text \<open>
  The component \<^verbatim>\<open>pkg/controller\<close>: the informer event handlers that put domains
  on the work queue, the worker that takes them off, and \<^verbatim>\<open>sync\<close>, which brings
  the custom resource of one domain in line with ZMS.
\<close>

section \<open>Model\<close>

definition workerQueueRetry :: int where
  "workerQueueRetry = 3"

type_synonym 'x keyFunc = "'x obj \<Rightarrow> string \<times> err option"

definition nsinformerhandler ::
    "('w, 'x) env \<Rightarrow> Util \<Rightarrow> 'x keyFunc \<Rightarrow> 'x obj \<Rightarrow> 'w \<Rightarrow> string \<times> 'w" where
  "nsinformerhandler E u fn ob w =
     (let (key, err) = fn ob
      in if err \<noteq> None then ([], w)
         else if IsNamespaceExcluded u key then (key, w)
         else let d = NamespaceToDomain u key in (key, q_AddRateLimited E d w))"

definition crinformerhandler ::
    "('w, 'x) env \<Rightarrow> 'x keyFunc \<Rightarrow> 'x obj \<Rightarrow> 'w \<Rightarrow> string \<times> 'w" where
  "crinformerhandler E fn ob w =
     (let (key, err) = fn ob
      in if err \<noteq> None then ([], w) else (key, q_AddRateLimited E key w))"

text \<open>
  The handlers registered with the two informers.  \<open>keyf\<close> and \<open>delf\<close> are
  \<^verbatim>\<open>cache.MetaNamespaceKeyFunc\<close> and
  \<^verbatim>\<open>cache.DeletionHandlingMetaNamespaceKeyFunc\<close>.
\<close>

datatype 'x event = AddFunc "'x obj" | UpdateFunc "'x obj" "'x obj" | DeleteFunc "'x obj"

fun ns_handler ::
    "('w, 'x) env \<Rightarrow> Util \<Rightarrow> 'x keyFunc \<Rightarrow> 'x keyFunc \<Rightarrow> 'x event \<Rightarrow> 'w \<Rightarrow> 'w" where
  "ns_handler E u keyf delf (AddFunc ob) w = snd (nsinformerhandler E u keyf ob w)"
| "ns_handler E u keyf delf (UpdateFunc oldObj newObj) w = snd (nsinformerhandler E u keyf newObj w)"
| "ns_handler E u keyf delf (DeleteFunc ob) w = snd (nsinformerhandler E u delf ob w)"

fun cr_handler ::
    "('w, 'x) env \<Rightarrow> 'x keyFunc \<Rightarrow> 'x keyFunc \<Rightarrow> 'x event \<Rightarrow> 'w \<Rightarrow> 'w" where
  "cr_handler E keyf delf (AddFunc ob) w = snd (crinformerhandler E keyf ob w)"
| "cr_handler E keyf delf (UpdateFunc oldObj newObj) w = snd (crinformerhandler E keyf newObj w)"
| "cr_handler E keyf delf (DeleteFunc ob) w = snd (crinformerhandler E delf ob w)"

fun filter_signed ::
    "Util \<Rightarrow> 'x SignedDomain option list \<Rightarrow> 'x SignedDomain option list outcome" where
  \<comment> \<open>the loop that filters every domain of a ZMS answer in place\<close>
  "filter_signed u [] = Return []"
| "filter_signed u (sd # sds) =
     bind_outcome (deref sd) (\<lambda>s.
     bind_outcome (FilterMSDRules u (domain s)) (\<lambda>d.
     bind_outcome (filter_signed u sds) (\<lambda>rest.
     Return (Some (s\<lparr>domain := d\<rparr>) # rest))))"

definition zmsGetSignedDomains ::
    "('w, 'x) env \<Rightarrow> Util \<Rightarrow> string \<Rightarrow> 'w \<Rightarrow>
      ('x SignedDomains option \<times> bool \<times> err option) outcome \<times> 'w" where
  "zmsGetSignedDomains E u d w =
     (let ((signedDomain', _, err), w) = zms_GetSignedDomains E d [] [] False False [] w
      in case err of
           Some e \<Rightarrow> (Return (None, False, Some e), w)
         | None \<Rightarrow>
             (case signedDomain' of
                None \<Rightarrow> (Panic NilDereference, w)
              | Some sds \<Rightarrow>
                  (if length (elems (domains sds)) = 0 then (Return (None, False, None), w)
                   else (bind_outcome (filter_signed u (elems (domains sds)))
                           (\<lambda>ds. Return (Some (sds\<lparr>domains := Some ds\<rparr>), True, None)), w))))"

fun sync_trusts ::
    "('w, 'x) env \<Rightarrow> Util \<Rightarrow> string \<Rightarrow> 'x Role option list \<Rightarrow> 'w \<Rightarrow> 'w" where
  \<comment> \<open>the loop over the roles of a synchronised domain\<close>
  "sync_trusts E u d [] w = w"
| "sync_trusts E u d (role # rest) w =
     (case role of
        None \<Rightarrow> sync_trusts E u d rest w
      | Some r \<Rightarrow>
          (if roleTrust r \<noteq> [] \<and> roleTrust r \<noteq> d
           then let (item, err) = cr_GetByKey E w (roleTrust r)
                in if err \<noteq> None then sync_trusts E u d rest w
                   else if item = None
                   then let (nsItem, err) = ns_GetByKey E w (DomainToNamespace u d)
                        in if err \<noteq> None then sync_trusts E u d rest w
                           else if nsItem \<noteq> None \<or> IsAdminDomain u d
                           then sync_trusts E u d rest (q_AddRateLimited E (roleTrust r) w)
                           else sync_trusts E u d rest w
                   else sync_trusts E u d rest w
           else sync_trusts E u d rest w))"

fun sync_domains ::
    "('w, 'x) env \<Rightarrow> Util \<Rightarrow> string \<Rightarrow> 'x SignedDomain option list \<Rightarrow> 'w \<Rightarrow> err option outcome \<times> 'w" where
  \<comment> \<open>the loop over the domains of a ZMS answer\<close>
  "sync_domains E u d [] w = (Return None, w)"
| "sync_domains E u d (domainData # rest) w =
     (case bind_outcome (deref domainData) (\<lambda>s. deref (domain s)) of
        Panic p \<Rightarrow> (Panic p, w)
      | Return data \<Rightarrow>
          (if domainName data = d
           then case CreateUpdateAthenzDomain E d domainData w of
                  (Panic p, w) \<Rightarrow> (Panic p, w)
                | (Return (_, err), w) \<Rightarrow>
                    (case err of
                       Some e \<Rightarrow>
                         (Return (Some (Wrapped ''Error occurred when creating AthenzDomain custom resources. Error'' e)), w)
                     | None \<Rightarrow> sync_domains E u d rest (sync_trusts E u d (elems (roles data)) w))
           else sync_domains E u d rest w))"

text \<open>
  In the branch for a ZMS error that is not a 404, \<^verbatim>\<open>err\<close> is redeclared by
  \<^verbatim>\<open>obj, exists, err := c.cr.GetCRByName(domain)\<close>.  The \<^verbatim>\<open>err.Error()\<close>
  below it and the final \<^verbatim>\<open>return err\<close> read that new variable, as the model does:
  \<open>err2\<close> is the redeclared one.
\<close>

definition call_Error :: "('w, 'x) env \<Rightarrow> err option \<Rightarrow> string outcome" where
  \<comment> \<open>the method call \<open>err.Error()\<close>\<close>
  "call_Error E err = bind_outcome (deref err) (\<lambda>e. Return (error_text E e))"

definition sync :: "('w, 'x) env \<Rightarrow> Util \<Rightarrow> string \<Rightarrow> 'w \<Rightarrow> err option outcome \<times> 'w" where
  "sync E u d w =
     (if \<not> ValidateDomain E u d w then let (e, w) = RemoveAthenzDomain E d w in (Return e, w)
      else case zmsGetSignedDomains E u d w of
        (Panic p, w) \<Rightarrow> (Panic p, w)
      | (Return (result, exist, err), w) \<Rightarrow>
          (case err of
             Some e \<Rightarrow>
               (case as_ResourceError e of
                  None \<Rightarrow> (Return (Some (Plain ''Error occurred when converting error types'')), w)
                | Some code \<Rightarrow>
                    (if code = 404 then let (e, w) = RemoveAthenzDomain E d w in (Return e, w)
                     else let (obj, exists, err2) = GetCRByName E d w
                          in if err2 \<noteq> None then (Return err2, w)
                             else if exists
                             then (case bind_outcome (call_Error E err2) (\<lambda>m.
                                          bind_outcome (deref obj) (\<lambda>ob.
                                          Return (ob\<lparr>status := (status ob)\<lparr>message := m\<rparr>\<rparr>))) of
                                     Panic p \<Rightarrow> (Panic p, w)
                                   | Return ob \<Rightarrow> (Return err2, UpdateErrorStatus E ob w))
                             else (Return err2, w)))
           | None \<Rightarrow>
               (if \<not> exist then let (e, w) = RemoveAthenzDomain E d w in (Return e, w)
                else case result of
                       None \<Rightarrow> (Panic NilDereference, w)
                     | Some sds \<Rightarrow> sync_domains E u d (elems (domains sds)) w)))"

definition process_key :: "('w, 'x) env \<Rightarrow> Util \<Rightarrow> queue_key \<Rightarrow> 'w \<Rightarrow> bool outcome \<times> 'w" where
  \<comment> \<open>\<open>processNextItem\<close> between taking the item and the deferred \<open>Done\<close>\<close>
  "process_key E u key w =
     (case key of
        KeyOther \<Rightarrow> (Return True, w)
      | KeyString d \<Rightarrow>
          (case sync E u d w of
             (Panic p, w) \<Rightarrow> (Panic p, w)
           | (Return err, w) \<Rightarrow>
               (Return True,
                (if err \<noteq> None
                 then if q_NumRequeues E d w < workerQueueRetry then q_AddRateLimited E d w
                      else q_Forget E key w
                 else w))))"

definition processNextItem :: "('w, 'x) env \<Rightarrow> Util \<Rightarrow> 'w \<Rightarrow> bool outcome \<times> 'w" where
  "processNextItem E u w =
     (let ((key, quit), w) = q_Get E w
      in if quit then (Return False, w)
         else let (r, w) = process_key E u key w in (r, q_Done E key w))"

partial_function (option) runWorker ::
    "('w, 'x) env \<Rightarrow> Util \<Rightarrow> 'w \<Rightarrow> (unit outcome \<times> 'w) option" where
  "runWorker E u w =
     (case processNextItem E u w of
        (Panic p, w') \<Rightarrow> Some (Panic p, w')
      | (Return again, w') \<Rightarrow> (if again then runWorker E u w' else Some (Return (), w')))"

text \<open>
  \<^verbatim>\<open>Run\<close> up to the worker loop: \<open>synced\<close> is the answer of
  \<^verbatim>\<open>cache.WaitForCacheSync\<close>; a failure returns, which shuts the queue down.
\<close>

definition Run_start ::
    "('w, 'x) env \<Rightarrow> Util \<Rightarrow> bool \<Rightarrow> Cron \<times> 'w \<Rightarrow> bool outcome \<times> Cron \<times> 'w" where
  "Run_start E u synced cw =
     (let (c, w) = cw
      in if \<not> synced then (Return False, c, q_ShutDown E w)
         else case GetLatestTimestamp E w of
                Panic p \<Rightarrow> (Panic p, c, q_ShutDown E w)
              | Return timestamp \<Rightarrow>
                  (Return True, SetEtag timestamp c, AddAdminSystemDomains E u w))"

text \<open>
  \<^verbatim>\<open>wait.Until\<close> looks at the stop channel before each call of its function and returns when
  it is closed; \<open>stopped\<close> reads the channel.  A panic of the worker leaves \<^verbatim>\<open>Run\<close> through its
  deferred calls, which shut the queue down.
\<close>

partial_function (option) wait_Until ::
    "('w, 'x) env \<Rightarrow> Util \<Rightarrow> ('w \<Rightarrow> bool) \<Rightarrow> 'w \<Rightarrow> (unit outcome \<times> 'w) option" where
  "wait_Until E u stopped w =
     (if stopped w then Some (Return (), w)
      else case runWorker E u w of
             None \<Rightarrow> None
           | Some (Panic p, w') \<Rightarrow> Some (Panic p, w')
           | Some (Return x, w') \<Rightarrow> wait_Until E u stopped w')"

definition controller_Run ::
    "('w, 'x) env \<Rightarrow> Util \<Rightarrow> bool \<Rightarrow> ('w \<Rightarrow> bool) \<Rightarrow> Cron \<times> 'w \<Rightarrow> (unit outcome \<times> Cron \<times> 'w) option" where
  "controller_Run E u synced stopped cw =
     (case Run_start E u synced cw of
        (Panic p, c, w) \<Rightarrow> Some (Panic p, c, w)
      | (Return go, c, w) \<Rightarrow>
          (if \<not> go then Some (Return (), c, w)
           else case wait_Until E u stopped w of
                  None \<Rightarrow> None
                | Some (r, w') \<Rightarrow> Some (r, c, q_ShutDown E w')))"

section \<open>The answer of ZMS\<close>

lemma filter_signed_Return:
  assumes "filter_signed u sds = Return ds"
  shows "list_all2 (\<lambda>sd sd'. \<exists>s d. sd = Some s \<and> FilterMSDRules u (domain s) = Return d \<and>
           sd' = Some (s\<lparr>domain := d\<rparr>)) sds ds"
  using assms by (induction sds arbitrary: ds) auto

text \<open>The domains that ZMS answers for one name, after the filter.\<close>

definition answered :: "('w, 'x) env \<Rightarrow> Util \<Rightarrow> string \<Rightarrow> 'w \<Rightarrow> 'x SignedDomain set" where
  "answered E u d w =
     (case fst (zmsGetSignedDomains E u d w) of
        Return (Some sds, _, _) \<Rightarrow>
          {s. Some s \<in> set (elems (domains sds)) \<and> (\<exists>data. domain s = Some data \<and> domainName data = d)}
      | _ \<Rightarrow> {})"

text \<open>
  ZMS says that there is nothing to synchronise, or the domain is not valid; \<open>w1\<close> is the
  world after the question, if one was asked.
\<close>

definition unwanted :: "('w, 'x) env \<Rightarrow> Util \<Rightarrow> string \<Rightarrow> 'w \<Rightarrow> 'w \<Rightarrow> bool" where
  "unwanted E u d w w1 \<longleftrightarrow>
     (if ValidateDomain E u d w
      then case zms_GetSignedDomains E d [] [] False False [] w of
             ((doms, tag, err), w') \<Rightarrow> w1 = w' \<and>
               ((\<exists>m. err = Some (Resource 404 m)) \<or>
                err = None \<and> (\<exists>sds. doms = Some sds \<and> elems (domains sds) = []))
      else w1 = w)"

lemma zms_unwanted:
  assumes "ValidateDomain E u d w" "zmsGetSignedDomains E u d w = (Return (res, ex, err), w1)"
    and "err = Some e \<and> as_ResourceError e = Some 404 \<or> err = None \<and> \<not> ex"
  shows "unwanted E u d w w1"
proof -
  have "\<exists>m. e = Resource 404 m" if "as_ResourceError e = Some 404"
    using that by (cases e) simp_all
  then show ?thesis
    using assms unfolding unwanted_def zmsGetSignedDomains_def
    by (auto simp: Let_def split: prod.splits option.splits if_splits)
qed

text \<open>
  An API server that carries out every create of a free name and every update of an object at
  its current version.
\<close>

definition server_available ::
    "('w, 'x) env \<Rightarrow> ('w \<Rightarrow> string \<Rightarrow> 'x AthenzDomain option) \<Rightarrow> 'w \<Rightarrow> bool" where
  "server_available E crs w \<longleftrightarrow>
     (\<forall>b. crs w (name (objectMeta b)) = None \<longrightarrow>
        (\<exists>res w'. client_Create E b [] w = ((res, None), w'))) \<and>
     (\<forall>b c. crs w (name (objectMeta b)) = Some c \<longrightarrow>
        resourceVersion (objectMeta b) = resourceVersion (objectMeta c) \<longrightarrow>
        (\<exists>res w'. client_Update E b [] w = ((res, None), w')))"

context domain_server begin

lemma sync_trusts_frame [simp]: "crs (sync_trusts E u d rs w) = crs w"
proof (induction rs arbitrary: w)
  case (Cons role rs)
  then show ?case
    by (cases role) (simp_all add: queue_frame split_beta Let_def)
qed simp

lemma sync_domains_effect:
  assumes "sync_domains E u d sds w = (r, w')"
  shows "may_store (crs w) d
    {s. Some s \<in> set sds \<and> (\<exists>data. domain s = Some data \<and> domainName data = d)} (crs w')"
  using assms
proof (induction sds arbitrary: w)
  case Nil
  then show ?case by auto
next
  case (Cons sd sds)
  let ?S = "\<lambda>sds. {s. Some s \<in> set sds \<and> (\<exists>data. domain s = Some data \<and> domainName data = d)}"
  have mono: "may_store m d (?S sds) m' \<Longrightarrow> may_store m d (?S (sd # sds)) m'" for m m'
    by (rule may_store_mono) auto
  show ?case
  proof (cases "bind_outcome (deref sd) (\<lambda>s. deref (domain s))")
    case (Panic p)
    with Cons.prems show ?thesis by auto
  next
    case (Return data)
    then obtain s where s: "sd = Some s" "domain s = Some data" by auto
    show ?thesis
    proof (cases "domainName data = d")
      case False
      then show ?thesis
        by (intro mono Cons.IH) (use Cons.prems s in simp)
    next
      case True
      obtain r1 w1 where c: "CreateUpdateAthenzDomain E d sd w = (r1, w1)" by fastforce
      have "may_store (crs w) d {s} (crs w1)"
        using createUpdate_effect c s(1) by blast
      then have stored: "may_store (crs w) d (?S (sd # sds)) (crs w1)"
        by (rule may_store_mono) (use s True in auto)
      consider "w' = w1" | "sync_domains E u d sds (sync_trusts E u d (elems (roles data)) w1) = (r, w')"
        using Cons.prems s True c by (auto split: outcome.splits option.splits)
      then show ?thesis
      proof cases
        case 2
        from Cons.IH [OF this] have "may_store (crs w1) d (?S (sd # sds)) (crs w')"
          by (intro mono) simp
        with stored show ?thesis by (rule may_store_trans)
      qed (use stored in simp)
    qed
  qed
qed

lemma zmsGetSignedDomains_frame:
  "zmsGetSignedDomains E u d w = (r, w') \<Longrightarrow> crs w' = crs w"
  by (auto simp: zmsGetSignedDomains_def Let_def dest: zms_frame
      split: prod.splits option.splits if_splits)

lemma sync_effect:
  assumes "sync E u d w = (r, w')"
  shows "crs w' = crs w \<or> (\<exists>w1. unwanted E u d w w1) \<and> crs w' = (crs w)(d := None) \<or>
    ValidateDomain E u d w \<and> may_store (crs w) d (answered E u d w) (crs w')"
proof (cases "ValidateDomain E u d w")
  case False
  with assms have "(let (e, w) = RemoveAthenzDomain E d w in (Return e, w)) = (r, w')"
    by (simp add: sync_def)
  moreover have "unwanted E u d w w" using False by (simp add: unwanted_def)
  ultimately show ?thesis by (auto split: prod.splits dest: remove_effect)
next
  case True
  obtain z w1 where z: "zmsGetSignedDomains E u d w = (z, w1)" by fastforce
  have frame: "crs w1 = crs w" by (rule zmsGetSignedDomains_frame [OF z])
  consider (same) "w' = w1"
    | (removed) e where "unwanted E u d w w1" "RemoveAthenzDomain E d w1 = (e, w')"
    | (stored) sds where "z = Return (Some sds, True, None)"
        "sync_domains E u d (elems (domains sds)) w1 = (r, w')"
    using assms True z
    by (auto simp: sync_def call_Error_def Let_def intro: zms_unwanted
        split: outcome.splits option.splits if_splits prod.splits)
  then show ?thesis
  proof cases
    case removed
    then show ?thesis using remove_effect frame by metis
  next
    case stored
    with sync_domains_effect [OF stored(2)] have "may_store (crs w) d (answered E u d w) (crs w')"
      by (simp add: answered_def z frame)
    with True show ?thesis by blast
  qed (simp add: frame)
qed

lemma createUpdate_converges:
  assumes copies: "faithful_copiers (copiers E)"
    and current: "cache_current E crs w d"
    and available: "server_available E crs w"
    and new: "comparable \<lparr>signedDomain = s\<rparr>"
    and old: "\<forall>c. crs w d = Some c \<longrightarrow> comparable (spec c)"
  shows "\<exists>res w' c. CreateUpdateAthenzDomain E d (Some s) w = (Return (res, None), w') \<and>
    crs w' d = Some c \<and> unsigned (spec c) = unsigned \<lparr>signedDomain = s\<rparr> \<and> message (status c) = []"
proof (cases "crs w d")
  case None
  then obtain res w' where c: "client_Create E (new_cr d s) [] w = ((res, None), w')"
    using available unfolding server_available_def by (metis new_cr_simps(1))
  then have "CreateUpdateAthenzDomain E d (Some s) w = (Return (Some res, None), w')"
    using None by (simp add: CreateUpdateAthenzDomain_def GetCRByName_current [OF current])
  with create_ok [OF c] show ?thesis
    by (auto simp: stored_as_def)
next
  case (Some c)
  have cu: "CreateUpdateAthenzDomain E d (Some s) w = updateCR E (Some c) (Some (new_cr d s)) w"
    using Some by (simp add: CreateUpdateAthenzDomain_def GetCRByName_current [OF current])
  show ?thesis
  proof (cases "up_to_date c (new_cr d s)")
    case True
    then show ?thesis
      using Some old new by (auto simp: cu updateCR_eq [OF copies] up_to_date_def)
  next
    case False
    obtain res w' where c': "client_Update E (with_version c (new_cr d s)) [] w = ((res, None), w')"
      using available Some unfolding server_available_def by fastforce
    then have "CreateUpdateAthenzDomain E d (Some s) w = (Return (Some res, None), w')"
      using False Some old new by (simp add: cu updateCR_eq [OF copies])
    with update_ok [OF c'] show ?thesis
      by (auto simp: stored_as_def)
  qed
qed

lemma sync_one_domain:
  assumes "ValidateDomain E u d w"
    and "zmsGetSignedDomains E u d w = (Return (Some sds, True, None), w1)"
    and "elems (domains sds) = [Some s]" "domain s = Some data" "domainName data = d"
    and "CreateUpdateAthenzDomain E d (Some s) w1 = (Return (res, None), w2)"
  shows "sync E u d w = (Return None, sync_trusts E u d (elems (roles data)) w2)"
  using assms by (simp add: sync_def)

end

section \<open>Answers carry filtered data\<close>

lemma filter_signed_pointers:
  "None \<notin> set sds \<Longrightarrow> (\<And>s. Some s \<in> set sds \<Longrightarrow> FilterMSDRules u (domain s) = Return (f s)) \<Longrightarrow>
     filter_signed u sds = Return (map (map_option (\<lambda>s. s\<lparr>domain := f s\<rparr>)) sds)"
proof (induction sds)
  case (Cons sd sds)
  then show ?case by (cases sd) simp_all
qed simp

lemma answered_filtered:
  assumes "s \<in> answered E u d w"
  shows "\<exists>data. domain s = Some data \<and> domainName data = d \<and>
    FilterMSDRules u (Some data) = Return (Some data)"
proof -
  obtain sds x y where z: "fst (zmsGetSignedDomains E u d w) = Return (Some sds, x, y)"
    and s: "Some s \<in> set (elems (domains sds))" "\<exists>data. domain s = Some data \<and> domainName data = d"
    using assms by (auto simp: answered_def split: outcome.splits option.splits prod.splits)
  obtain raw ds where "filter_signed u raw = Return ds" "elems (domains sds) = ds"
    using z by (auto simp: zmsGetSignedDomains_def Let_def split: prod.splits option.splits if_splits)
  then have "list_all2 (\<lambda>sd sd'. \<exists>s d. sd = Some s \<and> FilterMSDRules u (domain s) = Return d \<and>
      sd' = Some (s\<lparr>domain := d\<rparr>)) raw (elems (domains sds))"
    by (auto dest: filter_signed_Return)
  then obtain s0 d0 where "FilterMSDRules u (domain s0) = Return d0" "s = s0\<lparr>domain := d0\<rparr>"
    using s(1) by (auto simp: list_all2_conv_all_nth in_set_conv_nth)
  with s(2) show ?thesis
    by (auto dest: FilterMSDRules_fixed)
qed

section \<open>The retry decision\<close>

text \<open>
  The queue's counters obey the laws of a rate limiter.  Then the worker's decision after a
  failed synchronisation can be read off the counter of the domain.
\<close>

locale retrying_queue =
  rate_limiter when' forget requeues + limited_queue E when' forget requeues limiter_of clock
  for when' :: "int \<Rightarrow> string \<Rightarrow> 'r \<Rightarrow> int \<times> 'r" and forget requeues
    and E :: "('w, 'x) env" and limiter_of clock
begin

lemma retry_step:
  assumes "sync E u d w = (Return (Some e), w1)"
  shows "process_key E u (KeyString d) w =
      (Return True, if requeues d (limiter_of w1) < 3 then q_AddRateLimited E d w1
                    else q_Forget E (KeyString d) w1)"
  using assms by (simp add: process_key_def workerQueueRetry_def num_limited)

lemma retry_counts:
  assumes "sync E u d w = (Return (Some e), w1)"
  shows "requeues x (limiter_of (snd (process_key E u (KeyString d) w))) =
    (if x \<noteq> d then requeues x (limiter_of w1)
     else if requeues d (limiter_of w1) < 3 then wrap64 (requeues d (limiter_of w1) + 1)
     else 0)"
  by (simp add: retry_step [OF assms] add_limited forget_limited requeues_when requeues_forget)

lemma budget_spent:
  assumes "sync E u d w = (Return (Some e), w1)"
    and "limiter_of w1 = offers cs (forget d r)"
    and "3 \<le> length (filter (\<lambda>c. snd c = d) cs)" "int (length cs) \<le> max_int64"
  shows "process_key E u (KeyString d) w = (Return True, q_Forget E (KeyString d) w1)"
  using requeues_after_forget [OF assms(4), of d r] assms(2,3) by (simp add: retry_step [OF assms(1)])

end

section \<open>The worker loop\<close>

text \<open>
  The worker loop from \<open>w\<close> ends in \<open>w'\<close>: it processes items until the queue reports
  that it was shut down.
\<close>

inductive drained :: "('w, 'x) env \<Rightarrow> Util \<Rightarrow> 'w \<Rightarrow> 'w \<Rightarrow> bool" for E u where
  quit: "q_Get E w = ((k, True), w') \<Longrightarrow> drained E u w w'"
| next_item: "q_Get E w = ((k, False), w1) \<Longrightarrow> process_key E u k w1 = (Return b, w2) \<Longrightarrow>
    drained E u (q_Done E k w2) w' \<Longrightarrow> drained E u w w'"

lemma process_key_continues: "fst (process_key E u k w) = Return b \<Longrightarrow> b"
  by (auto simp: process_key_def split: queue_key.splits prod.splits outcome.splits)

lemma processNextItem_cases:
  obtains (quit) k w' where "q_Get E w = ((k, True), w')" "processNextItem E u w = (Return False, w')"
  | (item) k w1 r w2 where "q_Get E w = ((k, False), w1)" "process_key E u k w1 = (r, w2)"
      "processNextItem E u w = (r, q_Done E k w2)" "\<And>b. r = Return b \<Longrightarrow> b"
proof -
  obtain k q w1 where g: "q_Get E w = ((k, q), w1)" by (metis prod.exhaust)
  obtain r w2 where p: "process_key E u k w1 = (r, w2)" by fastforce
  show ?thesis
  proof (cases q)
    case True
    with g show ?thesis by (intro that(1)) (auto simp: processNextItem_def)
  next
    case False
    have "b" if "r = Return b" for b
      using process_key_continues [of E u k w1 b] p that by simp
    with False g p show ?thesis by (intro that(2)) (auto simp: processNextItem_def)
  qed
qed

lemma runWorker_drained:
  assumes "runWorker E u w = Some r"
  shows "fst r = Return () \<longrightarrow> drained E u w (snd r)"
proof (rule runWorker.raw_induct [OF _ assms])
  fix run E u w r
  assume IH: "\<And>E u w r. run E u w = Some r \<Longrightarrow> fst r = Return () \<longrightarrow> drained E u w (snd r)"
    and body: "(case processNextItem E u w of
        (Panic p, w') \<Rightarrow> Some (Panic p, w')
      | (Return again, w') \<Rightarrow> if again then run E u w' else Some (Return (), w')) = Some r"
  show "fst r = Return () \<longrightarrow> drained E u w (snd r)"
  proof (cases rule: processNextItem_cases [of E w u])
    case quit
    with body show ?thesis by (auto intro: drained.quit)
  next
    case (item k w1 b w2)
    show ?thesis
    proof (cases b)
      case (Return b')
      with item(4) have "b = Return True" by simp
      with item body have "run E u (q_Done E k w2) = Some r" by simp
      with item \<open>b = Return True\<close> show ?thesis by (auto intro: drained.next_item dest: IH)
    qed (use body item in auto)
  qed
qed

lemma drained_runWorker: "drained E u w w' \<Longrightarrow> runWorker E u w = Some (Return (), w')"
proof (induction rule: drained.induct)
  case (next_item w k w1 b w2 w')
  then have "b" using process_key_continues [of E u k w1 b] by simp
  with next_item show ?case by (subst runWorker.simps) (simp add: processNextItem_def)
qed (subst runWorker.simps, simp add: processNextItem_def)

lemma runWorker_iff_drained: "runWorker E u w = Some (Return (), w') \<longleftrightarrow> drained E u w w'"
  using runWorker_drained [of E u w "(Return (), w')"] drained_runWorker [of E u w w'] by auto

end
