(* ===== verification/Cluster.thy ===== *)
theory Cluster
  imports Controller
begin

text \<open>
  A concrete environment in which the controller can run: an in-memory API server with
  resource versions, informer caches, a ZMS that answers from a table, config maps, and a work
  queue that is drained and then shut down and that uses the rate limiter of
  \<^verbatim>\<open>pkg/ratelimiter\<close>.  It models no file of the repository; it shows that the laws of
  the environment can be met together, and the witnesses run the components on it.
\<close>

section \<open>The environment\<close>

record 'x cluster =
  objects :: "(string \<times> 'x AthenzDomain) list"
  nextVersion :: nat
  crCache :: "(string \<times> 'x obj) list"
  namespaces :: "string list"
  zmsTable :: "string \<Rightarrow> 'x SignedDomains option \<times> string \<times> err option"
  zmsRoles :: "(string \<times> string) list" \<comment> \<open>domain and name of the roles that can be deleted\<close>
  configMaps :: "string \<times> string \<Rightarrow> ConfigMap option"
  ready :: "queue_key list"
  shutting :: bool
  limiter' :: RateLimiter
  clock' :: int

abbreviation cluster_crs :: "'x cluster \<Rightarrow> string \<Rightarrow> 'x AthenzDomain option" where
  "cluster_crs w \<equiv> map_of (objects w)"

definition store_object :: "'x AthenzDomain \<Rightarrow> 'x cluster \<Rightarrow> 'x AthenzDomain \<times> 'x cluster" where
  "store_object b w =
     (let c = b\<lparr>objectMeta := (objectMeta b)\<lparr>resourceVersion := digits (nextVersion w)\<rparr>\<rparr>
      in (c, w\<lparr>objects := (name (objectMeta b), c) # objects w, nextVersion := Suc (nextVersion w)\<rparr>))"

definition cluster_Into ::
    "'x AthenzDomain \<Rightarrow> 'x request \<Rightarrow> 'x cluster \<Rightarrow> ('x AthenzDomain \<times> err option) \<times> 'x cluster" where
  \<comment> \<open>\<open>z\<close> is what an error leaves in the result\<close>
  "cluster_Into z r w =
     (case (verb r, body r) of
        (POST, DomainBody b) \<Rightarrow>
          (if cluster_crs w (name (objectMeta b)) \<noteq> None then ((z, Some (Status AlreadyExists)), w)
           else let (c, w) = store_object b w in ((c, None), w))
      | (PUT, DomainBody b) \<Rightarrow>
          (case cluster_crs w (name (objectMeta b)) of
             None \<Rightarrow> ((z, Some (Status NotFound)), w)
           | Some old \<Rightarrow>
               (if resourceVersion (objectMeta b) \<noteq> [] \<and>
                   resourceVersion (objectMeta b) \<noteq> resourceVersion (objectMeta old)
                then ((z, Some (Status Conflict)), w)
                else let (c, w) = store_object b w in ((c, None), w)))
      | (GET, _) \<Rightarrow>
          (case resourceName r of
             None \<Rightarrow> ((z, Some (Status NotFound)), w)
           | Some n \<Rightarrow>
               (case cluster_crs w n of
                  None \<Rightarrow> ((z, Some (Status NotFound)), w) | Some c \<Rightarrow> ((c, None), w)))
      | _ \<Rightarrow> ((z, Some (Status (OtherReason ''MethodNotAllowed''))), w))"

definition cluster_Error :: "'x request \<Rightarrow> 'x cluster \<Rightarrow> err option \<times> 'x cluster" where
  "cluster_Error r w =
     (case (verb r, resourceName r) of
        (DELETE, Some n) \<Rightarrow>
          (if cluster_crs w n = None then (Some (Status NotFound), w)
           else (None, w\<lparr>objects := filter (\<lambda>p. fst p \<noteq> n) (objects w)\<rparr>))
      | _ \<Rightarrow> (Some (Status (OtherReason ''MethodNotAllowed'')), w))"

text \<open>After its shutdown the queue still asks the limiter but takes no further key.\<close>

definition cluster_add :: "string \<Rightarrow> 'x cluster \<Rightarrow> 'x cluster" where
  "cluster_add d w =
     w\<lparr>limiter' := snd (When (clock' w) d (limiter' w)),
       ready := (if shutting w \<or> KeyString d \<in> set (ready w) then ready w else ready w @ [KeyString d])\<rparr>"

definition cluster_forget :: "queue_key \<Rightarrow> 'x cluster \<Rightarrow> 'x cluster" where
  "cluster_forget k w =
     (case k of KeyString d \<Rightarrow> w\<lparr>limiter' := Forget d (limiter' w)\<rparr> | KeyOther \<Rightarrow> w)"

definition cluster_get :: "'x cluster \<Rightarrow> (queue_key \<times> bool) \<times> 'x cluster" where
  "cluster_get w =
     (case ready w of [] \<Rightarrow> ((KeyOther, True), w) | k # ks \<Rightarrow> ((k, False), w\<lparr>ready := ks\<rparr>))"

definition cluster_env :: "'x AthenzDomain \<Rightarrow> ('x cluster, 'x) env" where
  "cluster_env z =
     \<lparr>copiers = \<lparr>copySpec = Some, copyObjectMeta = id, copyListMeta = id\<rparr>,
      rest_Into = cluster_Into z,
      rest_IntoList = (\<lambda>r w. ((\<lparr>listTypeMeta = ([], []), listMeta = [],
         items = Some (map snd (objects w))\<rparr>, None), w)),
      rest_Error = cluster_Error,
      rest_Watch = (\<lambda>r w. (None, w)),
      cr_GetByKey = (\<lambda>w k. (map_of (crCache w) k, None)),
      cr_List = (\<lambda>w. map snd (crCache w)),
      cr_ByIndex = (\<lambda>w key v. (filter (\<lambda>ob. v \<in> set (trust_index ob)) (map snd (crCache w)), None)),
      cr_ListIndexFuncValues = (\<lambda>w key. remdups (concat (map (\<lambda>p. trust_index (snd p)) (crCache w)))),
      ns_GetByKey = (\<lambda>w k. (if k \<in> set (namespaces w) then Some (ObjNamespace (Some k)) else None, None)),
      ns_List = (\<lambda>w. map (\<lambda>n. ObjNamespace (Some n)) (namespaces w)),
      cm_Get = (\<lambda>ns n w. (case configMaps w (ns, n) of
          None \<Rightarrow> (None, Some (Status NotFound)) | Some cm \<Rightarrow> (Some cm, None), w)),
      cm_Create = (\<lambda>ns cm w. ((Some cm, None), w\<lparr>configMaps := (configMaps w)((ns, cmName cm) \<mapsto> cm)\<rparr>)),
      cm_Update = (\<lambda>ns cm w. ((Some cm, None), w\<lparr>configMaps := (configMaps w)((ns, cmName cm) \<mapsto> cm)\<rparr>)),
      zms_GetSignedDomains = (\<lambda>d metaOnly metaAttr master conditions tag w. (zmsTable w d, w)),
      q_AddRateLimited = cluster_add,
      q_NumRequeues = (\<lambda>d w. NumRequeues d (limiter' w)),
      q_Forget = cluster_forget,
      q_Get = cluster_get,
      q_Done = (\<lambda>k w. w),
      q_ShutDown = (\<lambda>w. w\<lparr>shutting := True\<rparr>),
      error_text = (\<lambda>e. ''error'')\<rparr>"

section \<open>It satisfies the laws\<close>

lemma cluster_env_simps [simp]:
  "copiers (cluster_env z) = \<lparr>copySpec = Some, copyObjectMeta = id, copyListMeta = id\<rparr>"
  "cr_GetByKey (cluster_env z) w k = (map_of (crCache w) k, None)"
  "cr_List (cluster_env z) w = map snd (crCache w)"
  "cr_ByIndex (cluster_env z) w key v =
     (filter (\<lambda>ob. v \<in> set (trust_index ob)) (map snd (crCache w)), None)"
  "cr_ListIndexFuncValues (cluster_env z) w key =
     remdups (concat (map (\<lambda>p. trust_index (snd p)) (crCache w)))"
  "ns_GetByKey (cluster_env z) w k =
     (if k \<in> set (namespaces w) then Some (ObjNamespace (Some k)) else None, None)"
  "ns_List (cluster_env z) w = map (\<lambda>n. ObjNamespace (Some n)) (namespaces w)"
  "zms_GetSignedDomains (cluster_env z) d m a mst cnd t w = (zmsTable w d, w)"
  "q_AddRateLimited (cluster_env z) = cluster_add"
  "q_NumRequeues (cluster_env z) d w = NumRequeues d (limiter' w)"
  "q_Forget (cluster_env z) = cluster_forget"
  "q_Get (cluster_env z) = cluster_get"
  "q_Done (cluster_env z) qk w = w"
  "q_ShutDown (cluster_env z) w = w\<lparr>shutting := True\<rparr>"
  by (simp_all add: cluster_env_def)

lemma cluster_add_simps [simp]:
  "objects (cluster_add d w) = objects w"
  "crCache (cluster_add d w) = crCache w"
  "namespaces (cluster_add d w) = namespaces w"
  "zmsTable (cluster_add d w) = zmsTable w"
  "shutting (cluster_add d w) = shutting w"
  by (simp_all add: cluster_add_def)

lemma map_of_filter_other [simp]:
  "map_of (filter (\<lambda>p. fst p \<noteq> n) xs) = (map_of xs)(n := None)"
  by (induction xs) (auto simp: fun_eq_iff)

lemma store_object_cases:
  obtains c w' where "store_object b w = (c, w')" "stored_as b c"
    "cluster_crs w' = (cluster_crs w)(name (objectMeta b) \<mapsto> c)"
  by (auto simp: store_object_def stored_as_def Let_def)

lemma cluster_Create:
  "client_Create (cluster_env z) b opts w =
     (if cluster_crs w (name (objectMeta b)) \<noteq> None then ((z, Some (Status AlreadyExists)), w)
      else let (c, w) = store_object b w in ((c, None), w))"
  by (simp add: client_Create_def cluster_env_def cluster_Into_def)

lemma cluster_Update:
  "client_Update (cluster_env z) b opts w =
     (case cluster_crs w (name (objectMeta b)) of
        None \<Rightarrow> ((z, Some (Status NotFound)), w)
      | Some old \<Rightarrow>
          (if resourceVersion (objectMeta b) \<noteq> [] \<and>
              resourceVersion (objectMeta b) \<noteq> resourceVersion (objectMeta old)
           then ((z, Some (Status Conflict)), w)
           else let (c, w) = store_object b w in ((c, None), w)))"
  by (simp add: client_Update_def cluster_env_def cluster_Into_def)

lemma cluster_Delete:
  "client_Delete (cluster_env z) n opts w =
     (if cluster_crs w n = None then (Some (Status NotFound), w)
      else (None, w\<lparr>objects := filter (\<lambda>p. fst p \<noteq> n) (objects w)\<rparr>))"
  by (simp add: client_Delete_def cluster_env_def cluster_Error_def)

lemma cluster_Create_result:
  assumes "client_Create (cluster_env z) b opts w = ((res, e), w')"
  shows "(e = None \<and> cluster_crs w (name (objectMeta b)) = None \<and> stored_as b res \<and>
          cluster_crs w' = (cluster_crs w)(name (objectMeta b) \<mapsto> res)) \<or>
         (e = Some (Status AlreadyExists) \<and> w' = w)"
  using assms by (cases rule: store_object_cases [of b w]) (auto simp: cluster_Create split: if_splits)

lemma cluster_Update_result:
  assumes "client_Update (cluster_env z) b opts w = ((res, e), w')"
  shows "(e = None \<and> stored_as b res \<and>
          cluster_crs w' = (cluster_crs w)(name (objectMeta b) \<mapsto> res) \<and>
          (\<exists>old. cluster_crs w (name (objectMeta b)) = Some old \<and>
            (resourceVersion (objectMeta b) = [] \<or>
             resourceVersion (objectMeta b) = resourceVersion (objectMeta old)))) \<or>
         (e \<noteq> None \<and> w' = w)"
  using assms
  by (cases rule: store_object_cases [of b w]) (auto simp: cluster_Update split: if_splits option.splits)

interpretation cluster: domain_server "cluster_env z" cluster_crs for z
proof (unfold_locales, goal_cases)
  case (1 b opts w res w')
  from cluster_Create_result [OF this] show ?case by auto
next
  case (2 w b opts res e w')
  from cluster_Create_result [OF 2(2)] 2(1) show ?case by auto
next
  case (3 b opts w res e w')
  from cluster_Create_result [OF this] show ?case by blast
next
  case (4 b opts w res s w')
  from cluster_Create_result [OF this] show ?case by auto
next
  case (5 b opts w res w')
  from cluster_Update_result [OF this] show ?case by auto
next
  case (6 b opts w res e w')
  from cluster_Update_result [OF this] show ?case by blast
next
  case (7 b opts w res s w')
  from cluster_Update_result [OF this] show ?case by auto
qed (auto simp: cluster_Delete split: if_splits)

interpretation cluster: cr_indexer "cluster_env z" trustDomainIndexKey trust_index for z
  by unfold_locales auto

interpretation cluster: limited_queue "cluster_env z" When Forget NumRequeues limiter' clock' for z
  by unfold_locales (simp_all add: cluster_add_def cluster_forget_def)

interpretation cluster: retrying_queue When Forget NumRequeues "cluster_env z" limiter' clock' for z
  by unfold_locales

interpretation cluster: quiet_queue "cluster_env z" for z
  by unfold_locales (simp_all add: fun_eq_iff)

text \<open>A retrier that gives up after a fixed number of attempts.\<close>

fun retry_upto :: "nat \<Rightarrow> ('c, 'w) retrier" where
  "retry_upto 0 b oper s = oper s"
| "retry_upto (Suc n) b oper s =
     (case oper s of (Return (Some e), s') \<Rightarrow> retry_upto n b oper s' | r \<Rightarrow> r)"

interpretation cluster: retry_notify "retry_upto n" for n
proof
  show "retried oper s (retry_upto n b oper s)" for oper s b
  proof (induction n arbitrary: s)
    case (Suc n)
    have "retried oper s (oper s)" by (rule retried.last_try)
    with Suc show ?case
      by (auto split: prod.splits outcome.splits option.splits intro: retried.next_try)
  qed (simp add: retried.last_try)
qed

lemma cluster_copiers: "faithful_copiers (copiers (cluster_env z))"
  by (simp add: faithful_copiers_def)

lemma cluster_available: "server_available (cluster_env z) cluster_crs w"
  by (auto simp: server_available_def cluster_Create cluster_Update split: prod.split)

text \<open>The informer has caught up: its cache is the list of stored objects.\<close>

definition informer_sync :: "'x cluster \<Rightarrow> 'x cluster" where
  "informer_sync w = w\<lparr>crCache := map (\<lambda>(n, c). (n, ObjAthenzDomain (Some c))) (objects w)\<rparr>"

lemma informer_sync_current: "cache_current (cluster_env z) cluster_crs (informer_sync w) d"
  by (simp add: cache_current_def informer_sync_def map_of_map)

section \<open>A small world\<close>

text \<open>
  One namespace, whose domain ZMS knows; the domain delegates one role to a parent domain that
  ZMS does not know.
\<close>

definition demo_data :: "unit DomainData" where
  "demo_data =
     \<lparr>domainName = ''home.domain'',
      roles = Some [Some \<lparr>roleName = ''home.domain:role.admin'', roleTrust = [], roleRest = ()\<rparr>,
                    Some \<lparr>roleName = ''home.domain:role.trust'', roleTrust = ''parent.domain'', roleRest = ()\<rparr>],
      domainPolicies = Some \<lparr>contents = Some \<lparr>policiesDomain = ''home.domain'', policies = Some []\<rparr>,
                             policiesSignature = ''signature-policy'', policiesKeyId = ''col-env-1.1''\<rparr>,
      modified = 1561145289305000000, domainRest = ()\<rparr>"

definition demo_signed :: "unit SignedDomain" where
  "demo_signed = \<lparr>domain = Some demo_data, signature = ''signature'', keyId = ''colo-env-1.1''\<rparr>"

definition demo_zms :: "string \<Rightarrow> unit SignedDomains option \<times> string \<times> err option" where
  "demo_zms d = (Some \<lparr>domains = Some (if d = ''home.domain'' \<or> d = [] then [Some demo_signed] else [])\<rparr>,
     ''2019-07-05T21:53:45Z'', None)"

definition demo_world :: "unit cluster" where
  "demo_world =
     \<lparr>objects = [], nextVersion = 1, crCache = [], namespaces = [''home-domain''],
      zmsTable = demo_zms, zmsRoles = [], configMaps = Map.empty, ready = [], shutting = False,
      limiter' = NewRateLimiter 0 250000000, clock' = 0\<rparr>"

definition demo_util :: Util where
  "demo_util = NewUtil ''admin.domain'' [''kube-system''] [''acceptance-test''] False"

definition demo_zero :: "unit AthenzDomain" where
  "demo_zero = new_cr [] demo_signed"

abbreviation demo_env :: "(unit cluster, unit) env" where
  "demo_env \<equiv> cluster_env demo_zero"

lemma demo_world_simps [simp]:
  "objects demo_world = []" "crCache demo_world = []" "namespaces demo_world = [''home-domain'']"
  "zmsTable demo_world = demo_zms" "ready demo_world = []" "\<not> shutting demo_world"
  "configMaps demo_world = Map.empty"
  by (simp_all add: demo_world_def)

lemma demo_signed_simps [simp]:
  "domain demo_signed = Some demo_data" "domainName demo_data = ''home.domain''"
  "comparable \<lparr>signedDomain = demo_signed\<rparr>"
  "demo_signed\<lparr>domain := Some demo_data\<rparr> = demo_signed"
  "\<exists>sp. domainPolicies demo_data = Some sp"
  by (simp_all add: demo_signed_def demo_data_def comparable_def)

lemma demo_util_simps [simp]:
  "adminDomain demo_util = ''admin.domain''" "systemNamespaces demo_util = [''kube-system'']"
  "excludeMSDRules demo_util = False"
  "IsNamespaceExcluded demo_util ns \<longleftrightarrow> ns = ''acceptance-test''"
  by (simp_all add: demo_util_def IsNamespaceExcluded_NewUtil)

lemma demo_namespace [simp]: "DomainToNamespace demo_util ''home.domain'' = ''home-domain''"
  by (simp add: DomainToNamespace_plain HasPrefix_def dash_out_def)

lemma demo_domain [simp]: "NamespaceToDomain demo_util ''home-domain'' = ''home.domain''"
  by (simp add: NamespaceToDomain_plain dot_in_def ReplaceAll_pair_simps)

lemma demo_mappable: "mappable demo_util ''home-domain''"
  by (simp add: mappable_def HasPrefix_def)

lemma demo_valid [simp]:
  "namespaces w = [''home-domain''] \<Longrightarrow> ValidateDomain demo_env demo_util ''home.domain'' w"
  by (simp add: ValidateDomain_iff)

end
