(* ===== verification/CR_Properties.thy ===== *)
theory CR_Properties
  imports Cluster
begin

text \<open>
  The properties of \<^verbatim>\<open>pkg/cr\<close>, against the laws of the API server and of the
  informer's indexer, each with a run in the small world of \<^verbatim>\<open>Cluster\<close>.
\<close>

text \<open>
  C10.  When creating or updating a domain's custom resource reports the object that it
  wrote, the API server holds that object under the domain's name, with exactly the signed
  data of ZMS and an empty error message, and no other object has changed.
\<close>

theorem CreateUpdate_stores_zms_data:
  assumes "domain_server E crs"
    and "CreateUpdateAthenzDomain E dn (Some sd) w = (Return (Some cr, None), w')"
  shows "crs w' dn = Some cr \<and> signedDomain (spec cr) = sd \<and> message (status cr) = [] \<and>
    (\<forall>n. n \<noteq> dn \<longrightarrow> crs w' n = crs w n)"
  using domain_server.createUpdate_written [OF assms]
    may_store_other [OF domain_server.createUpdate_effect [OF assms]] by blast

lemma demo_create:
  "CreateUpdateAthenzDomain demo_env ''home.domain'' (Some demo_signed) demo_world =
     (let (c, w) = store_object (new_cr ''home.domain'' demo_signed) demo_world
      in (Return (Some c, None), w))"
  by (simp add: CreateUpdateAthenzDomain_def GetCRByName_def cluster_Create split_beta Let_def)

lemma CreateUpdate_stores_zms_data_witness:
  "\<exists>cr w'. CreateUpdateAthenzDomain demo_env ''home.domain'' (Some demo_signed) demo_world
       = (Return (Some cr, None), w') \<and>
     cluster_crs w' ''home.domain'' = Some cr \<and> signedDomain (spec cr) = demo_signed"
proof -
  obtain cr w' where "store_object (new_cr ''home.domain'' demo_signed) demo_world = (cr, w')"
    by fastforce
  then have c: "CreateUpdateAthenzDomain demo_env ''home.domain'' (Some demo_signed) demo_world
      = (Return (Some cr, None), w')"
    by (simp add: demo_create)
  show ?thesis
    using c CreateUpdate_stores_zms_data [OF cluster.domain_server_axioms c] by blast
qed

text \<open>
  An existing custom resource is left alone, with no request to the API server,
  exactly when it equals the data of ZMS up to the two signatures and carries no error message;
  in every other case the update is sent.
\<close>

theorem update_skipped_iff:
  assumes "faithful_copiers (copiers E)"
    and "fst (cr_GetByKey E w dn) = Some (ObjAthenzDomain (Some obj))"
    and "comparable (spec obj)" and "comparable \<lparr>signedDomain = sd\<rparr>"
  shows "CreateUpdateAthenzDomain E dn (Some sd) w = (Return (None, None), w) \<longleftrightarrow>
    unsigned (spec obj) = unsigned \<lparr>signedDomain = sd\<rparr> \<and> message (status obj) = []"
proof -
  have "CreateUpdateAthenzDomain E dn (Some sd) w = updateCR E (Some obj) (Some (new_cr dn sd)) w"
    by (simp add: CreateUpdateAthenzDomain_def GetCRByName_present [OF assms(2)])
  moreover have "status obj = status (new_cr dn sd) \<longleftrightarrow> message (status obj) = []"
    by (cases "status obj") (simp add: new_cr_def)
  ultimately show ?thesis
    using assms(3,4)
    by (auto simp: updateCR_eq [OF assms(1)] up_to_date_def Let_def split: prod.splits)
qed

lemma update_skipped_iff_witness:
  "CreateUpdateAthenzDomain demo_env ''home.domain'' (Some (demo_signed\<lparr>signature := ''other''\<rparr>))
     (demo_world\<lparr>crCache := [(''home.domain'', ObjAthenzDomain (Some (new_cr ''home.domain'' demo_signed)))]\<rparr>)
   = (Return (None, None),
      demo_world\<lparr>crCache := [(''home.domain'', ObjAthenzDomain (Some (new_cr ''home.domain'' demo_signed)))]\<rparr>)"
  by (subst update_skipped_iff [where obj = "new_cr ''home.domain'' demo_signed"])
    (simp_all add: faithful_copiers_def comparable_def unsigned_def demo_data_def demo_signed_def)

text \<open>
  Removing a domain whose cache entry is current, when it reports no error, leaves the API
  server without the domain's custom resource and with all the others.
\<close>

theorem Remove_deletes:
  assumes "domain_server E crs" and "cache_current E crs w dn"
    and "RemoveAthenzDomain E dn w = (None, w')"
  shows "crs w' = (crs w)(dn := None)"
  using domain_server.remove_gone [OF assms(1,3,2)] .

lemma Remove_deletes_witness:
  "\<exists>w'. RemoveAthenzDomain demo_env ''home.domain''
       (informer_sync (demo_world\<lparr>objects := [(''home.domain'', new_cr ''home.domain'' demo_signed)]\<rparr>))
         = (None, w') \<and> cluster_crs w' ''home.domain'' = None"
proof -
  let ?w = "informer_sync (demo_world\<lparr>objects := [(''home.domain'', new_cr ''home.domain'' demo_signed)]\<rparr>)"
  obtain w' where r: "RemoveAthenzDomain demo_env ''home.domain'' ?w = (None, w')"
    by (simp add: RemoveAthenzDomain_def GetCRByName_def cluster_Delete informer_sync_def)
  show ?thesis
    using r Remove_deletes [OF cluster.domain_server_axioms informer_sync_current r] by auto
qed

text \<open>
  A domain counts as a trust domain exactly when some cached AthenzDomain delegates a role
  to it; the empty name never does.
\<close>

theorem IsTrustDomain_iff_delegated:
  assumes "cr_indexer E trustDomainIndexKey trust_index" and "list_all indexable (cr_List E w)"
  shows "IsTrustDomain E dn w \<longleftrightarrow> dn \<noteq> [] \<and> (\<exists>ob \<in> set (cr_List E w). trusts ob dn)"
  using assms by (rule IsTrustDomain_iff)

definition demo_cached :: "unit cluster" where
  "demo_cached = demo_world\<lparr>crCache := [(''home.domain'', ObjAthenzDomain (Some (new_cr ''home.domain'' demo_signed)))]\<rparr>"

lemma IsTrustDomain_iff_delegated_witness:
  "IsTrustDomain demo_env ''parent.domain'' demo_cached \<and> \<not> IsTrustDomain demo_env ''home.domain'' demo_cached"
proof -
  have "list_all indexable (cr_List demo_env demo_cached)"
    by (simp add: demo_cached_def indexable_def demo_data_def)
  note iff = IsTrustDomain_iff_delegated [OF cluster.cr_indexer_axioms this]
  show ?thesis
    by (simp only: iff) (simp add: demo_cached_def trusts_list_ex demo_data_def)
qed

text \<open>
  The initial etag is the latest modification time of the cached domains, printed to the
  second; it is empty exactly when no domain was modified later than the first second of the
  epoch, in particular when there is no domain.
\<close>

theorem GetLatestTimestamp_latest:
  assumes "mtimes (cr_List E w) = Some ts"
  shows "GetLatestTimestamp E w =
    Return (if fold max ts 0 < 10 ^ 9 then [] else format_RFC3339 (fold max ts 0))"
  using assms by (rule GetLatestTimestamp_eq)

lemma GetLatestTimestamp_latest_witness:
  "GetLatestTimestamp demo_env demo_cached = Return (format_RFC3339 1561145289305000000)"
  by (subst GetLatestTimestamp_latest [where ts = "[1561145289305000000]"])
    (simp_all add: demo_cached_def demo_data_def)

end
