(* ===== verification/Cron_Properties.thy ===== *)
theory Cron_Properties
  imports CR_Properties
begin

text \<open>
  The properties of \<^verbatim>\<open>pkg/cron\<close>: which domains are valid, what the update cron
  and the full resync put on the queue, and how the etag and the contact time move.
\<close>

section \<open>The config map laws\<close>

text \<open>
  \<open>cms\<close> reads the config maps that the API server holds, by namespace and name.
\<close>

locale configmap_server =
  fixes E :: "('w, 'x) env"
    and cms :: "'w \<Rightarrow> string \<times> string \<Rightarrow> ConfigMap option"
  assumes get_read: "cm_Get E ns n w = ((r, e), w') \<Longrightarrow> cms w' = cms w"
    and get_found: "cm_Get E ns n w = ((r, None), w') \<Longrightarrow> r = cms w (ns, n) \<and> r \<noteq> None"
    and create_cm: "cm_Create E ns cm w = ((r, None), w') \<Longrightarrow> cms w' = (cms w)((ns, cmName cm) \<mapsto> cm)"
    and update_cm: "cm_Update E ns cm w = ((r, None), w') \<Longrightarrow> cms w' = (cms w)((ns, cmName cm) \<mapsto> cm)"
begin

lemma contact_time_recorded:
  assumes "snd (fst (cm_Get E (cmNamespace (contactTimeCm c)) (cmMapName (contactTimeCm c)) w))
      \<in> {None, Some (Status NotFound)}"
    and "\<And>cm w. snd (fst (cm_Create E (cmNamespace (contactTimeCm c)) cm w)) = None"
    and "\<And>cm w. snd (fst (cm_Update E (cmNamespace (contactTimeCm c)) cm w)) = None"
  shows "cms (UpdateAthenzContactTime E c tag w) =
    (cms w)((cmNamespace (contactTimeCm c), cmMapName (contactTimeCm c)) \<mapsto>
       \<lparr>cmName = cmMapName (contactTimeCm c), cmData = [cmKey (contactTimeCm c) \<mapsto> tag]\<rparr>)"
proof -
  let ?cm = "contactTimeCm c"
  let ?new = "\<lparr>cmName = cmMapName ?cm, cmData = [cmKey ?cm \<mapsto> tag]\<rparr>"
  obtain r e w1 where g: "cm_Get E (cmNamespace ?cm) (cmMapName ?cm) w = ((r, e), w1)"
    by (metis prod.exhaust)
  note frame = get_read [OF g]
  show ?thesis
  proof (cases e)
    case None
    then have "r \<noteq> None" using get_found g by blast
    obtain r2 w2 where "cm_Update E (cmNamespace ?cm) ?new w1 = ((r2, None), w2)"
      using assms(3) [of ?new w1] by (metis prod.collapse)
    with g None \<open>r \<noteq> None\<close> frame show ?thesis
      using update_cm by (fastforce simp: UpdateAthenzContactTime_def Let_def)
  next
    case (Some er)
    then have "er = Status NotFound" using assms(1) g by simp
    obtain r2 w2 where "cm_Create E (cmNamespace ?cm) ?new w1 = ((r2, None), w2)"
      using assms(2) [of ?new w1] by (metis prod.collapse)
    with g Some \<open>er = Status NotFound\<close> frame show ?thesis
      using create_cm by (fastforce simp: UpdateAthenzContactTime_def Let_def)
  qed
qed

end

interpretation cluster: configmap_server "cluster_env z" configMaps for z
  by unfold_locales (auto simp: cluster_env_def split: option.splits dest: sym)

section \<open>Valid domains\<close>

text \<open>
  C19.  A domain is synchronised exactly when its namespace is in the cluster, or it is the admin
  domain, or a cached AthenzDomain delegates a role to it.  System domains have no case of their own,
  although the comment of \<^verbatim>\<open>ValidateDomain\<close> and the message of \<^verbatim>\<open>sync\<close>
  list them: a system domain whose namespace is not in the cluster is not valid for that reason.
\<close>

theorem ValidateDomain_correct:
  assumes "cr_indexer E trustDomainIndexKey trust_index" and "list_all indexable (cr_List E w)"
  shows "ValidateDomain E u d w \<longleftrightarrow>
    fst (ns_GetByKey E w (DomainToNamespace u d)) \<noteq> None \<or> d = adminDomain u \<or>
    d \<noteq> [] \<and> (\<exists>ob \<in> set (cr_List E w). trusts ob d)"
  by (simp add: ValidateDomain_iff IsTrustDomain_iff [OF assms])

lemma ValidateDomain_correct_witness:
  "ValidateDomain demo_env demo_util ''parent.domain'' demo_cached \<and>
   \<not> ValidateDomain demo_env demo_util ''other.domain'' demo_cached"
proof -
  have "list_all indexable (cr_List demo_env demo_cached)"
    by (simp add: demo_cached_def indexable_def demo_data_def)
  note iff = ValidateDomain_correct [OF cluster.cr_indexer_axioms this]
  have "DomainToNamespace demo_util ''other.domain'' = ''other-domain''"
    by (simp add: DomainToNamespace_plain HasPrefix_def dash_out_def)
  then show ?thesis
    by (simp only: iff) (simp add: demo_cached_def trusts_list_ex demo_data_def)
qed

text \<open>
  The domain of every mappable namespace of the cluster, system namespaces included, is
  valid: what the namespace informer and the resync put on the queue is not removed again.
\<close>

theorem namespace_domains_are_valid:
  assumes "mappable u ns" and "fst (ns_GetByKey E w ns) \<noteq> None"
  shows "ValidateDomain E u (NamespaceToDomain u ns) w"
  using assms by (rule ValidateDomain_namespace)

lemma namespace_domains_are_valid_witness:
  "ValidateDomain demo_env demo_util (NamespaceToDomain demo_util ''home-domain'') demo_world"
  by (rule namespace_domains_are_valid [OF demo_mappable]) simp

text \<open>
  A namespace whose domain starts with the letters of the admin domain but is no subdomain
  of it is not valid, although it exists: the domain is translated to itself, which has a dot and
  is no namespace.
\<close>

theorem admin_sibling_namespace_invalid:
  assumes "NamespaceToDomain u ns = adminDomain u @ c # rest"
    and "adminDomain u \<noteq> []" and "c \<noteq> CHR ''.''"
    and "fst (ns_GetByKey E w (NamespaceToDomain u ns)) = None"
    and "\<not> IsTrustDomain E (NamespaceToDomain u ns) w"
  shows "\<not> ValidateDomain E u (NamespaceToDomain u ns) w"
proof -
  have "\<not> HasPrefix (adminDomain u @ c # rest) (adminDomain u @ ''.'')"
    using assms(3) by (simp add: HasPrefix_def)
  then have "DomainToNamespace u (NamespaceToDomain u ns) = NamespaceToDomain u ns"
    using assms(1,2) by (simp add: DomainToNamespace_def TrimPrefix_def)
  then show ?thesis
    using assms by (simp add: ValidateDomain_iff)
qed

lemma admin_sibling_namespace_invalid_witness:
  "\<not> ValidateDomain demo_env (NewUtil ''k8s.admin'' [] [] False) ''k8s.admins''
     (demo_world\<lparr>namespaces := [''k8s-admins'']\<rparr>)"
proof -
  let ?u = "NewUtil ''k8s.admin'' [] [] False"
  have "NamespaceToDomain ?u ''k8s-admins'' = ''k8s.admins''"
    by (simp add: NamespaceToDomain_plain dot_in_def ReplaceAll_pair_simps)
  then show ?thesis
    using admin_sibling_namespace_invalid
      [of ?u "''k8s-admins''" "CHR ''s''" "[]" demo_env "demo_world\<lparr>namespaces := [''k8s-admins'']\<rparr>"]
    by (simp add: IsTrustDomain_def)
qed

section \<open>The update cron\<close>

text \<open>
  C22.  A successful call of the update cron offers to the queue exactly the valid domains among
  those that ZMS reports as modified, once each and in the order of the answer; a tag that ZMS
  returns becomes the next etag and is recorded in the config map.
\<close>

theorem requestCall_enqueues_valid:
  assumes "quiet_queue E"
    and "zms_GetSignedDomains E [] ''true'' [] False False (etag c) w = ((Some ds, tag, None), w1)"
    and "\<forall>sd \<in> set (elems (domains ds)). \<exists>s d. sd = Some s \<and> domain s = Some d"
  shows "requestCall E u (c, w) =
    (let w2 = add_all E (filter (\<lambda>d. ValidateDomain E u d w1)
                (map (\<lambda>sd. domainName (the (domain (the sd)))) (elems (domains ds)))) w1
     in if tag = [] then (Return None, c, w2)
        else (Return None, c\<lparr>etag := tag\<rparr>, UpdateAthenzContactTime E (c\<lparr>etag := tag\<rparr>) tag w2))"
  using assms(2) quiet_queue.enqueue_updated_eq [OF assms(1,3)]
  by (simp add: requestCall_def Let_def)

definition demo_cron :: Cron where
  "demo_cron = NewCron 60000000000 3600000000000 ''2019-07-01T21:53:45Z''
     \<lparr>cmNamespace = ''kube-yahoo'', cmMapName = ''athenzcall-config'', cmKey = ''latest_contact''\<rparr>"

lemma requestCall_enqueues_valid_witness:
  "etag (fst (snd (requestCall demo_env demo_util (demo_cron, demo_world)))) = ''2019-07-05T21:53:45Z'' \<and>
   fst (requestCall demo_env demo_util (demo_cron, demo_world)) = Return None"
proof -
  have a: "zms_GetSignedDomains demo_env [] ''true'' [] False False (etag demo_cron) demo_world
      = ((Some \<lparr>domains = Some [Some demo_signed]\<rparr>, ''2019-07-05T21:53:45Z'', None), demo_world)"
    by (simp add: demo_zms_def)
  show ?thesis
    by (subst (1 2) requestCall_enqueues_valid [OF cluster.quiet_queue_axioms a])
      (simp_all add: Let_def)
qed

text \<open>
  C23.  Across any run of the update cron, retries included, the etag stays a tag that ZMS has
  returned in a successful answer (or the one it started with): a failed call never moves the
  point from which the next call asks for modifications.
\<close>

theorem UpdateCron_etag_from_zms:
  assumes "retry_notify retry"
    and "\<And>tg w doms tag w'. zms_GetSignedDomains E [] ''true'' [] False False tg w
           = ((doms, tag, None), w') \<Longrightarrow> tag \<noteq> [] \<Longrightarrow> tag \<in> T"
    and "etag c \<in> T"
    and "UpdateCron E u retry b es (c, w) = (r, c', w')"
  shows "etag c' \<in> T"
proof -
  have "etag (fst (snd (requestCall E u (c, w)))) \<in> T" if "etag c \<in> T" for c w
    by (rule requestCall_etag [where E = E and T = T]) (use assms(2) that in blast)+
  then have "etag (fst (snd (UpdateCron E u retry b es (c, w)))) \<in> T"
    using UpdateCron_invariant [OF assms(1), of "\<lambda>c. etag c \<in> T"] assms(3) by blast
  then show ?thesis
    using assms(4) by simp
qed

definition demo_backoff :: BackOff where
  "demo_backoff = \<lparr>initialInterval = 0, multiplier = 1, maxElapsedTime = 0, backoffRest = []\<rparr>"

lemma UpdateCron_etag_from_zms_witness:
  "etag (fst (snd (UpdateCron (cluster_env demo_zero) demo_util (retry_upto 3) demo_backoff
      [TimeAfter (\<lambda>w. w\<lparr>namespaces := []\<rparr>), TimeAfter (\<lambda>w. w), StopCh] (demo_cron, demo_world))))
   \<in> {tag. tag \<noteq> []}"
proof -
  let ?es = "[TimeAfter (\<lambda>w. w\<lparr>namespaces := []\<rparr>), TimeAfter (\<lambda>w. w), StopCh]"
  obtain r c' w' where run: "UpdateCron demo_env demo_util (retry_upto 3) demo_backoff ?es
      (demo_cron, demo_world) = (r, c', w')"
    by (metis prod.exhaust)
  have "etag demo_cron \<in> {tag. tag \<noteq> []}"
    by (simp add: demo_cron_def NewCron_def)
  then have "etag c' \<in> {tag. tag \<noteq> []}"
    by (rule UpdateCron_etag_from_zms [OF cluster.retry_notify_axioms _ _ run, rotated]) simp
  then show ?thesis
    using run by simp
qed

section \<open>The full resync\<close>

text \<open>
  C24.  One round of the full resync offers to the queue, in this order, the domain of every
  namespace of the cluster that is not excluded, the admin domain and the domains of the system
  namespaces, and every indexed trust domain that has a custom resource; and nothing else.
\<close>

theorem resync_offers:
  assumes "quiet_queue E" and "ObjNamespace None \<notin> set (ns_List E (f w))"
    and "\<forall>d \<in> set (cr_ListIndexFuncValues E (f w) trustDomainIndexKey).
           snd (cr_GetByKey E (f w) d) = None"
  shows "FullResync E u [TimeAfter f, StopCh] w =
      (Return (), add_all E
        (resync_list u (ns_List E (f w))
         @ filter (\<lambda>d. d \<noteq> []) (adminDomain u # map (NamespaceToDomain u) (systemNamespaces u))
         @ filter (\<lambda>d. fst (cr_GetByKey E (f w) d) \<noteq> None)
             (cr_ListIndexFuncValues E (f w) trustDomainIndexKey)) (f w))"
  using quiet_queue.resync_once_eq [OF assms] by simp

lemma resync_offers_witness:
  "FullResync demo_env demo_util [TimeAfter (\<lambda>w. w\<lparr>namespaces := [''acceptance-test'', ''home-domain'']\<rparr>), StopCh]
       demo_cached =
     (Return (), add_all demo_env [''home.domain'', ''admin.domain'', ''admin.domain.kube-system'']
       (demo_cached\<lparr>namespaces := [''acceptance-test'', ''home-domain'']\<rparr>))"
proof -
  have "NamespaceToDomain demo_util ''kube-system'' = ''admin.domain.kube-system''"
    by (simp add: NamespaceToDomain_def)
  moreover have "trust_index (ObjAthenzDomain (Some (new_cr ''home.domain'' demo_signed))) = [''parent.domain'']"
    by (simp add: trust_index_def TrustDomainIndexFunc_def trusts_of_def demo_data_def collect_trusts_eq)
  ultimately show ?thesis
    by (subst resync_offers [OF cluster.quiet_queue_axioms])
      (simp_all add: demo_cached_def resync_list_def List.map_filter_simps)
qed

section \<open>Excluded namespaces and the admin domain\<close>

text \<open>
  The full resync never offers the domain of an excluded namespace that it finds in the
  cluster: what it takes up from the namespace store are exactly the domains of the namespaces
  that are not excluded, as far as namespaces are mappable.
\<close>

theorem resync_skips_excluded:
  assumes "mappable u ns" and "\<forall>nm. ObjNamespace (Some nm) \<in> set obs \<longrightarrow> mappable u nm"
  shows "NamespaceToDomain u ns \<in> set (resync_list u obs) \<longleftrightarrow>
    ObjNamespace (Some ns) \<in> set obs \<and> \<not> IsNamespaceExcluded u ns"
proof -
  have "set (List.map_filter (\<lambda>ob. case ob of ObjNamespace p \<Rightarrow> p | _ \<Rightarrow> None) obs)
      = {nm. ObjNamespace (Some nm) \<in> set obs}"
    by (induction obs) (auto simp: List.map_filter_simps split: obj.splits option.splits)
  then show ?thesis
    using assms by (auto simp: resync_list_def util.to_dom_eq_iff)
qed

lemma resync_skips_excluded_witness:
  "NamespaceToDomain demo_util ''home-domain''
     \<in> set (resync_list demo_util [ObjNamespace (Some ''home-domain'') :: unit obj])"
  by (subst resync_skips_excluded [OF demo_mappable]) (simp_all add: demo_mappable)

text \<open>
  The update cron does not look at the excluded namespaces: it offers the domain of any
  mappable namespace of the cluster that ZMS reports as modified, excluded or not.
\<close>

theorem update_cron_ignores_exclusion:
  assumes "mappable u ns" and "fst (ns_GetByKey E w ns) \<noteq> None"
    and "domain s = Some data" and "domainName data = NamespaceToDomain u ns"
  shows "enqueue_updated E u (Some s # sds) w =
    enqueue_updated E u sds (q_AddRateLimited E (NamespaceToDomain u ns) w)"
  using assms by (simp add: ValidateDomain_namespace Let_def)

lemma update_cron_ignores_exclusion_witness:
  "IsNamespaceExcluded (NewUtil ''admin.domain'' [] [''home-domain''] False) ''home-domain'' \<and>
   enqueue_updated demo_env (NewUtil ''admin.domain'' [] [''home-domain''] False) [Some demo_signed] demo_world
     = (Return (), cluster_add ''home.domain'' demo_world)"
proof -
  let ?u = "NewUtil ''admin.domain'' [] [''home-domain''] False"
  have d: "NamespaceToDomain ?u ''home-domain'' = ''home.domain''"
    by (simp add: NamespaceToDomain_plain dot_in_def ReplaceAll_pair_simps)
  then have "mappable ?u ''home-domain''"
    by (simp add: mappable_def HasPrefix_def)
  then have "enqueue_updated demo_env ?u [Some demo_signed] demo_world =
      enqueue_updated demo_env ?u [] (q_AddRateLimited demo_env (NamespaceToDomain ?u ''home-domain'') demo_world)"
    by (rule update_cron_ignores_exclusion [where data = demo_data]) (simp_all add: d)
  with d show ?thesis
    by (simp add: IsNamespaceExcluded_NewUtil)
qed

text \<open>
  Without an admin domain the domains of the system namespaces, which are then a dot and the
  name of the namespace, are still offered to the queue: the test for the empty domain does not
  hold them back.
\<close>

theorem system_domains_without_admin:
  assumes "adminDomain u = []"
  shows "AddAdminSystemDomains E u w = add_all E (map (\<lambda>ns. ''.'' @ ns) (systemNamespaces u)) w"
proof -
  have "NamespaceToDomain u ns = ''.'' @ ns" if "ns \<in> set (systemNamespaces u)" for ns
    using that assms by (simp add: NamespaceToDomain_def isSystemNamespace_iff)
  then have "filter (\<lambda>d. d \<noteq> []) (map (NamespaceToDomain u) (systemNamespaces u))
      = map (\<lambda>ns. ''.'' @ ns) (systemNamespaces u)"
    by (auto simp: filter_id_conv intro: trans [OF filter_True])
  then show ?thesis
    using assms by (simp add: AddAdminSystemDomains_eq)
qed

lemma system_domains_without_admin_witness:
  "AddAdminSystemDomains demo_env (NewUtil [] [''kube-system''] [] False) demo_world =
     cluster_add ''.kube-system'' demo_world"
  by (subst system_domains_without_admin) simp_all

section \<open>The contact time\<close>

text \<open>
  When the config map can be read or does not exist, and can be written, the config map named
  in the configuration holds the last tag of ZMS under the configured key afterwards, and no other
  config map has changed.
\<close>

theorem contact_time_is_recorded:
  assumes "configmap_server E cms"
    and "snd (fst (cm_Get E (cmNamespace (contactTimeCm c)) (cmMapName (contactTimeCm c)) w))
      \<in> {None, Some (Status NotFound)}"
    and "\<And>cm w. snd (fst (cm_Create E (cmNamespace (contactTimeCm c)) cm w)) = None"
    and "\<And>cm w. snd (fst (cm_Update E (cmNamespace (contactTimeCm c)) cm w)) = None"
  shows "cms (UpdateAthenzContactTime E c tag w) =
    (cms w)((cmNamespace (contactTimeCm c), cmMapName (contactTimeCm c)) \<mapsto>
       \<lparr>cmName = cmMapName (contactTimeCm c), cmData = [cmKey (contactTimeCm c) \<mapsto> tag]\<rparr>)"
  using assms by (rule configmap_server.contact_time_recorded)

lemma contact_time_is_recorded_witness:
  "map_option (\<lambda>cm. cmData cm ''latest_contact'')
     (configMaps (UpdateAthenzContactTime demo_env demo_cron ''2019-07-05T21:53:45Z'' demo_world)
       (''kube-yahoo'', ''athenzcall-config'')) = Some (Some ''2019-07-05T21:53:45Z'')"
  by (subst contact_time_is_recorded [OF cluster.configmap_server_axioms])
    (simp_all add: cluster_env_def demo_cron_def NewCron_def)

end
