(* ===== verification/Controller_Properties.thy ===== *)
theory Controller_Properties
  imports Cron_Properties
begin

text \<open>
  The properties of \<^verbatim>\<open>pkg/controller\<close>: what one synchronisation does to the custom
  resources, which domains it enqueues, when a failure is retried, and how the worker ends.
\<close>

section \<open>What ZMS answers\<close>

text \<open>ZMS answers the question for a domain with one signed domain.\<close>

definition zms_answers ::
    "('w, 'x) env \<Rightarrow> string \<Rightarrow> 'w \<Rightarrow> 'x SignedDomain \<Rightarrow> 'w \<Rightarrow> bool" where
  "zms_answers E d w s w1 \<longleftrightarrow>
     (\<exists>sds tag. zms_GetSignedDomains E d [] [] False False [] w = ((Some sds, tag, None), w1) \<and>
        elems (domains sds) = [Some s])"

lemma zmsGetSignedDomains_answer:
  assumes "zms_answers E d w s w1" "FilterMSDRules u (domain s) = Return d'"
  shows "\<exists>sds. zmsGetSignedDomains E u d w = (Return (Some sds, True, None), w1) \<and>
    elems (domains sds) = [Some (s\<lparr>domain := d'\<rparr>)]"
  using assms by (auto simp: zms_answers_def zmsGetSignedDomains_def)

lemma sync_unwanted:
  assumes "unwanted E u d w w1"
  shows "sync E u d w = (let (e, w') = RemoveAthenzDomain E d w1 in (Return e, w'))"
proof (cases "ValidateDomain E u d w")
  case True
  with assms show ?thesis
    by (auto simp: unwanted_def sync_def zmsGetSignedDomains_def split: prod.splits)
qed (use assms in \<open>simp add: unwanted_def sync_def\<close>)

context domain_server begin

lemma sync_stores:
  assumes copies: "faithful_copiers (copiers E)" and valid: "ValidateDomain E u d w"
    and answer: "zms_answers E d w s w1" and data: "domain s = Some data" "domainName data = d"
    and filtered: "FilterMSDRules u (Some data) = Return (Some data')" "domainPolicies data' \<noteq> None"
    and server: "cache_current E crs w1 d" "server_available E crs w1"
    and old: "\<forall>c. crs w1 d = Some c \<longrightarrow> comparable (spec c)"
  shows "\<exists>w' c. sync E u d w = (Return None, w') \<and> crs w' d = Some c \<and>
    unsigned (spec c) = unsigned \<lparr>signedDomain = s\<lparr>domain := Some data'\<rparr>\<rparr> \<and> message (status c) = []"
proof -
  let ?s = "s\<lparr>domain := Some data'\<rparr>"
  have name: "domainName data' = d"
    using FilterMSDRules_name [OF filtered(1)] data(2) by simp
  obtain sds where z: "zmsGetSignedDomains E u d w = (Return (Some sds, True, None), w1)"
      "elems (domains sds) = [Some ?s]"
    using zmsGetSignedDomains_answer [OF answer] data(1) filtered(1) by fastforce
  have "comparable \<lparr>signedDomain = ?s\<rparr>"
    using filtered(2) by (simp add: comparable_def)
  then obtain res w2 c where c: "CreateUpdateAthenzDomain E d (Some ?s) w1 = (Return (res, None), w2)"
      "crs w2 d = Some c" "unsigned (spec c) = unsigned \<lparr>signedDomain = ?s\<rparr>" "message (status c) = []"
    using createUpdate_converges [OF copies server] old by blast
  have "sync E u d w = (Return None, sync_trusts E u d (elems (roles data')) w2)"
    using z name by (intro sync_one_domain [OF valid z _ _ c(1)]) simp_all
  then show ?thesis
    using c by fastforce
qed

end

section \<open>One synchronisation\<close>

text \<open>
  C4.  One synchronisation of a domain, however it ends, changes at most the custom resource of
  that domain.  If it changes it, then it has removed it because the domain is not valid or ZMS has
  nothing for it, or the domain is valid and the custom
  resource now holds one of the domains of that name that ZMS answered, filtered, with no error
  message.
\<close>

theorem sync_writes_only_zms_data:
  assumes "domain_server E crs" and "sync E u d w = (r, w')"
  shows "(\<forall>n. n \<noteq> d \<longrightarrow> crs w' n = crs w n) \<and>
    (crs w' d = crs w d \<or> crs w' d = None \<and> (\<exists>w1. unwanted E u d w w1) \<or>
     ValidateDomain E u d w \<and>
       (\<exists>c. crs w' d = Some c \<and> signedDomain (spec c) \<in> answered E u d w \<and> message (status c) = []))"
  using domain_server.sync_effect [OF assms] by (auto simp: may_store_def)

lemma demo_answers: "zms_answers demo_env ''home.domain'' w demo_signed w" if "zmsTable w = demo_zms"
  using that by (simp add: zms_answers_def demo_zms_def)

lemma sync_writes_only_zms_data_witness:
  "cluster_crs (snd (sync demo_env demo_util ''home.domain'' demo_world)) ''other.domain'' = None"
proof -
  obtain r w' where s: "sync demo_env demo_util ''home.domain'' demo_world = (r, w')" by fastforce
  show ?thesis
    using sync_writes_only_zms_data [OF cluster.domain_server_axioms s] s by simp
qed

text \<open>
  C3.  Synchronising a valid domain that ZMS answers succeeds, when the informer cache shows what
  the API server holds and the server is available: afterwards the custom resource of the domain
  exists, equals the filtered answer up to the two signatures, and has no error message.
\<close>

theorem sync_converges:
  assumes "domain_server E crs" and "faithful_copiers (copiers E)"
    and "ValidateDomain E u d w" and "zms_answers E d w s w1"
    and "domain s = Some data" and "domainName data = d"
    and "FilterMSDRules u (Some data) = Return (Some data')" and "domainPolicies data' \<noteq> None"
    and "cache_current E crs w1 d" and "server_available E crs w1"
    and "\<forall>c. crs w1 d = Some c \<longrightarrow> comparable (spec c)"
  shows "\<exists>w' c. sync E u d w = (Return None, w') \<and> crs w' d = Some c \<and>
    unsigned (spec c) = unsigned \<lparr>signedDomain = s\<lparr>domain := Some data'\<rparr>\<rparr> \<and> message (status c) = []"
  using assms by (rule domain_server.sync_stores)

lemma FilterMSDRules_demo [simp]: "FilterMSDRules demo_util p = Return p"
  by (simp add: FilterMSDRules_def)

lemma sync_converges_witness:
  "\<exists>w' c. sync demo_env demo_util ''home.domain'' (informer_sync demo_world) = (Return None, w') \<and>
     cluster_crs w' ''home.domain'' = Some c \<and>
     unsigned (spec c) = unsigned \<lparr>signedDomain = demo_signed\<rparr>"
proof -
  have "zmsTable (informer_sync demo_world) = demo_zms"
    by (simp add: informer_sync_def)
  note answers = demo_answers [OF this]
  show ?thesis
    using sync_converges [OF cluster.domain_server_axioms cluster_copiers _ answers _ _ _ _
        informer_sync_current cluster_available, where u = demo_util
          and data = demo_data and data' = demo_data]
    by (auto simp: informer_sync_def)
qed

text \<open>
  C9.  Synchronising again when nothing has changed sends nothing to the API server: if the cached
  custom resource equals the filtered answer of ZMS up to signatures and has no error message,
  all that happens is that trust domains are offered to the queue.
\<close>

theorem sync_up_to_date_is_silent:
  assumes "faithful_copiers (copiers E)"
    and "ValidateDomain E u d w" and "zms_answers E d w s w1"
    and "domain s = Some data" and "domainName data = d"
    and "FilterMSDRules u (Some data) = Return (Some data')" and "domainPolicies data' \<noteq> None"
    and "fst (cr_GetByKey E w1 d) = Some (ObjAthenzDomain (Some c))"
    and "unsigned (spec c) = unsigned \<lparr>signedDomain = s\<lparr>domain := Some data'\<rparr>\<rparr>"
    and "comparable (spec c)" and "message (status c) = []"
  shows "sync E u d w = (Return None, sync_trusts E u d (elems (roles data')) w1)"
proof -
  let ?s = "s\<lparr>domain := Some data'\<rparr>"
  have name: "domainName data' = d"
    using FilterMSDRules_name [OF assms(6)] assms(5) by simp
  obtain sds where z: "zmsGetSignedDomains E u d w = (Return (Some sds, True, None), w1)"
      "elems (domains sds) = [Some ?s]"
    using zmsGetSignedDomains_answer [OF assms(3)] assms(4,6) by fastforce
  have "comparable \<lparr>signedDomain = ?s\<rparr>"
    using assms(7) by (simp add: comparable_def)
  moreover have "status c = status (new_cr d ?s)"
    using assms(11) by (cases "status c") (simp add: new_cr_def)
  ultimately have "CreateUpdateAthenzDomain E d (Some ?s) w1 = (Return (None, None), w1)"
    using assms(9,10)
    by (simp add: CreateUpdateAthenzDomain_def GetCRByName_present [OF assms(8)]
        updateCR_eq [OF assms(1)] up_to_date_def)
  then show ?thesis
    using assms(2) z name by (simp add: sync_def)
qed

lemma sync_up_to_date_is_silent_witness:
  "sync demo_env demo_util ''home.domain'' demo_cached =
     (Return None, sync_trusts demo_env demo_util ''home.domain'' (elems (roles demo_data)) demo_cached)"
  by (intro sync_up_to_date_is_silent [OF cluster_copiers _ demo_answers, where data = demo_data
        and c = "new_cr ''home.domain'' demo_signed"])
    (simp_all add: demo_cached_def)

text \<open>
  C8.  A domain that is not valid, that ZMS answers with a 404, or that ZMS answers with an empty
  list, is removed: if its custom resource exists the delete request is sent and its result
  returned, otherwise nothing is sent; when no error is reported the custom resource is gone and
  the others are as they were.
\<close>

theorem sync_removes_unwanted:
  assumes "domain_server E crs" and "unwanted E u d w w1" and "cache_current E crs w1 d"
  shows "\<exists>e w'. sync E u d w = (Return e, w') \<and>
    (e, w') = (if crs w1 d = None then (None, w1) else client_Delete E d [] w1) \<and>
    (e = None \<longrightarrow> crs w' = (crs w)(d := None))"
proof -
  obtain e w' where r: "RemoveAthenzDomain E d w1 = (e, w')" by fastforce
  have "crs w1 = crs w"
    using assms(2) domain_server.zms_frame [OF assms(1)]
    by (auto simp: unwanted_def split: if_splits prod.splits)
  moreover have "sync E u d w = (Return e, w')"
    using r by (simp add: sync_unwanted [OF assms(2)])
  moreover have "(e, w') = (if crs w1 d = None then (None, w1) else client_Delete E d [] w1)"
    using r by (auto simp: RemoveAthenzDomain_def GetCRByName_current [OF assms(3)]
        split: if_splits prod.splits option.splits)
  ultimately show ?thesis
    using domain_server.remove_gone [OF assms(1)] r assms(3) by metis
qed

lemma sync_removes_unwanted_witness:
  "\<exists>w'. sync demo_env demo_util ''gone.domain''
       (informer_sync (demo_world\<lparr>objects := [(''gone.domain'', new_cr ''gone.domain'' demo_signed)]\<rparr>))
         = (Return None, w') \<and> cluster_crs w' ''gone.domain'' = None"
proof -
  let ?w = "informer_sync (demo_world\<lparr>objects := [(''gone.domain'', new_cr ''gone.domain'' demo_signed)]\<rparr>)"
  have "DomainToNamespace demo_util ''gone.domain'' = ''gone-domain''"
    by (simp add: DomainToNamespace_plain HasPrefix_def dash_out_def)
  moreover have "trust_index (ObjAthenzDomain (Some (new_cr ''gone.domain'' demo_signed))) = [''parent.domain'']"
    by (simp add: trust_index_def TrustDomainIndexFunc_def trusts_of_def demo_data_def collect_trusts_eq)
  ultimately have "\<not> ValidateDomain demo_env demo_util ''gone.domain'' ?w"
    by (simp add: ValidateDomain_iff IsTrustDomain_def informer_sync_def)
  then have "unwanted demo_env demo_util ''gone.domain'' ?w ?w"
    by (simp add: unwanted_def)
  from sync_removes_unwanted [OF cluster.domain_server_axioms this informer_sync_current]
  show ?thesis
    by (auto simp: cluster_Delete informer_sync_def)
qed

section \<open>Errors of ZMS\<close>

text \<open>
  A ZMS error other than a 404 for a domain without a cached custom resource is not reported
  to the worker: the key is done without a retry and without a request to the API server.
  (The \<^verbatim>\<open>err\<close> that is returned is the redeclared one, which is nil.)
\<close>

theorem zms_error_not_retried:
  assumes "ValidateDomain E u d w"
    and "zms_GetSignedDomains E d [] [] False False [] w = ((doms, tag, Some (Resource code m)), w1)"
    and "code \<noteq> 404" and "fst (cr_GetByKey E w1 d) = None"
  shows "process_key E u (KeyString d) w = (Return True, w1)"
  using assms
  by (simp add: process_key_def sync_def zmsGetSignedDomains_def GetCRByName_absent)

definition demo_limited :: "unit cluster" where
  \<comment> \<open>ZMS answers that there were too many requests\<close>
  "demo_limited = demo_world\<lparr>zmsTable := (\<lambda>_. (None, [], Some (Resource 429 ''Too Many Requests'')))\<rparr>"

lemma zms_error_not_retried_witness:
  "process_key demo_env demo_util (KeyString ''home.domain'') demo_limited = (Return True, demo_limited)"
  by (rule zms_error_not_retried [where code = 429]) (simp_all add: demo_limited_def)

text \<open>
  A ZMS error other than a 404 for a domain with a cached custom resource makes the worker
  panic: the message for the status is asked of the redeclared, nil error.  The error status is
  never written.
\<close>

theorem zms_error_panics:
  assumes "ValidateDomain E u d w"
    and "zms_GetSignedDomains E d [] [] False False [] w = ((doms, tag, Some (Resource code m)), w1)"
    and "code \<noteq> 404" and "fst (cr_GetByKey E w1 d) = Some (ObjAthenzDomain p)"
  shows "process_key E u (KeyString d) w = (Panic NilDereference, w1)"
  using assms
  by (simp add: process_key_def sync_def zmsGetSignedDomains_def GetCRByName_present call_Error_def)

lemma zms_error_panics_witness:
  "process_key demo_env demo_util (KeyString ''home.domain'')
     (demo_limited\<lparr>crCache := [(''home.domain'', ObjAthenzDomain (Some (new_cr ''home.domain'' demo_signed)))]\<rparr>)
   = (Panic NilDereference,
      demo_limited\<lparr>crCache := [(''home.domain'', ObjAthenzDomain (Some (new_cr ''home.domain'' demo_signed)))]\<rparr>)"
  by (rule zms_error_panics [where code = 429]) (simp_all add: demo_limited_def)

text \<open>
  C27.  An error of ZMS other than a 404 is lost, because \<^verbatim>\<open>sync\<close> redeclares the variable that
  holds it: with a cached custom resource the worker panics when it asks the nil error for the message
  of the status, which is never written; without one the worker goes on as after a success and does not
  retry.
\<close>

theorem zms_error_is_lost:
  assumes "ValidateDomain E u d w"
    and "zms_GetSignedDomains E d [] [] False False [] w = ((doms, tag, Some (Resource code m)), w1)"
    and "code \<noteq> 404"
  shows "(\<forall>p. fst (cr_GetByKey E w1 d) = Some (ObjAthenzDomain p) \<longrightarrow>
      process_key E u (KeyString d) w = (Panic NilDereference, w1)) \<and>
    (fst (cr_GetByKey E w1 d) = None \<longrightarrow> process_key E u (KeyString d) w = (Return True, w1))"
  using zms_error_panics [OF assms] zms_error_not_retried [OF assms] by blast

lemma zms_error_is_lost_witness:
  "process_key demo_env demo_util (KeyString ''home.domain'') demo_limited = (Return True, demo_limited) \<and>
   fst (process_key demo_env demo_util (KeyString ''home.domain'')
     (demo_limited\<lparr>crCache := [(''home.domain'', ObjAthenzDomain (Some (new_cr ''home.domain'' demo_signed)))]\<rparr>)) =
     Panic NilDereference"
proof
  show "process_key demo_env demo_util (KeyString ''home.domain'') demo_limited = (Return True, demo_limited)"
    using zms_error_is_lost [of demo_env demo_util "''home.domain''" demo_limited None "[]" 429 "''Too Many Requests''" demo_limited]
    by (simp add: demo_limited_def)
  let ?w = "demo_limited\<lparr>crCache := [(''home.domain'', ObjAthenzDomain (Some (new_cr ''home.domain'' demo_signed)))]\<rparr>"
  show "fst (process_key demo_env demo_util (KeyString ''home.domain'') ?w) = Panic NilDereference"
    using zms_error_is_lost [of demo_env demo_util "''home.domain''" ?w None "[]" 429 "''Too Many Requests''" ?w]
    by (simp add: demo_limited_def)
qed

section \<open>Retries\<close>

text \<open>
  C25.  After a failed synchronisation the worker goes on; the counter of the failed domain is one
  higher if it was below three and the domain is offered again, otherwise the domain is forgotten
  and its counter is zero; no other counter changes.
\<close>

theorem retry_decision:
  assumes "limited_queue E When Forget NumRequeues lim clk"
    and "sync E u d w = (Return (Some e), w1)" and "in_int64 (NumRequeues d (lim w1))"
  shows "fst (process_key E u (KeyString d) w) = Return True \<and>
    (\<forall>x. NumRequeues x (lim (snd (process_key E u (KeyString d) w))) =
      (if x \<noteq> d then NumRequeues x (lim w1)
       else if NumRequeues d (lim w1) < 3 then NumRequeues d (lim w1) + 1 else 0))"
proof -
  have q: "retrying_queue When Forget NumRequeues E lim clk"
    using limiter.rate_limiter_axioms assms(1) by (rule retrying_queue.intro)
  show ?thesis
    using retrying_queue.retry_counts [OF q assms(2)] retrying_queue.retry_step [OF q assms(2)] assms(3)
    by (auto simp: wrap64_id in_int64_def)
qed

definition demo_down :: "unit cluster" where
  \<comment> \<open>ZMS cannot be reached\<close>
  "demo_down = demo_world\<lparr>zmsTable := (\<lambda>_. (None, [], Some (Plain ''connection refused'')))\<rparr>"

lemma demo_down_sync:
  "sync demo_env demo_util ''home.domain'' (demo_down\<lparr>limiter' := l\<rparr>) =
     (Return (Some (Plain ''Error occurred when converting error types'')), demo_down\<lparr>limiter' := l\<rparr>)"
  by (simp add: sync_def zmsGetSignedDomains_def demo_down_def)

lemma retry_decision_witness:
  "NumRequeues ''home.domain'' (limiter' (snd (process_key demo_env demo_util (KeyString ''home.domain'')
     (demo_down\<lparr>limiter' := NewRateLimiter 0 250\<rparr>)))) = 1"
  using retry_decision [OF cluster.limited_queue_axioms demo_down_sync, of "NewRateLimiter 0 250"]
  by (simp add: in_int64_def)

text \<open>
  C26.  Every offer of a domain counts against its retries, also the ones made by informer events
  and crons for a domain whose synchronisations succeeded: after three offers since it was last
  forgotten, the first failure of the domain is dropped without a retry.
\<close>

theorem first_failure_dropped:
  assumes "limited_queue E When Forget NumRequeues lim clk"
    and "sync E u d w = (Return (Some e), w1)"
    and "lim w1 = snd (when_run (Forget d r) calls)"
    and "3 \<le> length (filter (\<lambda>c. snd c = d) calls)" and "int (length calls) \<le> max_int64"
  shows "process_key E u (KeyString d) w = (Return True, q_Forget E (KeyString d) w1)"
proof -
  have q: "retrying_queue When Forget NumRequeues E lim clk"
    using limiter.rate_limiter_axioms assms(1) by (rule retrying_queue.intro)
  show ?thesis
    by (rule retrying_queue.budget_spent [OF q assms(2) _ assms(4,5)])
      (simp add: assms(3) when_run_offers)
qed

lemma first_failure_dropped_witness:
  "snd (process_key demo_env demo_util (KeyString ''home.domain'')
     (demo_down\<lparr>limiter' := snd (when_run (Forget ''home.domain'' (NewRateLimiter 0 250))
        [(1, ''home.domain''), (2, ''home.domain''), (3, ''home.domain'')])\<rparr>))
   = cluster_forget (KeyString ''home.domain'')
     (demo_down\<lparr>limiter' := snd (when_run (Forget ''home.domain'' (NewRateLimiter 0 250))
        [(1, ''home.domain''), (2, ''home.domain''), (3, ''home.domain'')])\<rparr>)"
  by (subst first_failure_dropped [OF cluster.limited_queue_axioms demo_down_sync,
        where r = "NewRateLimiter 0 250"
          and calls = "[(1, ''home.domain''), (2, ''home.domain''), (3, ''home.domain'')]"]) simp_all

section \<open>Trust domains\<close>

text \<open>
  After a synchronisation of the admin domain or of the domain of a namespace, the trust
  domains of its roles that have no custom resource yet are offered to the queue, in the order of
  the roles and never the domain itself; for any other domain none is, so that delegation is
  followed for one level only.
\<close>

theorem trust_domains_one_level:
  assumes "quiet_queue E"
  shows "sync_trusts E u d rs w =
    (if snd (ns_GetByKey E w (DomainToNamespace u d)) = None \<and>
        (fst (ns_GetByKey E w (DomainToNamespace u d)) \<noteq> None \<or> d = adminDomain u)
     then add_all E (filter (\<lambda>t. t \<noteq> [] \<and> t \<noteq> d \<and> cr_GetByKey E w t = (None, None))
            [roleTrust r. Some r \<leftarrow> rs]) w
     else w)"
proof (induction rs arbitrary: w)
  case (Cons role rs)
  note quiet = quiet_queue.cr_get_quiet [OF assms] quiet_queue.ns_get_quiet [OF assms]
  show ?case
  proof (cases role)
    case (Some r)
    with Cons show ?thesis
      by (cases "cr_GetByKey E w (roleTrust r)"; cases "ns_GetByKey E w (DomainToNamespace u d)")
        (auto simp: quiet IsAdminDomain_def)
  qed (use Cons in simp)
qed simp

lemma trust_domains_one_level_witness:
  "sync_trusts demo_env demo_util ''home.domain'' (elems (roles demo_data)) demo_world =
     add_all demo_env [''parent.domain''] demo_world"
  by (subst trust_domains_one_level [OF cluster.quiet_queue_axioms]) (simp add: demo_data_def)

section \<open>The worker and the start\<close>

text \<open>
  The worker loop returns exactly when, after processing some number of items without a
  panic, the queue reports that it was shut down; no item and no error ends it earlier.
\<close>

theorem runWorker_stops_at_shutdown:
  "runWorker E u w = Some (Return (), w') \<longleftrightarrow> drained E u w w'"
  by (rule runWorker_iff_drained)

text \<open>
  The controller starts with the etag of the latest modification of the cached domains, and
  offers the admin and system domains to the queue; if the caches do not synchronise it shuts the
  queue down, without touching the etag.
\<close>

theorem Run_start_etag:
  assumes "mtimes (cr_List E w) = Some ts"
  shows "Run_start E u synced (c, w) =
    (if synced
     then (Return True, c\<lparr>etag := if fold max ts 0 < 10 ^ 9 then [] else format_RFC3339 (fold max ts 0)\<rparr>,
           add_all E (filter (\<lambda>d. d \<noteq> []) (adminDomain u # map (NamespaceToDomain u) (systemNamespaces u))) w)
     else (Return False, c, q_ShutDown E w))"
  by (simp add: Run_start_def GetLatestTimestamp_eq [OF assms] SetEtag_def AddAdminSystemDomains_eq
      del: filter.simps)

lemma Run_start_etag_witness:
  "etag (fst (snd (Run_start demo_env demo_util True (demo_cron, demo_cached)))) = ''2019-06-21T19:28:09Z''"
proof -
  have "format_RFC3339 1561145289305000000 = ''2019-06-21T19:28:09Z''"
    by code_simp
  then show ?thesis
    by (subst Run_start_etag [where ts = "[1561145289305000000]"])
      (simp_all add: demo_cached_def demo_data_def)
qed

end
