(* ===== verification/System.thy ===== *)
theory System
  imports Controller_Properties
begin

text \<open>
  The whole program as a state machine.  A state is the cron's own state and the world; a step
  is one action of one of the goroutines that \<^verbatim>\<open>NewController\<close> and
  \<^verbatim>\<open>Run\<close> set up: the worker takes an item, an informer delivers an event, the
  update cron or the full resync runs one round; or the outside moves: the caches catch up, the
  clock advances, the queue releases delayed items, ZMS data change.  The invariant below holds
  in every state that any interleaving of such actions reaches.
\<close>

section \<open>Steps\<close>

inductive system_step ::
    "('w, 'x) env \<Rightarrow> Util \<Rightarrow> 'x keyFunc \<Rightarrow> 'x keyFunc \<Rightarrow> (Cron, 'w) retrier \<Rightarrow> BackOff \<Rightarrow>
      ('w \<Rightarrow> 'w \<Rightarrow> bool) \<Rightarrow> Cron \<times> 'w \<Rightarrow> Cron \<times> 'w \<Rightarrow> bool"
  for E u keyf delf retry b outside where
  worker: "processNextItem E u w = (r, w') \<Longrightarrow>
    system_step E u keyf delf retry b outside (c, w) (c, w')"
| namespace_event:
    "system_step E u keyf delf retry b outside (c, w) (c, ns_handler E u keyf delf ev w)"
| domain_event:
    "system_step E u keyf delf retry b outside (c, w) (c, cr_handler E keyf delf ev w)"
| update_cron: "retry (getExponentialBackoff b c) (requestCall E u) (c, w) = (r, c', w') \<Longrightarrow>
    system_step E u keyf delf retry b outside (c, w) (c', w')"
| full_resync: "resync_once E u w = (r, w') \<Longrightarrow>
    system_step E u keyf delf retry b outside (c, w) (c, w')"
| outside_moves: "outside w w' \<Longrightarrow> system_step E u keyf delf retry b outside (c, w) (c, w')"

abbreviation system_reaches where
  "system_reaches E u keyf delf retry b outside \<equiv> (system_step E u keyf delf retry b outside)\<^sup>*\<^sup>*"

section \<open>What leaves the custom resources alone\<close>

text \<open>
  The remaining calls of the program to the outside are not requests about AthenzDomain objects.
\<close>

locale worker_server = domain_server E crs
  for E :: "('w, 'x) env" and crs +
  assumes get_frame: "q_Get E w = (kq, w') \<Longrightarrow> crs w' = crs w"
    and done_frame: "crs (q_Done E k w) = crs w"
    and forget_frame: "crs (q_Forget E k w) = crs w"
    and cm_get_frame: "crs (snd (cm_Get E ns n w)) = crs w"
    and cm_create_frame: "crs (snd (cm_Create E ns cm w)) = crs w"
    and cm_update_frame: "crs (snd (cm_Update E ns cm w)) = crs w"
begin

lemma enqueue_updated_frame: "crs (snd (enqueue_updated E u sds w)) = crs w"
proof (induction sds arbitrary: w)
  case (Cons sd sds)
  then show ?case
    by (simp add: queue_frame Let_def split: outcome.split)
qed simp

lemma contact_time_frame: "crs (UpdateAthenzContactTime E c tag w) = crs w"
  by (simp add: UpdateAthenzContactTime_def Let_def split_beta cm_get_frame cm_create_frame
      cm_update_frame split: option.split)

lemma requestCall_frame: "crs (snd (snd (requestCall E u cw))) = crs (snd cw)"
proof -
  obtain c w where cw: "cw = (c, w)" by fastforce
  obtain doms tag err w1
    where z: "zms_GetSignedDomains E [] ''true'' [] False False (etag c) w = ((doms, tag, err), w1)"
    by (metis prod.exhaust)
  define offered where "offered = (case doms of None \<Rightarrow> (Return (), w1)
      | Some ds \<Rightarrow> if 0 < length (elems (domains ds)) then enqueue_updated E u (elems (domains ds)) w1
          else (Return (), w1))"
  obtain r2 w2 where o2: "offered = (r2, w2)" by fastforce
  have "crs (snd offered) = crs w"
    using zms_frame [OF z] by (simp add: offered_def enqueue_updated_frame split: option.split)
  with o2 zms_frame [OF z] show ?thesis
    by (cases err; cases r2)
      (simp_all add: cw requestCall_def z contact_time_frame Let_def offered_def [symmetric])
qed

lemma add_all_frame: "crs (add_all E ds w) = crs w"
  by (induction ds arbitrary: w) (simp_all add: queue_frame)

lemma resync_namespaces_frame: "crs (snd (resync_namespaces E u obs w)) = crs w"
proof (induction obs arbitrary: w)
  case (Cons ob obs)
  then show ?case by (simp add: queue_frame split: obj.split option.split)
qed simp

lemma resync_trusts_frame: "crs (resync_trusts E ds w) = crs w"
proof (induction ds arbitrary: w)
  case (Cons d ds)
  then show ?case by (simp add: queue_frame split_beta Let_def split: option.split)
qed simp

lemma resync_frame: "crs (snd (resync_once E u w)) = crs w"
  using resync_namespaces_frame [of u "ns_List E w" w]
  by (auto simp: resync_once_def AddAdminSystemDomains_eq resync_trusts_frame add_all_frame Let_def
      simp del: filter.simps split: prod.splits outcome.splits)

lemma handler_frame:
  "crs (ns_handler E u keyf delf ev w) = crs w" "crs (cr_handler E keyf delf ev w) = crs w"
  by (cases ev; simp add: nsinformerhandler_def crinformerhandler_def queue_frame split_beta Let_def)+

text \<open>The worker changes custom resources only by synchronising the domain it was handed.\<close>

lemma worker_effect:
  assumes "processNextItem E u w = (r, w')"
  shows "crs w' = crs w \<or>
    (\<exists>d w1 r1 w2. q_Get E w = ((KeyString d, False), w1) \<and> crs w1 = crs w \<and>
       sync E u d w1 = (r1, w2) \<and> crs w' = crs w2)"
proof (cases rule: processNextItem_cases [of E w u])
  case (quit k w1)
  with assms get_frame [OF quit(1)] show ?thesis by simp
next
  case (item k w1 r1 w2)
  note frame = get_frame [OF item(1)]
  have w': "crs w' = crs w2"
    using assms item(3) by (auto simp: done_frame)
  show ?thesis
  proof (cases k)
    case (KeyString d)
    obtain r3 w3 where s: "sync E u d w1 = (r3, w3)" by fastforce
    then have "crs w2 = crs w3"
      using item(2) KeyString
      by (auto simp: process_key_def queue_frame forget_frame split: outcome.splits if_splits)
    with s item(1) frame w' KeyString show ?thesis by auto
  qed (use item(2) frame w' in \<open>simp add: process_key_def\<close>)
qed

end

interpretation cluster: worker_server "cluster_env z" cluster_crs for z
  by unfold_locales
    (auto simp: cluster_get_def cluster_forget_def cluster_env_def split: list.splits queue_key.splits)

section \<open>One step\<close>

text \<open>
  A step of the system leaves the custom resources alone, or it is the worker synchronising the
  domain that the queue handed out.
\<close>

lemma step_effect:
  assumes "worker_server E crs" "retry_notify retry" "\<And>w w'. outside w w' \<Longrightarrow> crs w' = crs w"
    and "system_step E u keyf delf retry b outside s s'"
  shows "crs (snd s') = crs (snd s) \<or>
    (\<exists>d w1 r w2. q_Get E (snd s) = ((KeyString d, False), w1) \<and> crs w1 = crs (snd s) \<and>
       sync E u d w1 = (r, w2) \<and> crs (snd s') = crs w2)"
  using assms(4)
proof cases
  case (worker w r w' c)
  then show ?thesis using worker_server.worker_effect [OF assms(1) worker(3)] by simp
next
  case (update_cron c w r c' w')
  have "crs (snd (c', w')) = crs w"
    by (rule retry_notify.retry_invariant [OF assms(2), where I = "\<lambda>cw. crs (snd cw) = crs w",
          OF _ _ update_cron(3)])
      (simp_all add: worker_server.requestCall_frame [OF assms(1)])
  with update_cron show ?thesis by simp
next
  case (full_resync w r w' c)
  with worker_server.resync_frame [OF assms(1), of u w] show ?thesis by simp
qed (use worker_server.handler_frame [OF assms(1)] assms(3) in auto)

section \<open>The custom resources are consistent\<close>

text \<open>
  A custom resource is consistent when it carries the data of the domain it is named after, with
  the MSD rules filtered out if that is configured, and no error message.
\<close>

definition consistent :: "Util \<Rightarrow> string \<Rightarrow> 'x AthenzDomain \<Rightarrow> bool" where
  "consistent u n c \<longleftrightarrow>
     (\<exists>data. domain (signedDomain (spec c)) = Some data \<and> domainName data = n \<and>
        FilterMSDRules u (Some data) = Return (Some data)) \<and> message (status c) = []"

abbreviation all_consistent :: "Util \<Rightarrow> (string \<Rightarrow> 'x AthenzDomain option) \<Rightarrow> bool" where
  "all_consistent u m \<equiv> \<forall>n c. m n = Some c \<longrightarrow> consistent u n c"

lemma sync_consistent:
  assumes "domain_server E crs" "sync E u d w = (r, w')" "all_consistent u (crs w)"
  shows "all_consistent u (crs w')"
proof -
  have "consistent u d c" if "signedDomain (spec c) \<in> answered E u d w" "message (status c) = []" for c
    using answered_filtered [OF that(1)] that(2) by (simp add: consistent_def)
  then show ?thesis
    using domain_server.sync_effect [OF assms(1,2)] assms(3) by (auto simp: may_store_def split: if_splits)
qed

text \<open>
  C1.  Whatever the interleaving of the worker, the informer events, the crons and the outside,
  every custom resource that the API server holds carries the data of the domain it is named
  after, filtered as configured, and an empty error message, as long as the outside does not
  write custom resources and they were so at the start.
\<close>

theorem custom_resources_consistent:
  assumes "worker_server E crs" and "retry_notify retry"
    and "\<And>w w'. outside w w' \<Longrightarrow> crs w' = crs w"
    and "system_reaches E u keyf delf retry b outside s s'"
    and "\<forall>n c. crs (snd s) n = Some c \<longrightarrow> consistent u n c"
  shows "\<forall>n c. crs (snd s') n = Some c \<longrightarrow> consistent u n c"
  using assms(4,5)
proof (induction rule: rtranclp_induct)
  case (step s1 s2)
  note server = worker_server.axioms(1) [OF assms(1)]
  from step_effect [OF assms(1-3) step(2)] show ?case
    using step sync_consistent [OF server] by metis
qed simp

definition demo_keyf :: "unit keyFunc" where
  "demo_keyf ob = (case ob of ObjNamespace (Some n) \<Rightarrow> (n, None) | _ \<Rightarrow> ([], Some (Plain ''no key'')))"

definition demo_queued :: "unit cluster" where
  "demo_queued = ns_handler demo_env demo_util demo_keyf demo_keyf
     (AddFunc (ObjNamespace (Some ''home-domain''))) demo_world"

lemma demo_queued_ready: "ready demo_queued = [KeyString ''home.domain'']"
  by (simp add: demo_queued_def nsinformerhandler_def demo_keyf_def cluster_add_def Let_def)

lemma demo_queued_simps:
  "objects demo_queued = []" "crCache demo_queued = []" "namespaces demo_queued = [''home-domain'']"
  "zmsTable demo_queued = demo_zms" "\<not> shutting demo_queued"
  by (simp_all add: demo_queued_def nsinformerhandler_def demo_keyf_def Let_def)

lemma cluster_sync_trusts [simp]:
  "zmsTable (sync_trusts (cluster_env z) u d rs w) = zmsTable w"
  "namespaces (sync_trusts (cluster_env z) u d rs w) = namespaces w"
  by (induction rs arbitrary: w) (auto simp: split_beta Let_def split: option.split)

lemma demo_sync_eq:
  assumes "objects w = []" "crCache w = []" "namespaces w = [''home-domain'']" "zmsTable w = demo_zms"
  obtains c w1 where "store_object (new_cr ''home.domain'' demo_signed) w = (c, w1)"
    "cluster_crs w1 = (cluster_crs w)(''home.domain'' \<mapsto> c)"
    "sync demo_env demo_util ''home.domain'' w
      = (Return None, sync_trusts demo_env demo_util ''home.domain'' (elems (roles demo_data)) w1)"
proof -
  obtain c w1 where st: "store_object (new_cr ''home.domain'' demo_signed) w = (c, w1)"
      "cluster_crs w1 = (cluster_crs w)(''home.domain'' \<mapsto> c)"
    by (metis new_cr_simps(1) store_object_cases)
  obtain sds where z: "zmsGetSignedDomains demo_env demo_util ''home.domain'' w
        = (Return (Some sds, True, None), w)" "elems (domains sds) = [Some demo_signed]"
    using zmsGetSignedDomains_answer [OF demo_answers [OF assms(4)], of demo_util "Some demo_data"]
    by auto
  have "CreateUpdateAthenzDomain demo_env ''home.domain'' (Some demo_signed) w = (Return (Some c, None), w1)"
    using st assms by (simp add: CreateUpdateAthenzDomain_def GetCRByName_def cluster_Create)
  then have "sync demo_env demo_util ''home.domain'' w
      = (Return None, sync_trusts demo_env demo_util ''home.domain'' (elems (roles demo_data)) w1)"
    using z assms by (intro cluster.sync_one_domain) simp_all
  with st that show ?thesis by blast
qed

lemma demo_sync:
  assumes "objects w = []" "crCache w = []" "namespaces w = [''home-domain'']" "zmsTable w = demo_zms"
  shows "\<exists>w'. sync demo_env demo_util ''home.domain'' w = (Return None, w') \<and>
    cluster_crs w' ''home.domain'' \<noteq> None \<and> zmsTable w' = demo_zms \<and> namespaces w' = [''home-domain'']"
proof (rule demo_sync_eq [OF assms])
  fix c w1
  assume st: "store_object (new_cr ''home.domain'' demo_signed) w = (c, w1)"
    "cluster_crs w1 = (cluster_crs w)(''home.domain'' \<mapsto> c)"
    and s: "sync demo_env demo_util ''home.domain'' w
      = (Return None, sync_trusts demo_env demo_util ''home.domain'' (elems (roles demo_data)) w1)"
  have "zmsTable w1 = demo_zms" "namespaces w1 = [''home-domain'']"
    using st(1) assms by (auto simp: store_object_def Let_def)
  with s st(2) show ?thesis by simp
qed

lemma custom_resources_consistent_witness:
  "\<exists>s' c. system_reaches demo_env demo_util demo_keyf demo_keyf (retry_upto 3) demo_backoff (\<lambda>w w'. False)
          (demo_cron, demo_world) s' \<and>
     cluster_crs (snd s') ''home.domain'' = Some c \<and> consistent demo_util ''home.domain'' c"
proof -
  let ?step = "system_step demo_env demo_util demo_keyf demo_keyf (retry_upto 3) demo_backoff (\<lambda>w w'. False)"
  obtain r w' where p: "processNextItem demo_env demo_util demo_queued = (r, w')" by fastforce
  have "?step (demo_cron, demo_world) (demo_cron, demo_queued)"
    unfolding demo_queued_def by (rule system_step.namespace_event)
  moreover have "?step (demo_cron, demo_queued) (demo_cron, w')"
    by (rule system_step.worker [OF p])
  ultimately have run: "?step\<^sup>*\<^sup>* (demo_cron, demo_world) (demo_cron, w')"
    by (blast intro: rtranclp.rtrancl_into_rtrancl)
  have start: "\<forall>n c. cluster_crs (snd (demo_cron, demo_world)) n = Some c \<longrightarrow> consistent demo_util n c"
    by simp
  have "cluster_crs w' ''home.domain'' \<noteq> None"
    using p demo_sync [of "demo_queued\<lparr>ready := []\<rparr>"]
    by (auto simp: processNextItem_def process_key_def cluster_get_def demo_queued_ready demo_queued_simps)
  then obtain c where "cluster_crs (snd (demo_cron, w')) ''home.domain'' = Some c" by auto
  then show ?thesis
    using run custom_resources_consistent
      [OF cluster.worker_server_axioms cluster.retry_notify_axioms _ run start]
    by blast
qed

end
