(* ===== verification/Mirror.thy ===== *)
theory Mirror
  imports System
begin

text \<open>
  What the controller promises, without the queue, the caches, the requests and their errors: it
  is a mirror of ZMS.  The abstract machine holds a copy of the signed data of some domains.  At
  any moment it may replace the copy of one domain by data that ZMS offers for it, drop the copy of
  one domain that is withdrawn, or do nothing.  Every step of the system is a step of the mirror.
\<close>

section \<open>The abstract machine\<close>

record 'x mirror =
  copies :: "string \<Rightarrow> 'x SignedDomain option"
  offered :: "string \<Rightarrow> 'x SignedDomain set" \<comment> \<open>what may be published under a name now\<close>
  withdrawn :: "string set" \<comment> \<open>what may be dropped now\<close>

inductive mirror_step :: "'x mirror \<Rightarrow> 'x mirror \<Rightarrow> bool" where
  idle: "copies b = copies a \<Longrightarrow> mirror_step a b"
| publish: "s \<in> offered a n \<Longrightarrow> copies b = (copies a)(n \<mapsto> s) \<Longrightarrow> mirror_step a b"
| retract: "n \<in> withdrawn a \<Longrightarrow> copies b = (copies a)(n := None) \<Longrightarrow> mirror_step a b"

inductive_cases mirror_stepE: "mirror_step a b"

text \<open>A mirror is steady at a name when all that it may do there is to publish data of one kind.\<close>

definition steady :: "('x SignedDomain \<Rightarrow> bool) \<Rightarrow> string \<Rightarrow> 'x mirror \<Rightarrow> bool" where
  "steady P n a \<longleftrightarrow> (\<forall>s \<in> offered a n. P s) \<and> n \<notin> withdrawn a"

lemma steady_step:
  assumes "mirror_step a b" "steady P n a" "\<exists>s. copies a n = Some s \<and> P s"
  shows "\<exists>s. copies b n = Some s \<and> P s"
  using assms by (auto simp: steady_def elim!: mirror_stepE)

section \<open>The abstraction\<close>

text \<open>
  The copies are the data of the custom resources.  What may happen to a name depends on the
  queue, the caches and ZMS: data are offered for the domain that the queue hands out if it is
  valid and ZMS answers with them; it is withdrawn if it is not valid, or if ZMS has nothing for
  it.
\<close>

definition mirror_of ::
    "('w, 'x) env \<Rightarrow> Util \<Rightarrow> ('w \<Rightarrow> string \<Rightarrow> 'x AthenzDomain option) \<Rightarrow> 'w \<Rightarrow> 'x mirror" where
  "mirror_of E u crs w =
     \<lparr>copies = (\<lambda>n. map_option (\<lambda>c. signedDomain (spec c)) (crs w n)),
      offered = (\<lambda>n. {s. \<exists>w1. q_Get E w = ((KeyString n, False), w1) \<and> ValidateDomain E u n w1 \<and>
                    s \<in> answered E u n w1}),
      withdrawn = {n. \<exists>w1 w2. q_Get E w = ((KeyString n, False), w1) \<and> unwanted E u n w1 w2}\<rparr>"

lemma copies_mirror_of [simp]:
  "copies (mirror_of E u crs w) = (\<lambda>n. map_option (\<lambda>c. signedDomain (spec c)) (crs w n))"
  by (simp add: mirror_of_def)

lemma mirror_idle: "crs w' = crs w \<Longrightarrow> mirror_step (mirror_of E u crs w) (mirror_of E u crs w')"
  by (rule mirror_step.idle) simp

lemma mirror_of_offered:
  "q_Get E w = ((KeyString n, False), w1) \<Longrightarrow> ValidateDomain E u n w1 \<Longrightarrow> s \<in> answered E u n w1 \<Longrightarrow>
     s \<in> offered (mirror_of E u crs w) n"
  by (auto simp: mirror_of_def)

lemma mirror_of_withdrawn:
  "q_Get E w = ((KeyString n, False), w1) \<Longrightarrow> unwanted E u n w1 w2 \<Longrightarrow>
     n \<in> withdrawn (mirror_of E u crs w)"
  by (auto simp: mirror_of_def)

lemma mirror_sync:
  assumes "domain_server E crs" "q_Get E w = ((KeyString d, False), w1)" "crs w1 = crs w"
    and "sync E u d w1 = (r, w2)" "crs w' = crs w2"
  shows "mirror_step (mirror_of E u crs w) (mirror_of E u crs w')"
proof -
  consider (same) "crs w' = crs w"
    | (removed) w3 where "unwanted E u d w1 w3" "crs w' = (crs w)(d := None)"
    | (stored) c where "ValidateDomain E u d w1" "signedDomain (spec c) \<in> answered E u d w1"
        "crs w' = (crs w)(d \<mapsto> c)"
    using domain_server.sync_effect [OF assms(1,4)] assms(3,5) by (auto simp: may_store_def)
  then show ?thesis
  proof cases
    case removed
    then show ?thesis
      by (intro mirror_step.retract [of d] mirror_of_withdrawn [OF assms(2)]) auto
  next
    case stored
    then show ?thesis
      by (intro mirror_step.publish [of "signedDomain (spec c)" _ d] mirror_of_offered [OF assms(2)])
        auto
  qed (rule mirror_idle)
qed

lemma step_simulated:
  assumes "worker_server E crs" "retry_notify retry" "\<And>w w'. outside w w' \<Longrightarrow> crs w' = crs w"
    and "system_step E u keyf delf retry b outside s s'"
  shows "mirror_step (mirror_of E u crs (snd s)) (mirror_of E u crs (snd s'))"
proof -
  consider "crs (snd s') = crs (snd s)"
    | d w1 r w2 where "q_Get E (snd s) = ((KeyString d, False), w1)" "crs w1 = crs (snd s)"
        "sync E u d w1 = (r, w2)" "crs (snd s') = crs w2"
    using step_effect [OF assms] by metis
  then show ?thesis
    by cases (auto intro: mirror_idle mirror_sync [OF worker_server.axioms(1) [OF assms(1)]])
qed

lemma spec_collapse [simp]: "\<lparr>signedDomain = signedDomain sp\<rparr> = (sp :: 'x AthenzDomainSpec)"
  by (cases sp) simp

section \<open>Properties\<close>

text \<open>
  C2.  Refinement: every step of the whole system, seen through the abstraction, is a step of the
  mirror.  Nothing but the worker publishes or drops anything; it publishes only what ZMS answered
  for the valid domain that the queue handed out, and drops it only when it is not valid or ZMS has
  nothing for it.
\<close>

theorem system_refines_mirror:
  assumes "worker_server E crs" and "retry_notify retry"
    and "\<And>w w'. outside w w' \<Longrightarrow> crs w' = crs w"
    and "system_step E u keyf delf retry b outside s s'"
  shows "mirror_step (mirror_of E u crs (snd s)) (mirror_of E u crs (snd s'))"
  using assms by (rule step_simulated)

lemma system_refines_mirror_witness:
  "mirror_step (mirror_of demo_env demo_util cluster_crs demo_queued)
     (mirror_of demo_env demo_util cluster_crs (snd (processNextItem demo_env demo_util demo_queued)))"
proof -
  obtain r w' where p: "processNextItem demo_env demo_util demo_queued = (r, w')" by fastforce
  from system_refines_mirror [where retry = "retry_upto 3" and outside = "\<lambda>w w'. False",
      OF cluster.worker_server_axioms cluster.retry_notify_axioms _
        system_step.worker [OF p, where c = demo_cron]]
  show ?thesis by (simp add: p)
qed

text \<open>
  C5.  The mirror settles.  When the worker takes a valid domain that ZMS answers, with a caught-up
  cache and an available API server, then the custom resource of the domain equals the answer up to
  signatures, and it stays so through any interleaving of the goroutines and the outside in which,
  whenever the worker takes the domain again, ZMS still answers the same up to signatures and the
  domain is not withdrawn.
\<close>

theorem mirror_settles:
  assumes "worker_server E crs" and "retry_notify retry"
    and "\<And>w w'. outside w w' \<Longrightarrow> crs w' = crs w" and "faithful_copiers (copiers E)"
    and "q_Get E w = ((KeyString d, False), w1)" and "ValidateDomain E u d w1"
    and "zms_answers E d w1 s w2" and "domain s = Some data" and "domainName data = d"
    and "FilterMSDRules u (Some data) = Return (Some data')" and "domainPolicies data' \<noteq> None"
    and "cache_current E crs w2 d" and "server_available E crs w2"
    and "\<forall>c. crs w2 d = Some c \<longrightarrow> comparable (spec c)"
    and "(\<lambda>t t'. system_step E u keyf delf retry b outside t t' \<and>
            steady (\<lambda>s'. unsigned \<lparr>signedDomain = s'\<rparr> = unsigned \<lparr>signedDomain = s\<lparr>domain := Some data'\<rparr>\<rparr>)
              d (mirror_of E u crs (snd t)))\<^sup>*\<^sup>* (k, snd (processNextItem E u w)) t"
  shows "fst (processNextItem E u w) = Return True \<and>
    (\<exists>c. crs (snd t) d = Some c \<and> unsigned (spec c) = unsigned \<lparr>signedDomain = s\<lparr>domain := Some data'\<rparr>\<rparr>)"
proof -
  let ?P = "\<lambda>s'. unsigned \<lparr>signedDomain = s'\<rparr> = unsigned \<lparr>signedDomain = s\<lparr>domain := Some data'\<rparr>\<rparr>"
  obtain w3 c where s: "sync E u d w1 = (Return None, w3)" "crs w3 d = Some c"
      "unsigned (spec c) = unsigned \<lparr>signedDomain = s\<lparr>domain := Some data'\<rparr>\<rparr>"
    using domain_server.sync_stores [OF worker_server.axioms(1) [OF assms(1)] assms(4,6-14)] by blast
  have p: "processNextItem E u w = (Return True, q_Done E (KeyString d) w3)"
    using assms(5) s(1) by (simp add: processNextItem_def process_key_def)
  have "\<exists>s'. copies (mirror_of E u crs (snd t)) d = Some s' \<and> ?P s'"
    using assms(15)
  proof (induction rule: rtranclp_induct)
    case base
    then show ?case
      using s(2,3) by (simp add: p worker_server.done_frame [OF assms(1)])
  next
    case (step t1 t2)
    then show ?case
      using step_simulated [OF assms(1-3)] steady_step by blast
  qed
  then show ?thesis
    by (auto simp: p)
qed

lemma demo_steady:
  assumes "zmsTable w = demo_zms" "namespaces w = [''home-domain'']"
  shows "steady (\<lambda>s. unsigned \<lparr>signedDomain = s\<rparr> = unsigned \<lparr>signedDomain = demo_signed\<rparr>) ''home.domain''
    (mirror_of demo_env demo_util cluster_crs w)"
proof -
  have "(s \<in> answered demo_env demo_util ''home.domain'' w1 \<longrightarrow> s = demo_signed) \<and>
      \<not> unwanted demo_env demo_util ''home.domain'' w1 w2"
    if "cluster_get w = (kq, w1)" for kq w1 w2 s
  proof -
    have "zmsTable w1 = demo_zms" "namespaces w1 = [''home-domain'']"
      using that(1) assms by (auto simp: cluster_get_def split: list.splits)
    then show ?thesis
      by (auto simp: answered_def unwanted_def zmsGetSignedDomains_def demo_zms_def)
  qed
  note this [dest]
  show ?thesis
    unfolding steady_def mirror_of_def by simp blast
qed

lemma mirror_settles_witness:
  "\<exists>w' w'' c. processNextItem demo_env demo_util demo_queued = (Return True, w') \<and>
     w'' = snd (processNextItem demo_env demo_util w') \<and> cluster_crs w'' ''home.domain'' = Some c \<and>
     unsigned (spec c) = unsigned \<lparr>signedDomain = demo_signed\<rparr>"
proof -
  let ?step = "system_step demo_env demo_util demo_keyf demo_keyf (retry_upto 3) demo_backoff (\<lambda>w w'. False)"
  let ?w1 = "demo_queued\<lparr>ready := []\<rparr>"
  obtain w' where s: "sync demo_env demo_util ''home.domain'' ?w1 = (Return None, w')"
      "zmsTable w' = demo_zms" "namespaces w' = [''home-domain'']"
    using demo_sync [of ?w1] by (auto simp: demo_queued_simps)
  have g: "q_Get demo_env demo_queued = ((KeyString ''home.domain'', False), ?w1)"
    by (simp add: cluster_get_def demo_queued_ready)
  then have p: "processNextItem demo_env demo_util demo_queued = (Return True, w')"
    using s(1) by (simp add: processNextItem_def process_key_def)
  obtain r w'' where p2: "processNextItem demo_env demo_util w' = (r, w'')" by fastforce
  have run: "(\<lambda>t t'. ?step t t' \<and> steady (\<lambda>s'. unsigned \<lparr>signedDomain = s'\<rparr>
        = unsigned \<lparr>signedDomain = demo_signed\<lparr>domain := Some demo_data\<rparr>\<rparr>) ''home.domain''
          (mirror_of demo_env demo_util cluster_crs (snd t)))\<^sup>*\<^sup>*
      (demo_cron, snd (processNextItem demo_env demo_util demo_queued)) (demo_cron, w'')"
    using system_step.worker [OF p2] demo_steady [OF s(2,3)] by (intro r_into_rtranclp) (simp add: p)
  have answers: "zms_answers demo_env ''home.domain'' ?w1 demo_signed ?w1"
    by (rule demo_answers) (simp add: demo_queued_simps)
  show ?thesis
    using mirror_settles [OF cluster.worker_server_axioms cluster.retry_notify_axioms _ cluster_copiers
        g _ answers _ _ _ _ _ cluster_available _ run] p p2
    by (auto simp: demo_queued_simps cache_current_def)
qed

end
