(* ===== verification/Shutdown.thy ===== *)
theory Shutdown
  imports Controller_Properties
begin

text \<open>
  How \<^verbatim>\<open>Run\<close> ends.  The worker loop ends when the queue reports that it was shut down, and
  \<^verbatim>\<open>Run\<close> shuts the queue down only after the worker loop has ended.
\<close>

section \<open>What the worker keeps of the world\<close>

text \<open>A property of the world that every operation keeps that the worker calls for one key.\<close>

locale stable_calls =
  fixes E :: "('w, 'x) env"
    and I :: "'w \<Rightarrow> bool"
  assumes zms_stable: "zms_GetSignedDomains E z1 z2 z3 z4 z5 z6 w = (zr, w') \<Longrightarrow> I w \<Longrightarrow> I w'"
    and create_stable: "client_Create E b opts w = (r, w') \<Longrightarrow> I w \<Longrightarrow> I w'"
    and update_stable: "client_Update E b opts w = (r, w') \<Longrightarrow> I w \<Longrightarrow> I w'"
    and delete_stable: "client_Delete E n opts w = (e, w') \<Longrightarrow> I w \<Longrightarrow> I w'"
    and queue_stable: "I w \<Longrightarrow> I (q_AddRateLimited E n w)" "I w \<Longrightarrow> I (q_Forget E k w)"
begin

lemma updateCR_stable: "updateCR E obj new w = (r, w') \<Longrightarrow> I w \<Longrightarrow> I w'"
  by (auto simp: updateCR_def Let_def dest: update_stable
      split: option.splits outcome.splits prod.splits if_splits)

lemma createUpdate_stable: "CreateUpdateAthenzDomain E d sd w = (r, w') \<Longrightarrow> I w \<Longrightarrow> I w'"
  by (auto simp: CreateUpdateAthenzDomain_def Let_def dest: create_stable updateCR_stable
      split: option.splits prod.splits if_splits)

lemma remove_stable: "RemoveAthenzDomain E d w = (e, w') \<Longrightarrow> I w \<Longrightarrow> I w'"
  by (auto simp: RemoveAthenzDomain_def dest: delete_stable split: option.splits prod.splits if_splits)

lemma zmsGet_stable: "zmsGetSignedDomains E u d w = (r, w') \<Longrightarrow> I w \<Longrightarrow> I w'"
  by (auto simp: zmsGetSignedDomains_def Let_def dest: zms_stable split: option.splits prod.splits if_splits)

lemma sync_trusts_stable: "I w \<Longrightarrow> I (sync_trusts E u d rs w)"
proof (induction rs arbitrary: w)
  case (Cons role rs)
  then show ?case
    by (cases role) (simp_all add: queue_stable split_beta Let_def)
qed simp

lemma add_all_stable: "I w \<Longrightarrow> I (add_all E ds w)"
  by (induction ds arbitrary: w) (simp_all add: queue_stable)

lemma sync_domains_stable: "sync_domains E u d sds w = (r, w') \<Longrightarrow> I w \<Longrightarrow> I w'"
proof (induction sds arbitrary: w)
  case (Cons sd sds)
  then show ?case
    by (auto dest: createUpdate_stable intro: sync_trusts_stable
        split: outcome.splits if_splits prod.splits option.splits)
qed simp

lemma UpdateErrorStatus_stable: "I w \<Longrightarrow> I (UpdateErrorStatus E ob w)"
  by (metis UpdateErrorStatus_def prod.collapse update_stable)

lemma sync_stable:
  assumes "sync E u d w = (r, w')" "I w"
  shows "I w'"
proof (cases "ValidateDomain E u d w")
  case False
  with assms show ?thesis by (auto simp: sync_def dest: remove_stable split: prod.splits)
next
  case True
  obtain z w1 where z: "zmsGetSignedDomains E u d w = (z, w1)" by fastforce
  note w1 = zmsGet_stable [OF z assms(2)]
  from assms(1) True z w1 show ?thesis
    by (auto simp: sync_def Let_def dest: remove_stable sync_domains_stable
        intro: UpdateErrorStatus_stable
        split: outcome.splits option.splits if_splits prod.splits)
qed

lemma process_key_stable: "process_key E u k w = (r, w') \<Longrightarrow> I w \<Longrightarrow> I w'"
  by (auto simp: process_key_def queue_stable dest: sync_stable
      split: queue_key.splits outcome.splits if_splits prod.splits)

lemma ns_handler_stable: "I w \<Longrightarrow> I (ns_handler E u keyf delf ev w)"
  by (cases ev; simp add: nsinformerhandler_def queue_stable split_beta Let_def)

end

text \<open>A property that the operations of the worker loop keep as well.\<close>

locale stable_world = stable_calls E I
  for E :: "('w, 'x) env" and I +
  assumes get_stable: "q_Get E w = (kq, w') \<Longrightarrow> I w \<Longrightarrow> I w'"
    and done_stable: "I w \<Longrightarrow> I (q_Done E k w)"

section \<open>A queue that nobody has shut down\<close>

text \<open>
  \<open>I\<close> says that the queue has not been shut down: then \<^verbatim>\<open>Get\<close> waits for an item and does not
  report a shutdown.
\<close>

locale running_queue = stable_world E I
  for E :: "('w, 'x) env" and I +
  assumes get_waits: "q_Get E w = ((k, quit), w') \<Longrightarrow> I w \<Longrightarrow> \<not> quit"
begin

lemma not_drained: "drained E u w w' \<Longrightarrow> \<not> I w"
  by (induction rule: drained.induct) (auto dest: get_waits get_stable process_key_stable intro: done_stable)

lemma worker_runs_on:
  assumes "I w"
  shows "runWorker E u w \<noteq> Some (Return x, w')"
  using assms not_drained [of u w w'] runWorker_iff_drained [of E u w w'] by auto

lemma wait_Until_runs_on:
  assumes "I w" "\<not> stopped w"
  shows "wait_Until E u stopped w \<noteq> Some (Return x, w')"
  using assms worker_runs_on [OF assms(1), of u]
  by (subst wait_Until.simps) (auto split: option.split outcome.split)

lemma Run_start_stable:
  "Run_start E u True (c, w) = (Return b, c', w') \<Longrightarrow> I w \<Longrightarrow> I w'"
  by (auto simp: Run_start_def AddAdminSystemDomains_eq split: outcome.splits intro: add_all_stable
      simp del: filter.simps)

end

text \<open>
  A queue that is in use: when it is empty, \<^verbatim>\<open>Get\<close> waits until the domain is offered again.
\<close>

definition refilled_env :: "'x AthenzDomain \<Rightarrow> string \<Rightarrow> ('x cluster, 'x) env" where
  "refilled_env z d = (cluster_env z)\<lparr>q_Get := (\<lambda>w. case ready w of
     [] \<Rightarrow> ((KeyString d, False), w) | k # ks \<Rightarrow> ((k, False), w\<lparr>ready := ks\<rparr>))\<rparr>"

interpretation refilled: running_queue "refilled_env z d" "\<lambda>w. True"
  by unfold_locales (auto simp: refilled_env_def split: list.splits)

section \<open>Properties\<close>

text \<open>
  C28.  Once the controller runs, closing the stop channel does not make \<^verbatim>\<open>Run\<close> return: the worker
  loop leaves \<^verbatim>\<open>Get\<close> only when the queue was shut down, which only \<^verbatim>\<open>Run\<close> itself does, after
  the worker loop has ended.  \<^verbatim>\<open>Run\<close> returns only when the caches did not synchronise or the
  channel was closed before the worker was started, and then it has shut the queue down; or it
  panics.
\<close>

theorem Run_waits_for_its_own_shutdown:
  assumes "running_queue E I" and "I w" and "controller_Run E u synced stopped (c, w) = Some (r, c', w')"
  shows "(\<exists>p. r = Panic p) \<or>
    (\<not> synced \<or> stopped (snd (snd (Run_start E u synced (c, w))))) \<and> (\<exists>w1. w' = q_ShutDown E w1)"
proof (cases r)
  case (Return x)
  obtain go c1 w1 where s: "Run_start E u synced (c, w) = (Return go, c1, w1)"
    using assms(3) Return by (auto simp: controller_Run_def split: prod.splits outcome.splits)
  show ?thesis
  proof (cases synced)
    case False
    with assms(3) Return show ?thesis by (auto simp: controller_Run_def Run_start_def)
  next
    case True
    then have go: "go" "I w1"
      using s running_queue.Run_start_stable [OF assms(1)] assms(2)
      by (auto simp: Run_start_def split: outcome.splits)
    then obtain w2 where w2: "wait_Until E u stopped w1 = Some (r, w2)" "w' = q_ShutDown E w2"
      using assms(3) s by (auto simp: controller_Run_def split: option.splits prod.splits)
    then have "stopped w1"
      using running_queue.wait_Until_runs_on [OF assms(1) go(2)] Return by metis
    with s w2 show ?thesis by auto
  qed
qed simp

lemma Run_waits_for_its_own_shutdown_witness:
  "\<exists>c' w'. controller_Run (refilled_env demo_zero ''home.domain'') demo_util False (\<lambda>w. False) (demo_cron, demo_world)
     = Some (Return (), c', w') \<and> (\<exists>w1. w' = q_ShutDown (refilled_env demo_zero ''home.domain'') w1) \<and>
   (\<nexists>cw. controller_Run (refilled_env demo_zero ''home.domain'') demo_util True (\<lambda>w. False) (demo_cron, demo_world)
     = Some (Return (), cw))"
proof -
  obtain c' w' where r: "controller_Run (refilled_env demo_zero ''home.domain'') demo_util False (\<lambda>w. False)
      (demo_cron, demo_world) = Some (Return (), c', w')"
    by (simp add: controller_Run_def Run_start_def)
  show ?thesis
    using Run_waits_for_its_own_shutdown [OF refilled.running_queue_axioms TrueI r] r
      Run_waits_for_its_own_shutdown [OF refilled.running_queue_axioms TrueI, of demo_zero "''home.domain''"
        demo_util True "\<lambda>w. False" demo_cron demo_world "Return ()"]
    by fastforce
qed

end
