(* ===== verification/Well_Formed.thy ===== *)
theory Well_Formed
  imports System
begin

text \<open>
  Pointers and dynamic types.  The API and ZMS types are full of pointers, and the informer cache
  holds untyped objects.  The code checks some of them; the others it takes to be set and of the
  right type.  This theory states what it takes for granted as an invariant of the world, and shows
  that the goroutines keep the invariant and never panic under it.
\<close>

section \<open>What the code takes for granted\<close>

definition well_formed :: "Util \<Rightarrow> 'x SignedDomain option \<Rightarrow> bool" where
  \<comment> \<open>the pointers that the filter and the comparison of an update go through are set\<close>
  "well_formed u sd \<longleftrightarrow>
     (case sd of None \<Rightarrow> False
      | Some s \<Rightarrow>
          (case domain s of None \<Rightarrow> False
           | Some d \<Rightarrow> domainPolicies d \<noteq> None \<and> (excludeMSDRules u \<longrightarrow> filterable (Some d))))"

definition typed_object :: "'x obj \<Rightarrow> bool" where
  \<comment> \<open>a cached object is a domain, and its spec can be compared\<close>
  "typed_object ob \<longleftrightarrow> (case ob of ObjAthenzDomain (Some c) \<Rightarrow> comparable (spec c) | _ \<Rightarrow> False)"

definition typed_answer ::
    "('w, 'x) env \<Rightarrow> Util \<Rightarrow> string \<Rightarrow> 'x SignedDomains option \<Rightarrow> err option \<Rightarrow> 'w \<Rightarrow> bool" where
  \<comment> \<open>an answer without an error is well-formed; an error of ZMS about a cached domain is a 404\<close>
  "typed_answer E u d doms err w \<longleftrightarrow>
     (case err of
        None \<Rightarrow> (case doms of None \<Rightarrow> False | Some sds \<Rightarrow> list_all (well_formed u) (elems (domains sds)))
      | Some e \<Rightarrow> as_ResourceError e \<in> {None, Some 404} \<or> fst (cr_GetByKey E w d) = None)"

lemma well_formed_filter:
  assumes "well_formed u sd"
  shows "\<exists>s d d'. sd = Some s \<and> domain s = Some d \<and> FilterMSDRules u (Some d) = Return (Some d') \<and>
    domainPolicies d' \<noteq> None"
  using assms
  by (auto simp: well_formed_def FilterMSDRules_def filterMSDRules_eq drop_msd_def split: option.splits)

definition prepared :: "'x SignedDomain option \<Rightarrow> bool" where
  \<comment> \<open>what the filter makes of a well-formed element of an answer\<close>
  "prepared sd \<longleftrightarrow> (case sd of None \<Rightarrow> False | Some s \<Rightarrow> comparable \<lparr>signedDomain = s\<rparr>)"

lemma filter_signed_prepared:
  "list_all (well_formed u) sds \<Longrightarrow> \<exists>ds. filter_signed u sds = Return ds \<and> list_all prepared ds"
proof (induction sds)
  case (Cons sd sds)
  then obtain ds where ds: "filter_signed u sds = Return ds" "list_all prepared ds" by auto
  obtain s d d' where "sd = Some s" "domain s = Some d" "FilterMSDRules u (Some d) = Return (Some d')"
      "domainPolicies d' \<noteq> None"
    using well_formed_filter [of u sd] Cons.prems by auto
  then have "filter_signed u (sd # sds) = Return (Some (s\<lparr>domain := Some d'\<rparr>) # ds)"
      "prepared (Some (s\<lparr>domain := Some d'\<rparr>))"
    using ds(1) by (simp_all add: prepared_def comparable_def)
  with ds(2) show ?case by (metis list.pred_inject(2))
qed simp

lemma prepared_cases:
  assumes "prepared sd"
  obtains s data where "sd = Some s" "domain s = Some data" "comparable \<lparr>signedDomain = s\<rparr>"
  using assms by (auto simp: prepared_def comparable_def split: option.splits)

definition roles_set :: "'x SignedDomain \<Rightarrow> bool" where
  \<comment> \<open>no pointer to a role is nil, as the index function of the informer needs it\<close>
  "roles_set s \<longleftrightarrow> (\<forall>d. domain s = Some d \<longrightarrow> None \<notin> set (elems (roles d)))"

lemma roles_set_filtered:
  "FilterMSDRules u (domain s) = Return d \<Longrightarrow> roles_set s \<Longrightarrow> roles_set (s\<lparr>domain := d\<rparr>)"
  by (cases d) (auto simp: roles_set_def drop_msd_def elim!: FilterMSDRules_cases)

lemma answered_roles_set:
  assumes "s \<in> answered E u d w"
    and "\<And>sds tag w' s. zms_GetSignedDomains E d [] [] False False [] w = ((Some sds, tag, None), w') \<Longrightarrow>
      Some s \<in> set (elems (domains sds)) \<Longrightarrow> roles_set s"
  shows "roles_set s"
proof -
  obtain sds x y where z: "fst (zmsGetSignedDomains E u d w) = Return (Some sds, x, y)"
    and s: "Some s \<in> set (elems (domains sds))"
    using assms(1) by (auto simp: answered_def split: outcome.splits option.splits prod.splits)
  obtain raw tag w' where raw: "zms_GetSignedDomains E d [] [] False False [] w = ((Some raw, tag, None), w')"
      "filter_signed u (elems (domains raw)) = Return (elems (domains sds))"
    using z by (auto simp: zmsGetSignedDomains_def Let_def split: prod.splits option.splits if_splits)
  then have "list_all2 (\<lambda>sd sd'. \<exists>s d. sd = Some s \<and> FilterMSDRules u (domain s) = Return d \<and>
      sd' = Some (s\<lparr>domain := d\<rparr>)) (elems (domains raw)) (elems (domains sds))"
    by (auto dest: filter_signed_Return)
  then obtain s0 d0 where "Some s0 \<in> set (elems (domains raw))" "FilterMSDRules u (domain s0) = Return d0"
      "s = s0\<lparr>domain := d0\<rparr>"
    using s by (auto simp: list_all2_conv_all_nth in_set_conv_nth) (metis nth_mem option.inject)
  with assms(2) [OF raw(1)] roles_set_filtered show ?thesis by metis
qed

locale typed_world =
  fixes E :: "('w, 'x) env"
    and u :: Util
    and typed :: "'w \<Rightarrow> bool"
  assumes copies: "faithful_copiers (copiers E)"
    and cached: "typed w \<Longrightarrow> fst (cr_GetByKey E w d) = Some ob \<Longrightarrow> typed_object ob"
    and zms_typed: "typed w \<Longrightarrow> zms_GetSignedDomains E d [] [] False False [] w = ((doms, tag, err), w') \<Longrightarrow>
      typed_answer E u d doms err w' \<and> typed w'"
    and create_typed: "typed w \<Longrightarrow> comparable (spec b) \<Longrightarrow> typed (snd (client_Create E b [] w))"
    and update_typed: "typed w \<Longrightarrow> comparable (spec b) \<Longrightarrow> typed (snd (client_Update E b [] w))"
    and delete_typed: "typed w \<Longrightarrow> typed (snd (client_Delete E n [] w))"
    and get_typed: "typed w \<Longrightarrow> typed (snd (q_Get E w))"
    and queue_typed: "typed w \<Longrightarrow> typed (q_AddRateLimited E n w)" "typed w \<Longrightarrow> typed (q_Forget E k w)"
      "typed w \<Longrightarrow> typed (q_Done E k w)"
begin

text \<open>A computation is safe when it returns, in a typed world.\<close>

definition safe :: "'a outcome \<times> 'w \<Rightarrow> bool" where
  "safe rw \<longleftrightarrow> (\<exists>x. fst rw = Return x) \<and> typed (snd rw)"

lemma safe_simps [simp]: "safe (Return x, w) \<longleftrightarrow> typed w" "\<not> safe (Panic p, w)"
  by (simp_all add: safe_def)

lemma GetCRByName_typed:
  assumes "typed w"
  obtains "GetCRByName E d w = (None, False, None)"
  | c where "GetCRByName E d w = (Some c, True, None)" "comparable (spec c)"
proof (cases "fst (cr_GetByKey E w d)")
  case None
  then show ?thesis by (intro that(1) GetCRByName_absent)
next
  case (Some ob)
  with cached [OF assms Some] show ?thesis
    by (auto simp: typed_object_def GetCRByName_present intro: that(2) split: obj.splits option.splits)
qed

lemma remove_typed: "typed w \<Longrightarrow> typed (snd (RemoveAthenzDomain E d w))"
  using delete_typed [of w d]
  by (auto simp: RemoveAthenzDomain_def split: option.splits prod.splits)

lemma updateCR_safe:
  assumes "typed w" "comparable (spec c)" "comparable (spec new)"
  shows "safe (updateCR E (Some c) (Some new) w)"
  using assms update_typed [of w "with_version c new"]
  by (simp add: updateCR_eq [OF copies] split_beta Let_def)

lemma createUpdate_safe:
  assumes "typed w" "comparable \<lparr>signedDomain = s\<rparr>"
  shows "safe (CreateUpdateAthenzDomain E d (Some s) w)"
  using assms(1)
proof (cases rule: GetCRByName_typed [of w d])
  case 1
  with create_typed [OF assms(1), of "new_cr d s"] assms(2) show ?thesis
    by (auto simp: CreateUpdateAthenzDomain_def updateCR_nil Let_def split: prod.split option.split)
next
  case (2 c)
  with updateCR_safe [OF assms(1), of c "new_cr d s"] assms(2) show ?thesis
    by (simp add: CreateUpdateAthenzDomain_def)
qed

lemma sync_trusts_typed: "typed w \<Longrightarrow> typed (sync_trusts E u d rs w)"
proof (induction rs arbitrary: w)
  case (Cons role rs)
  then show ?case
    by (cases role) (simp_all add: queue_typed split_beta Let_def)
qed simp

lemma sync_domains_safe:
  assumes "typed w" "list_all prepared sds"
  shows "safe (sync_domains E u d sds w)"
  using assms
proof (induction sds arbitrary: w)
  case (Cons sd sds)
  then have "prepared sd" by simp
  then obtain s data where s: "sd = Some s" "domain s = Some data" "comparable \<lparr>signedDomain = s\<rparr>"
    by (rule prepared_cases)
  obtain res err w1 where c: "CreateUpdateAthenzDomain E d (Some s) w = (Return (res, err), w1)" "typed w1"
    using createUpdate_safe [OF Cons.prems(1) s(3), of d] by (auto simp: safe_def prod_eq_iff)
  then have "safe (sync_domains E u d sds (sync_trusts E u d (elems (roles data)) w1))"
    using Cons by (intro Cons.IH sync_trusts_typed) auto
  with Cons s c show ?case by (auto split: option.split)
qed simp

lemma zms_answer_cases:
  assumes "typed w"
  obtains (error) e w1 where "zmsGetSignedDomains E u d w = (Return (None, False, Some e), w1)" "typed w1"
      "as_ResourceError e \<in> {None, Some 404} \<or> fst (cr_GetByKey E w1 d) = None"
  | (empty) w1 where "zmsGetSignedDomains E u d w = (Return (None, False, None), w1)" "typed w1"
  | (answer) sds w1 where "zmsGetSignedDomains E u d w = (Return (Some sds, True, None), w1)" "typed w1"
      "list_all prepared (elems (domains sds))"
proof -
  obtain doms tag err w1 where z: "zms_GetSignedDomains E d [] [] False False [] w = ((doms, tag, err), w1)"
    by (metis prod.exhaust)
  note t = zms_typed [OF assms z]
  show ?thesis
  proof (cases err)
    case (Some e)
    with z t show ?thesis
      by (intro error [of e w1]) (simp_all add: zmsGetSignedDomains_def typed_answer_def)
  next
    case None
    with t obtain sds where sds: "doms = Some sds" "list_all (well_formed u) (elems (domains sds))"
      by (auto simp: typed_answer_def split: option.splits)
    then obtain ds where "filter_signed u (elems (domains sds)) = Return ds" "list_all prepared ds"
      using filter_signed_prepared by blast
    with z t None sds(1) show ?thesis
      by (cases "elems (domains sds) = []") (auto simp: zmsGetSignedDomains_def intro: empty answer)
  qed
qed

lemma sync_safe:
  assumes "typed w"
  shows "safe (sync E u d w)"
proof (cases "ValidateDomain E u d w")
  case False
  with remove_typed [OF assms, of d] show ?thesis by (simp add: sync_def split_beta)
next
  case True
  show ?thesis
    using assms
  proof (cases rule: zms_answer_cases [of w d])
    case (error e w1)
    with True remove_typed [OF error(2), of d] show ?thesis
      by (auto simp: sync_def GetCRByName_absent split_beta split: option.split)
  next
    case (empty w1)
    with True remove_typed [OF empty(2), of d] show ?thesis by (simp add: sync_def split_beta)
  next
    case (answer sds w1)
    with True sync_domains_safe show ?thesis by (simp add: sync_def)
  qed
qed

lemma process_key_safe:
  assumes "typed w"
  shows "safe (process_key E u k w)"
proof (cases k)
  case (KeyString d)
  obtain err w1 where "sync E u d w = (Return err, w1)" "typed w1"
    using sync_safe [OF assms, of d] by (auto simp: safe_def prod_eq_iff)
  with KeyString show ?thesis by (simp add: process_key_def queue_typed)
qed (use assms in \<open>simp add: process_key_def\<close>)

lemma processNextItem_safe:
  assumes "typed w"
  shows "safe (processNextItem E u w)"
proof (cases rule: processNextItem_cases [of E w u])
  case (quit k w')
  with get_typed [OF assms] show ?thesis by simp
next
  case (item k w1 r w2)
  then have "safe (process_key E u k w1)"
    using get_typed [OF assms] by (intro process_key_safe) simp
  with item show ?thesis by (simp add: safe_def queue_typed)
qed

end

section \<open>The crons\<close>

text \<open>
  The crons go through the names of modified domains and of namespaces: the pointers to these must
  be set as well.
\<close>

definition named :: "'x SignedDomain option \<Rightarrow> bool" where
  "named sd \<longleftrightarrow> (case sd of None \<Rightarrow> False | Some s \<Rightarrow> domain s \<noteq> None)"

lemma well_formed_named: "well_formed u sd \<Longrightarrow> named sd"
  by (auto simp: well_formed_def named_def split: option.splits)

lemma all_well_formed_named: "list_all (well_formed u) sds \<Longrightarrow> list_all named sds"
  using well_formed_named by (metis list.pred_mono_strong)

context retry_notify begin

lemma retry_returns:
  assumes "I s" "\<And>s. I s \<Longrightarrow> I (snd (oper s)) \<and> returns (fst (oper s))"
  shows "returns (fst (retry b oper s))"
proof -
  have "retried oper s r \<Longrightarrow> I s \<Longrightarrow> returns (fst r)" for s r
  proof (induction rule: retried.induct)
    case (next_try s e s1 r)
    then show ?case using assms(2) [of s] by simp
  qed (use assms(2) in blast)
  then show ?thesis using runs assms(1) by blast
qed

end

locale typed_system = typed_world E u typed
  for E :: "('w, 'x) env" and u typed +
  assumes updates_typed: "typed w \<Longrightarrow>
      zms_GetSignedDomains E [] ''true'' [] False False tg w = ((doms, tag, err), w') \<Longrightarrow>
      typed w' \<and> (err = None \<longrightarrow> (\<forall>sds. doms = Some sds \<longrightarrow> list_all named (elems (domains sds))))"
    and namespaces_typed: "typed w \<Longrightarrow> ObjNamespace None \<notin> set (ns_List E w)"
    and cm_typed: "typed w \<Longrightarrow> typed (snd (cm_Get E ns n w))" "typed w \<Longrightarrow> typed (snd (cm_Create E ns cm w))"
      "typed w \<Longrightarrow> typed (snd (cm_Update E ns cm w))"
begin

lemma enqueue_updated_safe: "typed w \<Longrightarrow> list_all named sds \<Longrightarrow> safe (enqueue_updated E u sds w)"
proof (induction sds arbitrary: w)
  case (Cons sd sds)
  then obtain s d where "sd = Some s" "domain s = Some d"
    by (auto simp: named_def split: option.splits)
  with Cons show ?case by (simp add: queue_typed Let_def)
qed simp

lemma contact_time_typed: "typed w \<Longrightarrow> typed (UpdateAthenzContactTime E c tag w)"
  by (simp add: UpdateAthenzContactTime_def Let_def split_beta cm_typed split: option.split)

lemma requestCall_safe:
  assumes "typed w"
  shows "typed (snd (snd (requestCall E u (c, w)))) \<and> returns (fst (requestCall E u (c, w)))"
proof -
  obtain doms tag err w1
    where z: "zms_GetSignedDomains E [] ''true'' [] False False (etag c) w = ((doms, tag, err), w1)"
    by (metis prod.exhaust)
  define updated where "updated = (case doms of None \<Rightarrow> (Return (), w1)
      | Some ds \<Rightarrow> if 0 < length (elems (domains ds)) then enqueue_updated E u (elems (domains ds)) w1
          else (Return (), w1))"
  note t = updates_typed [OF assms z]
  show ?thesis
  proof (cases err)
    case None
    with t have "safe updated"
      unfolding updated_def by (auto intro: enqueue_updated_safe split: option.split)
    then obtain w2 where "updated = (Return (), w2)" "typed w2"
      by (auto simp: safe_def prod_eq_iff)
    with z None show ?thesis
      by (simp add: requestCall_def updated_def [symmetric] contact_time_typed Let_def)
  qed (use z t in \<open>simp add: requestCall_def\<close>)
qed

lemma add_all_typed: "typed w \<Longrightarrow> typed (add_all E ds w)"
  by (induction ds arbitrary: w) (simp_all add: queue_typed)

lemma resync_namespaces_safe:
  "typed w \<Longrightarrow> ObjNamespace None \<notin> set obs \<Longrightarrow> safe (resync_namespaces E u obs w)"
proof (induction obs arbitrary: w)
  case (Cons ob obs)
  then show ?case by (auto simp: queue_typed split: obj.split option.split)
qed simp

lemma resync_trusts_typed: "typed w \<Longrightarrow> typed (resync_trusts E ds w)"
proof (induction ds arbitrary: w)
  case (Cons d ds)
  then show ?case by (simp add: queue_typed split_beta Let_def split: option.split)
qed simp

lemma resync_safe:
  assumes "typed w"
  shows "safe (resync_once E u w)"
proof -
  obtain w1 where "resync_namespaces E u (ns_List E w) w = (Return (), w1)" "typed w1"
    using resync_namespaces_safe [OF assms namespaces_typed [OF assms]] by (auto simp: safe_def prod_eq_iff)
  then show ?thesis
    by (simp add: resync_once_def AddAdminSystemDomains_eq add_all_typed resync_trusts_typed Let_def
        del: filter.simps)
qed

lemma handler_typed:
  "typed w \<Longrightarrow> typed (ns_handler E u keyf delf ev w)" "typed w \<Longrightarrow> typed (cr_handler E keyf delf ev w)"
  by (cases ev; simp add: nsinformerhandler_def crinformerhandler_def queue_typed split_beta Let_def)+

end

lemma step_typed:
  assumes "typed_system E u typed" "retry_notify retry" "\<And>w w'. outside w w' \<Longrightarrow> typed w \<Longrightarrow> typed w'"
    and "system_step E u keyf delf retry b outside s s'" "typed (snd s)"
  shows "typed (snd s')"
proof -
  note world = typed_system.axioms(1) [OF assms(1)]
  show ?thesis
    using assms(4)
  proof cases
    case (worker w r w' c)
    with typed_world.processNextItem_safe [OF world, of w] assms(5) show ?thesis
      by (simp add: typed_world.safe_def [OF world])
  next
    case (update_cron c w r c' w')
    have "typed (snd (c', w'))"
      by (rule retry_notify.retry_invariant [OF assms(2), where I = "\<lambda>cw. typed (snd cw)", OF _ _ update_cron(3)])
        (use assms(5) update_cron typed_system.requestCall_safe [OF assms(1)] in auto)
    with update_cron show ?thesis by simp
  next
    case (full_resync w r w' c)
    with typed_system.resync_safe [OF assms(1), of w] assms(5) show ?thesis
      by (simp add: typed_world.safe_def [OF world])
  qed (use assms(3,5) typed_system.handler_typed [OF assms(1)] in auto)
qed

section \<open>The concrete environment\<close>

definition table_typed :: "Util \<Rightarrow> 'x SignedDomains option \<times> string \<times> err option \<Rightarrow> bool" where
  "table_typed u a \<longleftrightarrow>
     (case a of
        (Some sds, tag, None) \<Rightarrow> list_all (well_formed u) (elems (domains sds)) \<and>
          (\<forall>s. Some s \<in> set (elems (domains sds)) \<longrightarrow> roles_set s)
      | (doms, tag, Some e) \<Rightarrow> as_ResourceError e \<in> {None, Some 404}
      | _ \<Rightarrow> False)"

definition cluster_typed :: "Util \<Rightarrow> 'x cluster \<Rightarrow> bool" where
  "cluster_typed u w \<longleftrightarrow>
     list_all (typed_object \<circ> snd) (crCache w) \<and> (\<forall>d. table_typed u (zmsTable w d))"

lemma cluster_typed_frame:
  "crCache w' = crCache w \<Longrightarrow> zmsTable w' = zmsTable w \<Longrightarrow> cluster_typed u w' = cluster_typed u w"
  by (simp add: cluster_typed_def)

lemma cluster_typed_answer:
  "cluster_typed u w \<Longrightarrow> zmsTable w d = a \<Longrightarrow> table_typed u a"
  by (auto simp: cluster_typed_def)

lemma store_object_frame:
  "crCache (snd (store_object b w)) = crCache w" "zmsTable (snd (store_object b w)) = zmsTable w"
  by (simp_all add: store_object_def Let_def)

interpretation cluster: typed_world "cluster_env z" u "cluster_typed u" for z u
proof (unfold_locales, rule cluster_copiers)
  fix w :: "'a cluster" and d ob
  assume "cluster_typed u w" "fst (cr_GetByKey (cluster_env z) w d) = Some ob"
  then show "typed_object ob"
    using map_of_SomeD [of "crCache w" d ob] by (fastforce simp: cluster_typed_def list_all_iff)
next
  fix w w' :: "'a cluster" and d doms tag err
  assume t: "cluster_typed u w"
    and z: "zms_GetSignedDomains (cluster_env z) d [] [] False False [] w = ((doms, tag, err), w')"
  then have "zmsTable w d = (doms, tag, err)" "w' = w" by auto
  with t cluster_typed_answer [of u w d] show "typed_answer (cluster_env z) u d doms err w' \<and> cluster_typed u w'"
    by (cases doms; cases err) (auto simp: table_typed_def typed_answer_def)
qed (auto simp: cluster_Create cluster_Update cluster_Delete cluster_forget_def
    cluster_get_def store_object_def Let_def cong: cluster_typed_frame
    intro: cluster_typed_frame [THEN iffD2] split: option.split list.split queue_key.split)

interpretation cluster: typed_system "cluster_env z" u "cluster_typed u" for z u
proof (unfold_locales, goal_cases)
  case (1 w tg doms tag err w')
  then have "zmsTable w [] = (doms, tag, err)" "w' = w" by auto
  with 1(1) show ?case
    using cluster_typed_answer [of u w "[]"]
    by (auto simp: table_typed_def intro: all_well_formed_named)
qed (auto simp: cluster_env_def cong: cluster_typed_frame intro: cluster_typed_frame [THEN iffD2])

section \<open>Properties\<close>

text \<open>
  C7.  Type safety of the whole system, where ZMS does not fail for a cached domain: suppose that at the
  start the cached objects are AthenzDomains whose pointers are set, that ZMS answers with data whose
  pointers are set, with a 404, with an error that is no resource error, or with another resource error
  only for domains that are not cached, and that the outside keeps it so.  Then the same holds in every
  state that any interleaving reaches, since the goroutines write only data whose pointers are set, and
  there neither the worker nor one of the crons panics, whatever the API server answers.  Another
  resource error of ZMS, such as a 429, for a cached domain is left out, since it does make the worker
  panic (\<open>zms_error_is_lost\<close>).
\<close>

theorem system_never_panics:
  assumes "typed_system E u typed" and "retry_notify retry"
    and "\<And>w w'. outside w w' \<Longrightarrow> typed w \<Longrightarrow> typed w'"
    and "system_reaches E u keyf delf retry b outside s s'" and "typed (snd s)"
  shows "typed (snd s') \<and> returns (fst (processNextItem E u (snd s'))) \<and>
    returns (fst (retry (getExponentialBackoff b (fst s')) (requestCall E u) s')) \<and>
    returns (fst (resync_once E u (snd s')))"
proof -
  note world = typed_system.axioms(1) [OF assms(1)]
  have t: "typed (snd s')"
    using assms(4,5)
  proof (induction rule: rtranclp_induct)
    case (step s1 s2)
    show ?case
      by (rule step_typed [OF assms(1,2) _ step(2)]) (use assms(3) step.IH step.prems in auto)
  qed
  have "returns (fst (retry (getExponentialBackoff b (fst s')) (requestCall E u) s'))"
    by (rule retry_notify.retry_returns [OF assms(2), where I = "\<lambda>cw. typed (snd cw)"])
      (use t typed_system.requestCall_safe [OF assms(1)] in auto)
  with t show ?thesis
    using typed_world.processNextItem_safe [OF world t] typed_system.resync_safe [OF assms(1) t]
    by (auto simp: typed_world.safe_def [OF world])
qed

lemma demo_queued_typed: "cluster_typed demo_util demo_queued"
  by (simp add: cluster_typed_def table_typed_def demo_queued_simps demo_zms_def well_formed_def roles_set_def demo_data_def)

lemma system_never_panics_witness:
  "returns (fst (processNextItem demo_env demo_util (snd (processNextItem demo_env demo_util demo_queued))))"
proof -
  obtain r w' where p: "processNextItem demo_env demo_util demo_queued = (r, w')" by fastforce
  have run: "system_reaches demo_env demo_util demo_keyf demo_keyf (retry_upto 3) demo_backoff (\<lambda>w w'. False)
      (demo_cron, demo_queued) (demo_cron, w')"
    using system_step.worker [OF p] by (rule r_into_rtranclp)
  show ?thesis
    using system_never_panics [OF cluster.typed_system_axioms cluster.retry_notify_axioms _ run] demo_queued_typed p
    by simp
qed

end
