(* ===== verification/Convergence.thy ===== *)
theory Convergence
  imports Shutdown Well_Formed
begin

text \<open>
  What the worker loop achieves when it runs: no key that waits in the queue is lost, and every valid
  domain that waits there and that ZMS answers is in line with ZMS when the loop has ended; and it
  ends once the queue was shut down.
\<close>

section \<open>A queue that loses nothing\<close>

text \<open>
  \<open>pending\<close> are the keys that \<^verbatim>\<open>Get\<close> will hand out.  \<^verbatim>\<open>Get\<close> takes away the key that
  it returns, and it reports a shutdown only when there is none; nothing else takes a key away.
\<close>

locale lossless_queue =
  fixes E :: "('w, 'x) env"
    and pending :: "'w \<Rightarrow> queue_key set"
  assumes get_takes: "q_Get E w = ((k, False), w') \<Longrightarrow> pending w \<subseteq> insert k (pending w')"
    and get_quits: "q_Get E w = ((k, True), w') \<Longrightarrow> pending w = {}"
    and done_keeps: "pending w \<subseteq> pending (q_Done E k w)"
    and zms_keeps: "zms_GetSignedDomains E z1 z2 z3 z4 z5 z6 w = (zr, w') \<Longrightarrow> pending w \<subseteq> pending w'"
    and create_keeps: "client_Create E b opts w = (r, w') \<Longrightarrow> pending w \<subseteq> pending w'"
    and update_keeps: "client_Update E b opts w = (r, w') \<Longrightarrow> pending w \<subseteq> pending w'"
    and delete_keeps: "client_Delete E n opts w = (e, w') \<Longrightarrow> pending w \<subseteq> pending w'"
    and queue_keeps: "pending w \<subseteq> pending (q_AddRateLimited E n w)" "pending w \<subseteq> pending (q_Forget E k w)"

sublocale lossless_queue \<subseteq> kept: stable_calls E "\<lambda>w. k \<in> pending w" for k
  by unfold_locales (auto dest: zms_keeps create_keeps update_keeps delete_keeps intro: subsetD [OF queue_keeps(1)] subsetD [OF queue_keeps(2)])

context lossless_queue begin

lemma item_keeps:
  assumes "q_Get E w = ((k, False), w1)" and "process_key E u k w1 = (r, w2)"
    and "k' \<in> pending w" and "k' \<noteq> k"
  shows "k' \<in> pending (q_Done E k w2)"
proof -
  have "k' \<in> pending w1"
    using get_takes [OF assms(1)] assms(3,4) by blast
  then have "k' \<in> pending w2"
    by (rule kept.process_key_stable [OF assms(2)])
  then show ?thesis
    using done_keeps by blast
qed

end

text \<open>A queue that takes every key it is offered, as long as it is open.\<close>

locale accepting_queue = lossless_queue E pending
  for E :: "('w, 'x) env" and pending +
  fixes is_open :: "'w \<Rightarrow> bool"
  assumes offered: "is_open w \<Longrightarrow> KeyString n \<in> pending (q_AddRateLimited E n w)"
    and stays_open: "is_open w \<Longrightarrow> is_open (q_AddRateLimited E n w)"
begin

lemma add_all_keeps: "pending w \<subseteq> pending (add_all E ds w)"
proof (induction ds arbitrary: w)
  case (Cons d ds)
  show ?case
    using subset_trans [OF queue_keeps(1) Cons.IH] by simp
qed simp

lemma add_all_offers: "is_open w \<Longrightarrow> d \<in> set ds \<Longrightarrow> KeyString d \<in> pending (add_all E ds w)"
proof (induction ds arbitrary: w)
  case (Cons x ds)
  show ?case
  proof (cases "d = x")
    case True
    with offered [OF Cons.prems(1)] add_all_keeps show ?thesis by auto
  next
    case False
    with Cons stays_open show ?thesis by simp
  qed
qed simp

end

section \<open>A synchronisation that settles a domain\<close>

text \<open>
  \<open>I\<close> is a state of the outside that the worker does not change.  Two predicates on the custom
  resource of the domain \<open>d\<close> say what is to be reached and what is enough to reach it: one
  synchronisation of \<open>d\<close> settles it, and no later one unsettles it.
\<close>

locale settling_worker = worker_server E crs + stable_world E I
  for E :: "('w, 'x) env" and crs and I +
  fixes u :: Util
    and d :: string
    and settled unsettled :: "'x AthenzDomain option \<Rightarrow> bool"
  assumes sync_keeps: "sync E u d w = (r, w') \<Longrightarrow> I w \<Longrightarrow> settled (crs w d) \<Longrightarrow> settled (crs w' d)"
    and sync_settles: "I w \<Longrightarrow> unsettled (crs w d) \<Longrightarrow> \<exists>w'. sync E u d w = (Return None, w') \<and> settled (crs w' d)"
begin

lemma sync_other:
  assumes "sync E u n w = (r, w')" and "n \<noteq> d"
  shows "crs w' d = crs w d"
  using sync_effect [OF assms(1)] assms(2) by (auto simp: may_store_def)

lemma process_key_crs:
  assumes "process_key E u k w = (r, w')"
  shows "crs w' = crs w \<or> (\<exists>n r1 w1. k = KeyString n \<and> sync E u n w = (r1, w1) \<and> crs w' = crs w1)"
  using assms
  by (auto simp: process_key_def queue_frame forget_frame split: queue_key.splits outcome.splits if_splits prod.splits)

lemma item_stable:
  "q_Get E w = ((k, False), w1) \<Longrightarrow> process_key E u k w1 = (r, w2) \<Longrightarrow> I w \<Longrightarrow> I (q_Done E k w2)"
  by (blast intro: done_stable process_key_stable get_stable)

lemma item_other:
  assumes "q_Get E w = ((k, False), w1)" "process_key E u k w1 = (r, w2)" "k \<noteq> KeyString d"
  shows "crs (q_Done E k w2) d = crs w d"
proof -
  have "crs w2 d = crs w1 d"
    using process_key_crs [OF assms(2)]
  proof (elim disjE exE conjE)
    fix n r1 w3
    assume "k = KeyString n" "sync E u n w1 = (r1, w3)" "crs w2 = crs w3"
    with assms(3) sync_other [of n w1 r1 w3] show ?thesis by simp
  qed simp
  then show ?thesis
    by (simp add: done_frame get_frame [OF assms(1)])
qed

lemma item_settled:
  assumes "q_Get E w = ((k, False), w1)" "process_key E u k w1 = (r, w2)" "I w" "settled (crs w d)"
  shows "settled (crs (q_Done E k w2) d)"
proof (cases "k = KeyString d")
  case True
  have "I w1" "crs w1 = crs w"
    using get_stable [OF assms(1,3)] get_frame [OF assms(1)] by simp_all
  with process_key_crs [OF assms(2)] True assms(4) sync_keeps show ?thesis
    by (auto simp: done_frame)
next
  case False
  with item_other [OF assms(1,2)] assms(4) show ?thesis by simp
qed

lemma item_settles:
  assumes "q_Get E w = ((KeyString d, False), w1)" "process_key E u (KeyString d) w1 = (r, w2)" "I w"
    and "unsettled (crs w d)"
  shows "settled (crs (q_Done E (KeyString d) w2) d)"
proof -
  have "I w1" "unsettled (crs w1 d)"
    using get_stable [OF assms(1,3)] get_frame [OF assms(1)] assms(4) by simp_all
  then obtain w3 where "sync E u d w1 = (Return None, w3)" "settled (crs w3 d)"
    using sync_settles by blast
  with assms(2) show ?thesis
    by (auto simp: process_key_def done_frame)
qed

lemma drained_settled: "drained E u w w' \<Longrightarrow> I w \<Longrightarrow> settled (crs w d) \<Longrightarrow> settled (crs w' d)"
proof (induction rule: drained.induct)
  case (quit w k w')
  then show ?case using get_frame [OF quit(1)] by simp
next
  case (next_item w k w1 b w2 w')
  then show ?case using item_settled item_stable by blast
qed

lemma drained_settles:
  assumes "lossless_queue E pending" and "drained E u w w'" and "I w" and "unsettled (crs w d)"
    and "KeyString d \<in> pending w"
  shows "settled (crs w' d)"
  using assms(2-5)
proof (induction rule: drained.induct)
  case (quit w k w')
  then show ?case using lossless_queue.get_quits [OF assms(1)] by blast
next
  case (next_item w k w1 b w2 w')
  note stable = item_stable [OF next_item(1,2) next_item.prems(1)]
  show ?case
  proof (cases "k = KeyString d")
    case True
    then show ?thesis
      using drained_settled [OF next_item(3) stable] item_settles next_item by blast
  next
    case False
    then show ?thesis
      using next_item.IH [OF stable] item_other [OF next_item(1,2)] next_item.prems(2)
        lossless_queue.item_keeps [OF assms(1) next_item(1,2) next_item.prems(3)]
      by simp
  qed
qed

lemma worker_settles:
  assumes "lossless_queue E pending" and "runWorker E u w = Some (Return (), w')" and "I w"
    and "unsettled (crs w d)" and "KeyString d \<in> pending w"
  shows "settled (crs w' d)"
  using drained_settles [OF assms(1) _ assms(3-5)] assms(2) by (simp flip: runWorker_iff_drained)

end

section \<open>A domain that is wanted\<close>

text \<open>
  \<open>I\<close> is a state of the outside in which the domain \<open>d\<close> is valid, ZMS answers it with the data
  \<open>s\<close>, the API server is available, and the cache shows one and the same thing for \<open>d\<close>; the worker
  does not change it.
\<close>

locale quiet_domain = worker_server E crs + stable_world E I
  for E :: "('w, 'x) env" and crs and I +
  fixes u :: Util
    and d :: string
    and s :: "'x SignedDomain"
    and data data' :: "'x DomainData"
    and cached :: "'x obj option \<times> err option"
  assumes copies: "faithful_copiers (copiers E)"
    and valid: "I w \<Longrightarrow> ValidateDomain E u d w"
    and answers: "I w \<Longrightarrow> \<exists>w'. zms_answers E d w s w'"
    and available: "I w \<Longrightarrow> server_available E crs w"
    and cache: "I w \<Longrightarrow> cr_GetByKey E w d = cached"
    and answer: "domain s = Some data" "domainName data = d" "FilterMSDRules u (Some data) = Return (Some data')"
      "domainPolicies data' \<noteq> None"
begin

definition in_line :: "'x AthenzDomain option \<Rightarrow> bool" where
  "in_line co \<longleftrightarrow> (\<exists>c. co = Some c \<and>
     unsigned (spec c) = unsigned \<lparr>signedDomain = s\<lparr>domain := Some data'\<rparr>\<rparr>)"

definition shown :: "'x AthenzDomain option \<Rightarrow> bool" where
  \<comment> \<open>the cache still shows what the API server holds for the domain\<close>
  "shown co \<longleftrightarrow> cached = (map_option (\<lambda>c. ObjAthenzDomain (Some c)) co, None) \<and>
     (\<forall>c. co = Some c \<longrightarrow> comparable (spec c))"

lemma answered_only: "I w \<Longrightarrow> s' \<in> answered E u d w \<Longrightarrow> s' = s\<lparr>domain := Some data'\<rparr>"
  using answers [of w] zmsGetSignedDomains_answer [of E d w s _ u "Some data'"] answer
  by (fastforce simp: answered_def)

lemma not_unwanted: "I w \<Longrightarrow> \<not> unwanted E u d w w1"
  using answers [of w] valid [of w] by (fastforce simp: unwanted_def zms_answers_def)

lemma sync_keeps_in_line:
  assumes "sync E u d w = (r, w')" and "I w" and "in_line (crs w d)"
  shows "in_line (crs w' d)"
proof -
  have "crs w' = crs w \<or> may_store (crs w) d (answered E u d w) (crs w')"
    using sync_effect [OF assms(1)] not_unwanted [OF assms(2)] by auto
  with assms(3) answered_only [OF assms(2)] show ?thesis
    by (auto simp: may_store_def in_line_def) (metis AthenzDomainSpec.surjective old.unit.exhaust)
qed

lemma sync_brings_in_line:
  assumes "I w" and "shown (crs w d)"
  shows "\<exists>w'. sync E u d w = (Return None, w') \<and> in_line (crs w' d)"
proof -
  obtain w1 where z: "zms_answers E d w s w1"
    using answers [OF assms(1)] by blast
  then have w1: "crs w1 = crs w" "I w1"
    using zms_frame zms_stable assms(1) by (auto simp: zms_answers_def)
  then have "cache_current E crs w1 d" "\<forall>c. crs w1 d = Some c \<longrightarrow> comparable (spec c)"
    using assms(2) cache [of w1] by (simp_all add: shown_def cache_current_def)
  with sync_stores [OF copies valid [OF assms(1)] z answer _ available [OF w1(2)]] show ?thesis
    by (auto simp: in_line_def)
qed

end

sublocale quiet_domain \<subseteq> settling_worker E crs I u d in_line shown
  by unfold_locales (rule sync_keeps_in_line sync_brings_in_line; assumption)+

context quiet_domain begin

lemma worker_brings_in_line:
  assumes "lossless_queue E pending" and "I w" and "KeyString d \<in> pending w" and "cache_current E crs w d"
    and "\<forall>c. crs w d = Some c \<longrightarrow> comparable (spec c)" and "runWorker E u w = Some (Return (), w')"
  shows "\<exists>c. crs w' d = Some c \<and> unsigned (spec c) = unsigned \<lparr>signedDomain = s\<lparr>domain := Some data'\<rparr>\<rparr>"
proof -
  have "shown (crs w d)"
    using cache [OF assms(2)] assms(4,5) unfolding shown_def cache_current_def by simp
  from worker_settles [OF assms(1,6,2) this assms(3)] show ?thesis
    by (simp add: in_line_def)
qed

end

section \<open>A domain that is not wanted\<close>

text \<open>
  \<open>I\<close> is a state of the outside in which the domain is not valid, or ZMS has nothing for it, its
  custom resource can be deleted, and the cache shows one and the same thing for it; the worker
  does not change it.
\<close>

locale gone_domain = worker_server E crs + stable_world E I
  for E :: "('w, 'x) env" and crs and I +
  fixes u :: Util
    and d :: string
    and cached :: "'x obj option \<times> err option"
  assumes not_wanted: "I w \<Longrightarrow> \<exists>w1. unwanted E u d w w1"
    and deletable: "I w \<Longrightarrow> crs w d \<noteq> None \<Longrightarrow> \<exists>w'. client_Delete E d [] w = (None, w')"
    and cache: "I w \<Longrightarrow> cr_GetByKey E w d = cached"
begin

lemma sync_removes:
  assumes "I w"
  shows "\<exists>w1. crs w1 = crs w \<and> I w1 \<and> sync E u d w = (let (e, w') = RemoveAthenzDomain E d w1 in (Return e, w'))"
proof -
  obtain w1 where w1: "unwanted E u d w w1"
    using not_wanted [OF assms] by blast
  then have "crs w1 = crs w \<and> I w1"
    using zms_frame zms_stable assms by (auto simp: unwanted_def split: if_splits prod.splits)
  with sync_unwanted [OF w1] show ?thesis by blast
qed

lemma sync_keeps_gone:
  assumes "sync E u d w = (r, w')" and "I w" and "crs w d = None"
  shows "crs w' d = None"
proof -
  obtain w1 where w1: "crs w1 = crs w" "sync E u d w = (let (e, w') = RemoveAthenzDomain E d w1 in (Return e, w'))"
    using sync_removes [OF assms(2)] by blast
  obtain e w3 where "RemoveAthenzDomain E d w1 = (e, w3)" by fastforce
  with remove_effect [OF this] w1 assms(1,3) show ?thesis by auto
qed

lemma sync_makes_gone:
  assumes "I w" and "cached = (map_option (\<lambda>c. ObjAthenzDomain (Some c)) (crs w d), None)"
  shows "\<exists>w'. sync E u d w = (Return None, w') \<and> crs w' d = None"
proof -
  obtain w1 where w1: "crs w1 = crs w" "I w1"
      "sync E u d w = (let (e, w') = RemoveAthenzDomain E d w1 in (Return e, w'))"
    using sync_removes [OF assms(1)] by blast
  then have current: "cache_current E crs w1 d"
    using assms(2) cache by (simp add: cache_current_def)
  obtain w' where r: "RemoveAthenzDomain E d w1 = (None, w')"
    using deletable [OF w1(2)] by (cases "crs w1 d") (auto simp: RemoveAthenzDomain_def GetCRByName_current [OF current])
  with w1(3) remove_gone [OF r current] show ?thesis by simp
qed

end

sublocale gone_domain \<subseteq> settling_worker E crs I u d "\<lambda>co. co = None"
    "\<lambda>co. cached = (map_option (\<lambda>c. ObjAthenzDomain (Some c)) co, None)"
  by unfold_locales (rule sync_keeps_gone sync_makes_gone; assumption)+

context gone_domain begin

lemma worker_removes:
  assumes "lossless_queue E pending" and "I w" and "KeyString d \<in> pending w" and "cache_current E crs w d"
    and "runWorker E u w = Some (Return (), w')"
  shows "crs w' d = None"
proof -
  have "cached = (map_option (\<lambda>c. ObjAthenzDomain (Some c)) (crs w d), None)"
    using cache [OF assms(2)] assms(4) by (simp add: cache_current_def)
  from worker_settles [OF assms(1,5,2) this assms(3)] show ?thesis .
qed

end

section \<open>A queue that was shut down\<close>

text \<open>
  \<open>closing\<close> says that the queue was shut down, \<open>left\<close> counts its keys.  \<^verbatim>\<open>Get\<close> reports the
  shutdown or hands out one of them, and no key is taken any more.
\<close>

locale closing_queue =
  fixes E :: "('w, 'x) env"
    and closing :: "'w \<Rightarrow> bool"
    and left :: "'w \<Rightarrow> nat"
  assumes get_shrinks: "closing w \<Longrightarrow> q_Get E w = ((k, False), w') \<Longrightarrow> closing w' \<and> left w' < left w"
    and done_shut: "closing w \<Longrightarrow> closing (q_Done E k w) \<and> left (q_Done E k w) \<le> left w"
    and zms_shut: "closing w \<Longrightarrow> zms_GetSignedDomains E z1 z2 z3 z4 z5 z6 w = (zr, w') \<Longrightarrow> closing w' \<and> left w' \<le> left w"
    and create_shut: "closing w \<Longrightarrow> client_Create E b opts w = (r, w') \<Longrightarrow> closing w' \<and> left w' \<le> left w"
    and update_shut: "closing w \<Longrightarrow> client_Update E b opts w = (r, w') \<Longrightarrow> closing w' \<and> left w' \<le> left w"
    and delete_shut: "closing w \<Longrightarrow> client_Delete E n opts w = (e, w') \<Longrightarrow> closing w' \<and> left w' \<le> left w"
    and queue_shut: "closing w \<Longrightarrow> closing (q_AddRateLimited E n w) \<and> left (q_AddRateLimited E n w) \<le> left w"
      "closing w \<Longrightarrow> closing (q_Forget E k w) \<and> left (q_Forget E k w) \<le> left w"

sublocale closing_queue \<subseteq> shut: stable_calls E "\<lambda>w. closing w \<and> left w \<le> n" for n
  by unfold_locales
    (metis zms_shut le_trans, metis create_shut le_trans, metis update_shut le_trans, metis delete_shut le_trans,
      metis queue_shut(1) le_trans, metis queue_shut(2) le_trans)

context closing_queue begin

lemma item_shrinks:
  assumes "closing w" "q_Get E w = ((k, False), w1)" "process_key E u k w1 = (r, w2)"
  shows "closing (q_Done E k w2) \<and> left (q_Done E k w2) < left w"
proof -
  have "closing w1 \<and> left w1 < left w"
    using get_shrinks assms(1,2) by blast
  with shut.process_key_stable [OF assms(3), of "left w1"] done_shut [of w2 k] show ?thesis by force
qed

lemma typed_worker_drains:
  assumes "typed_world E u typed" and "closing w" and "typed w"
  shows "\<exists>w'. drained E u w w' \<and> typed w'"
  using assms(2,3)
proof (induction "left w" arbitrary: w rule: less_induct)
  case less
  show ?case
  proof (cases rule: processNextItem_cases [of E w u])
    case (quit k w1)
    then show ?thesis
      using typed_world.get_typed [OF assms(1) less.prems(2)] by (auto intro: drained.quit)
  next
    case (item k w1 r w2)
    have t1: "typed w1"
      using typed_world.get_typed [OF assms(1) less.prems(2)] item(1) by simp
    then obtain b where b: "r = Return b" "typed w2"
      using typed_world.process_key_safe [OF assms(1), of w1 k] item(2)
      by (auto simp: typed_world.safe_def [OF assms(1)])
    then have "typed (q_Done E k w2)"
      using typed_world.queue_typed(3) [OF assms(1)] by blast
    with less.hyps item_shrinks [OF less.prems(1) item(1,2)] obtain w' where
        "drained E u (q_Done E k w2) w'" "typed w'"
      by blast
    with item(1,2) b(1) show ?thesis
      by (blast intro: drained.next_item)
  qed
qed

end

section \<open>The concrete environment\<close>

interpretation cluster: lossless_queue "cluster_env z" "\<lambda>w. set (ready w)" for z
  by unfold_locales
    (auto simp: cluster_get_def cluster_add_def cluster_forget_def cluster_Create cluster_Update cluster_Delete
      store_object_def Let_def split: list.splits if_splits option.splits queue_key.splits prod.splits)

interpretation cluster: closing_queue "cluster_env z" shutting "\<lambda>w. length (ready w)" for z
  by unfold_locales
    (auto simp: cluster_get_def cluster_add_def cluster_forget_def cluster_Create cluster_Update cluster_Delete
      store_object_def Let_def split: list.splits if_splits option.splits queue_key.splits prod.splits)

interpretation cluster: accepting_queue "cluster_env z" "\<lambda>w. set (ready w)" "\<lambda>w. \<not> shutting w" for z
  by unfold_locales (auto simp: cluster_add_def)

definition demo_still :: "unit cluster \<Rightarrow> bool" where
  "demo_still w \<longleftrightarrow> zmsTable w = demo_zms \<and> namespaces w = [''home-domain''] \<and> crCache w = []"

interpretation demo: quiet_domain demo_env cluster_crs demo_still demo_util "''home.domain''" demo_signed demo_data demo_data
    "(None, None)"
proof (unfold_locales, goal_cases)
  case (11 w)
  then show ?case using demo_answers [of w] by (auto simp: demo_still_def)
next
  case (12 w)
  show ?case by (rule cluster_available)
qed (auto simp: demo_still_def faithful_copiers_def cluster_get_def cluster_forget_def cluster_Create cluster_Update cluster_Delete
    store_object_def Let_def split: list.splits if_splits option.splits queue_key.splits prod.splits)

section \<open>Properties\<close>

text \<open>
  C11.  Convergence of the worker: when the worker loop has emptied the queue and ended, every valid
  domain that waited in the queue and that ZMS answers has a custom resource that equals the answer up
  to signatures, whatever else was in the queue, was offered meanwhile or failed, provided the cache
  showed what the API server held when the loop began, and ZMS, the namespaces and the API server stand
  still.
\<close>

theorem queued_domain_converges:
  assumes "quiet_domain E crs I u d s data data' cached" and "lossless_queue E pending"
    and "I w" and "KeyString d \<in> pending w" and "cache_current E crs w d"
    and "\<forall>c. crs w d = Some c \<longrightarrow> comparable (spec c)"
    and "runWorker E u w = Some (Return (), w')"
  shows "\<exists>c. crs w' d = Some c \<and> unsigned (spec c) = unsigned \<lparr>signedDomain = s\<lparr>domain := Some data'\<rparr>\<rparr>"
  using assms by (rule quiet_domain.worker_brings_in_line)

lemma demo_home:
  assumes "demo_still w" "objects w = []" "ready w = map KeyString ns"
  shows "\<exists>w' ns'. process_key demo_env demo_util (KeyString ''home.domain'') w = (Return True, w') \<and> demo_still w' \<and>
    ready w' = map KeyString ns' \<and> set ns' \<subseteq> insert ''parent.domain'' (set ns)"
proof -
  have empty: "crCache w = []" "namespaces w = [''home-domain'']" "zmsTable w = demo_zms"
    using assms(1) by (simp_all add: demo_still_def)
  obtain c w1 where st: "store_object (new_cr ''home.domain'' demo_signed) w = (c, w1)"
    and s: "sync demo_env demo_util ''home.domain'' w
      = (Return None, sync_trusts demo_env demo_util ''home.domain'' (elems (roles demo_data)) w1)"
    using demo_sync_eq [OF assms(2) empty] by blast
  have "ready w1 = map KeyString ns" "crCache w1 = []" "namespaces w1 = [''home-domain'']"
    using st assms(3) empty by (auto simp: store_object_def Let_def)
  then have t: "sync_trusts demo_env demo_util ''home.domain'' (elems (roles demo_data)) w1 = cluster_add ''parent.domain'' w1"
      "ready (cluster_add ''parent.domain'' w1) = map KeyString ns \<or>
       ready (cluster_add ''parent.domain'' w1) = map KeyString (ns @ [''parent.domain''])"
    by (auto simp: demo_data_def cluster_add_def)
  have p: "process_key demo_env demo_util (KeyString ''home.domain'') w = (Return True, cluster_add ''parent.domain'' w1)"
    by (simp add: process_key_def s t(1))
  obtain ns' where "ready (cluster_add ''parent.domain'' w1) = map KeyString ns'" "set ns' \<subseteq> insert ''parent.domain'' (set ns)"
    using t(2) by fastforce
  with p demo.process_key_stable [OF p assms(1)] show ?thesis by blast
qed

lemma demo_other:
  assumes "demo_still w" "n \<noteq> ''home.domain''" "n \<noteq> []"
  shows "process_key demo_env demo_util (KeyString n) w = (Return True, w)"
proof -
  have "unwanted demo_env demo_util n w w"
    using assms by (simp add: unwanted_def demo_still_def demo_zms_def)
  then show ?thesis
    using assms(1) by (simp add: process_key_def sync_unwanted RemoveAthenzDomain_def GetCRByName_absent demo_still_def)
qed

lemma demo_drains_others:
  assumes "demo_still w" "ready w = map KeyString ns" "''home.domain'' \<notin> set ns" "[] \<notin> set ns"
  shows "drained demo_env demo_util w (w\<lparr>ready := []\<rparr>)"
  using assms
proof (induction ns arbitrary: w)
  case Nil
  then have "w\<lparr>ready := []\<rparr> = w" by simp
  with Nil show ?case by (intro drained.quit [of _ _ KeyOther]) (simp add: cluster_get_def)
next
  case (Cons n ns)
  let ?w = "w\<lparr>ready := map KeyString ns\<rparr>"
  have still: "demo_still ?w"
    using Cons.prems(1) by (simp add: demo_still_def)
  have "process_key demo_env demo_util (KeyString n) ?w = (Return True, ?w)"
    by (rule demo_other [OF still]) (use Cons.prems in auto)
  moreover have "q_Get demo_env w = ((KeyString n, False), ?w)"
    using Cons.prems(2) by (simp add: cluster_get_def)
  moreover have "drained demo_env demo_util ?w (?w\<lparr>ready := []\<rparr>)"
    by (rule Cons.IH [OF still]) (use Cons.prems in auto)
  ultimately show ?case
    using drained.next_item by fastforce
qed

lemma demo_drains:
  assumes "demo_still w" "objects w = []" "ready w = map KeyString (''home.domain'' # ns)"
    and "''home.domain'' \<notin> set ns" "[] \<notin> set ns"
  shows "\<exists>w'. drained demo_env demo_util w w'"
proof -
  let ?w = "w\<lparr>ready := map KeyString ns\<rparr>"
  have g: "q_Get demo_env w = ((KeyString ''home.domain'', False), ?w)" and still: "demo_still ?w"
    using assms(1,3) by (simp_all add: cluster_get_def demo_still_def)
  obtain w2 ns' where w2: "process_key demo_env demo_util (KeyString ''home.domain'') ?w = (Return True, w2)" "demo_still w2"
      "ready w2 = map KeyString ns'" "set ns' \<subseteq> insert ''parent.domain'' (set ns)"
    using demo_home [OF still, of ns] assms(2) by auto
  have "drained demo_env demo_util w2 (w2\<lparr>ready := []\<rparr>)"
    by (rule demo_drains_others [OF w2(2,3)]) (use w2(4) assms(4,5) in auto)
  with drained.next_item [OF g w2(1)] show ?thesis by auto
qed

lemma queued_domain_converges_witness:
  "\<exists>w' c. runWorker demo_env demo_util demo_queued = Some (Return (), w') \<and>
     cluster_crs w' ''home.domain'' = Some c \<and> unsigned (spec c) = unsigned \<lparr>signedDomain = demo_signed\<rparr>"
proof -
  have still: "demo_still demo_queued"
    by (simp add: demo_still_def demo_queued_simps)
  obtain w' where run: "runWorker demo_env demo_util demo_queued = Some (Return (), w')"
    using demo_drains [OF still, of "[]"] by (auto simp: demo_queued_simps demo_queued_ready runWorker_iff_drained)
  show ?thesis
    using queued_domain_converges [OF demo.quiet_domain_axioms cluster.lossless_queue_axioms still _ _ _ run] run
    by (simp add: demo_queued_ready demo_queued_simps cache_current_def)
qed

text \<open>
  C29.  The worker ends: once the queue was shut down, the worker loop returns, whatever its keys, its
  errors and its retries are, as long as the pointers in the cached AthenzDomains and in the answers of ZMS
  are set and ZMS answers with a resource error other than a 404 only for domains that are not cached.
\<close>

theorem worker_ends_after_shutdown:
  assumes "typed_world E u typed" and "closing_queue E closing left"
    and "typed w" and "closing w"
  shows "\<exists>w'. runWorker E u w = Some (Return (), w') \<and> typed w'"
  using closing_queue.typed_worker_drains [OF assms(2,1,4,3)] by (simp add: runWorker_iff_drained)

lemma worker_ends_after_shutdown_witness:
  "\<exists>w'. runWorker demo_env demo_util (q_ShutDown demo_env demo_queued) = Some (Return (), w') \<and> cluster_typed demo_util w'"
  using worker_ends_after_shutdown [OF cluster.typed_world_axioms cluster.closing_queue_axioms,
      where w = "q_ShutDown demo_env demo_queued"] demo_queued_typed
  by (simp add: cluster_typed_def)

end
