(* ===== verification/Lifecycle.thy ===== *)
theory Lifecycle
  imports Convergence
begin

text \<open>
  The components together, from an event or a cron to the custom resources: what becomes of the domain
  of a namespace that was deleted, and what one round of the full resync followed by the worker achieves.
\<close>

section \<open>What a round of the resync takes up\<close>

definition taken_up :: "('w, 'x) env \<Rightarrow> Util \<Rightarrow> 'w \<Rightarrow> string \<Rightarrow> bool" where
  \<comment> \<open>the domain of a namespace that is not excluded, the admin domain or that of a system namespace,
      or an indexed trust domain with a custom resource\<close>
  "taken_up E u w d \<longleftrightarrow>
     (\<exists>ns. ObjNamespace (Some ns) \<in> set (ns_List E w) \<and> \<not> IsNamespaceExcluded u ns \<and> d = NamespaceToDomain u ns) \<or>
     d \<noteq> [] \<and> (d = adminDomain u \<or> d \<in> NamespaceToDomain u ` set (systemNamespaces u)) \<or>
     d \<in> set (cr_ListIndexFuncValues E w trustDomainIndexKey) \<and> fst (cr_GetByKey E w d) \<noteq> None"

lemma set_resync_list:
  "set (resync_list u obs) =
     {NamespaceToDomain u ns | ns. ObjNamespace (Some ns) \<in> set obs \<and> \<not> IsNamespaceExcluded u ns}"
proof -
  have "set (List.map_filter (\<lambda>ob. case ob of ObjNamespace p \<Rightarrow> p | _ \<Rightarrow> None) obs)
      = {ns. ObjNamespace (Some ns) \<in> set obs}"
    by (induction obs) (auto simp: List.map_filter_simps split: obj.splits option.splits)
  then show ?thesis by (auto simp: resync_list_def)
qed

context quiet_queue begin

lemma resync_adds:
  assumes "ObjNamespace None \<notin> set (ns_List E w)"
    and "\<forall>d \<in> set (cr_ListIndexFuncValues E w trustDomainIndexKey). snd (cr_GetByKey E w d) = None"
  shows "\<exists>ds. resync_once E u w = (Return (), add_all E ds w) \<and> (\<forall>d. d \<in> set ds \<longleftrightarrow> taken_up E u w d)"
  by (rule exI, rule conjI, rule resync_once_eq [OF assms]) (auto simp: taken_up_def set_resync_list)

end

section \<open>A small world in which a namespace was deleted\<close>

definition demo_left :: "unit cluster \<Rightarrow> bool" where
  "demo_left w \<longleftrightarrow> namespaces w = [] \<and>
     crCache w = [(''home.domain'', ObjAthenzDomain (Some (new_cr ''home.domain'' demo_signed)))]"

definition demo_deleted :: "unit cluster" where
  "demo_deleted = demo_cached\<lparr>namespaces := [], objects := [(''home.domain'', new_cr ''home.domain'' demo_signed)]\<rparr>"

lemma demo_left_invalid: "demo_left w \<Longrightarrow> \<not> ValidateDomain demo_env demo_util ''home.domain'' w"
proof -
  assume left: "demo_left w"
  have "trust_index (ObjAthenzDomain (Some (new_cr ''home.domain'' demo_signed))) = [''parent.domain'']"
    by (simp add: trust_index_def TrustDomainIndexFunc_def trusts_of_def demo_data_def collect_trusts_eq)
  with left show ?thesis
    by (simp add: ValidateDomain_iff IsTrustDomain_def demo_left_def)
qed

interpretation demo_gone: gone_domain demo_env cluster_crs demo_left demo_util "''home.domain''"
    "(Some (ObjAthenzDomain (Some (new_cr ''home.domain'' demo_signed))), None)"
proof (unfold_locales, goal_cases)
  case (9 w)
  then show ?case using demo_left_invalid [of w] by (simp add: unwanted_def)
qed (auto simp: demo_left_def cluster_get_def cluster_forget_def cluster_Create cluster_Update cluster_Delete
    store_object_def Let_def split: list.splits if_splits option.splits queue_key.splits prod.splits)

lemma demo_left_item:
  assumes "demo_left w" and "cluster_crs w ''home.domain'' = Some c"
  shows "\<exists>w'. process_key demo_env demo_util (KeyString ''home.domain'') w = (Return True, w') \<and> ready w' = ready w"
proof -
  have "GetCRByName demo_env ''home.domain'' w = (Some (new_cr ''home.domain'' demo_signed), True, None)"
    using assms(1) by (simp add: GetCRByName_def demo_left_def)
  with assms demo_left_invalid [OF assms(1)] show ?thesis
    by (simp add: process_key_def sync_def RemoveAthenzDomain_def cluster_Delete)
qed

lemma demo_deleted_run:
  "\<exists>w'. runWorker demo_env demo_util (ns_handler demo_env demo_util demo_keyf demo_keyf
     (DeleteFunc (ObjNamespace (Some ''home-domain''))) demo_deleted) = Some (Return (), w')"
proof -
  define w0 where "w0 = ns_handler demo_env demo_util demo_keyf demo_keyf
    (DeleteFunc (ObjNamespace (Some ''home-domain''))) demo_deleted"
  have w0: "ready w0 = [KeyString ''home.domain'']" "demo_left (w0\<lparr>ready := []\<rparr>)"
      "cluster_crs (w0\<lparr>ready := []\<rparr>) ''home.domain'' = Some (new_cr ''home.domain'' demo_signed)"
    by (simp_all add: w0_def demo_left_def nsinformerhandler_def demo_keyf_def cluster_add_def demo_deleted_def
        demo_cached_def Let_def)
  then obtain w2 where w2: "process_key demo_env demo_util (KeyString ''home.domain'') (w0\<lparr>ready := []\<rparr>) = (Return True, w2)"
      "ready w2 = []"
    using demo_left_item by fastforce
  have "drained demo_env demo_util w2 w2"
    by (rule drained.quit [of _ _ KeyOther]) (simp add: cluster_get_def w2(2))
  moreover have "q_Get demo_env w0 = ((KeyString ''home.domain'', False), w0\<lparr>ready := []\<rparr>)"
    by (simp add: cluster_get_def w0(1))
  ultimately have "drained demo_env demo_util w0 w2"
    using drained.next_item [OF _ w2(1)] by simp
  then show ?thesis
    unfolding w0_def [symmetric] by (auto simp: runWorker_iff_drained)
qed

section \<open>Properties\<close>

text \<open>
  C16.  A round of the full resync and the worker bring the cluster in line with ZMS: when the worker has
  emptied the queue after a round, every valid domain that ZMS answers and that the round takes up (those
  of the namespaces that are not excluded, the admin and system domains, and the trust domains with a
  custom resource) has a custom resource that equals the answer up to signatures, whatever was lost
  before and whatever else is in the queue or fails; provided the cache showed what the API server held,
  and ZMS, the namespaces and the API server stand still.
\<close>

theorem resync_round_converges:
  assumes "quiet_domain E crs I u d s data data' cached" and "accepting_queue E pending is_open"
    and "quiet_queue E" and "ObjNamespace None \<notin> set (ns_List E w)"
    and "\<forall>d \<in> set (cr_ListIndexFuncValues E w trustDomainIndexKey). snd (cr_GetByKey E w d) = None"
    and "taken_up E u w d" and "I w" and "is_open w" and "cache_current E crs w d"
    and "\<forall>c. crs w d = Some c \<longrightarrow> comparable (spec c)"
    and "resync_once E u w = (r, w1)" and "runWorker E u w1 = Some (Return (), w')"
  shows "r = Return () \<and>
    (\<exists>c. crs w' d = Some c \<and> unsigned (spec c) = unsigned \<lparr>signedDomain = s\<lparr>domain := Some data'\<rparr>\<rparr>)"
proof -
  obtain ds where w1: "r = Return ()" "w1 = add_all E ds w" "d \<in> set ds"
    using quiet_queue.resync_adds [OF assms(3-5), of u] assms(6,11) by auto
  have "crs w1 = crs w" "cache_current E crs w1 d" "I w1"
    using quiet_domain.axioms(1,2) [OF assms(1)] w1(2) assms(7,9)
    by (simp_all add: worker_server.add_all_frame stable_calls.add_all_stable stable_world_def
        cache_current_def quiet_queue.cr_get_add_all [OF assms(3)])
  moreover have "KeyString d \<in> pending w1"
    using accepting_queue.add_all_offers [OF assms(2,8)] w1(2,3) by simp
  ultimately show ?thesis
    using quiet_domain.worker_brings_in_line [OF assms(1) accepting_queue.axioms(1) [OF assms(2)] _ _ _ _ assms(12)]
      w1(1) assms(10) by simp
qed

lemma resync_round_converges_witness:
  "\<exists>w1 w' c. resync_once demo_env demo_util demo_world = (Return (), w1) \<and>
     runWorker demo_env demo_util w1 = Some (Return (), w') \<and>
     cluster_crs w' ''home.domain'' = Some c \<and> unsigned (spec c) = unsigned \<lparr>signedDomain = demo_signed\<rparr>"
proof -
  have "NamespaceToDomain demo_util ''kube-system'' = ''admin.domain.kube-system''"
    by (simp add: NamespaceToDomain_def)
  then have r: "resync_once demo_env demo_util demo_world =
      (Return (), add_all demo_env [''home.domain'', ''admin.domain'', ''admin.domain.kube-system''] demo_world)"
    by (subst cluster.resync_once_eq) (simp_all add: resync_list_def List.map_filter_simps)
  let ?w1 = "add_all demo_env [''home.domain'', ''admin.domain'', ''admin.domain.kube-system''] demo_world"
  have "ready ?w1 = map KeyString [''home.domain'', ''admin.domain'', ''admin.domain.kube-system'']"
      "demo_still ?w1" "objects ?w1 = []"
    by (simp_all add: cluster_add_def demo_still_def)
  then obtain w' where run: "runWorker demo_env demo_util ?w1 = Some (Return (), w')"
    using demo_drains [of ?w1 "[''admin.domain'', ''admin.domain.kube-system'']"] by (auto simp: runWorker_iff_drained)
  have still: "demo_still demo_world"
    by (simp add: demo_still_def)
  have "taken_up demo_env demo_util demo_world ''home.domain''"
    unfolding taken_up_def by (intro disjI1 exI [of _ "''home-domain''"]) simp
  then have "\<exists>c. cluster_crs w' ''home.domain'' = Some c \<and> unsigned (spec c) = unsigned \<lparr>signedDomain = demo_signed\<rparr>"
    using resync_round_converges [OF demo.quiet_domain_axioms cluster.accepting_queue_axioms cluster.quiet_queue_axioms
        _ _ _ still _ _ _ r run] by (simp add: cache_current_def)
  with r run show ?thesis by blast
qed

text \<open>
  C17.  A namespace that was deleted takes its custom resource with it: when the informer reports the
  deletion of a namespace that is not excluded, and the worker has emptied the queue, the domain of the
  namespace has no custom resource any more, if it is not wanted otherwise: it is not valid, or ZMS has
  nothing for it.
\<close>

theorem deleted_namespace_is_cleaned_up:
  assumes "gone_domain E crs I u d cached" and "NamespaceToDomain u ns = d" and "accepting_queue E pending is_open"
    and "delf ob = (ns, None)" and "\<not> IsNamespaceExcluded u ns" and "I w" and "is_open w"
    and "cache_current E crs w d"
    and "runWorker E u (ns_handler E u keyf delf (DeleteFunc ob) w) = Some (Return (), w')"
  shows "crs w' d = None"
proof -
  let ?w = "ns_handler E u keyf delf (DeleteFunc ob) w"
  have w: "crs ?w = crs w" "I ?w"
    using worker_server.handler_frame(1) [OF gone_domain.axioms(1) [OF assms(1)]]
      stable_calls.ns_handler_stable [OF stable_world.axioms(1) [OF gone_domain.axioms(2) [OF assms(1)]] assms(6)]
    by blast+
  then have "cache_current E crs ?w d"
    using gone_domain.cache [OF assms(1)] assms(6,8) by (simp add: cache_current_def)
  moreover have "KeyString d \<in> pending ?w"
    using accepting_queue.offered [OF assms(3,7)] assms(2,4,5) by (simp add: nsinformerhandler_def Let_def)
  ultimately show ?thesis
    using gone_domain.worker_removes [OF assms(1) accepting_queue.axioms(1) [OF assms(3)] w(2) _ _ assms(9)] by blast
qed

lemma deleted_namespace_is_cleaned_up_witness:
  "\<exists>w'. runWorker demo_env demo_util (ns_handler demo_env demo_util demo_keyf demo_keyf
       (DeleteFunc (ObjNamespace (Some ''home-domain''))) demo_deleted) = Some (Return (), w') \<and>
     cluster_crs demo_deleted ''home.domain'' \<noteq> None \<and> cluster_crs w' ''home.domain'' = None"
proof -
  obtain w' where run: "runWorker demo_env demo_util (ns_handler demo_env demo_util demo_keyf demo_keyf
      (DeleteFunc (ObjNamespace (Some ''home-domain''))) demo_deleted) = Some (Return (), w')"
    using demo_deleted_run by blast
  have left: "demo_left demo_deleted"
    by (simp add: demo_left_def demo_deleted_def demo_cached_def)
  have "cluster_crs w' ''home.domain'' = None"
    by (rule deleted_namespace_is_cleaned_up [where ns = "''home-domain''", OF demo_gone.gone_domain_axioms _ cluster.accepting_queue_axioms _ _ left _ _ run])
      (simp_all add: demo_keyf_def demo_deleted_def demo_cached_def cache_current_def)
  with run show ?thesis
    by (simp add: demo_deleted_def)
qed

end
