(* ===== verification/Go_Filepath.thy ===== *)
theory Go_Filepath
  imports Go_Strings
begin

text \<open>
  The functions of Go's \<^verbatim>\<open>path/filepath\<close> that the file watcher and the key source
  use, for the slash-separated paths of Unix: \<^verbatim>\<open>Clean\<close>, \<^verbatim>\<open>Dir\<close>,
  \<^verbatim>\<open>Base\<close> and \<^verbatim>\<open>Join\<close>, and that the directory and the base of a
  path put together again by a slash are found back.
\<close>

section \<open>Model\<close>

abbreviation slash :: char where
  "slash \<equiv> CHR ''/''"

definition clean_step :: "bool \<Rightarrow> string list \<Rightarrow> string \<Rightarrow> string list" where
  \<comment> \<open>one component on the stack of the components kept so far, last one first\<close>
  "clean_step rooted st c =
     (if c = [] \<or> c = ''.'' then st
      else if c = ''..''
      then (case st of
              [] \<Rightarrow> (if rooted then [] else [''..''])
            | x # xs \<Rightarrow> (if x = ''..'' then ''..'' # st else xs))
      else c # st)"

fun slashed :: "string list \<Rightarrow> string" where
  "slashed [] = []"
| "slashed [c] = c"
| "slashed (c # cs) = c @ slash # slashed cs"

definition render :: "bool \<Rightarrow> string list \<Rightarrow> string" where
  "render rooted cs = (if rooted then slash # slashed cs else if cs = [] then ''.'' else slashed cs)"

definition Clean :: "string \<Rightarrow> string" where
  "Clean path =
     (let rooted = HasPrefix path [slash]
      in render rooted (rev (foldl (clean_step rooted) [] (Split path slash))))"

definition Dir :: "string \<Rightarrow> string" where
  \<comment> \<open>everything up to the last slash, cleaned\<close>
  "Dir path = Clean (rev (dropWhile (\<lambda>c. c \<noteq> slash) (rev path)))"

definition Base :: "string \<Rightarrow> string" where
  "Base path =
     (if path = [] then ''.''
      else let path = rev (dropWhile (\<lambda>c. c = slash) (rev path));
               path = rev (takeWhile (\<lambda>c. c \<noteq> slash) (rev path))
           in if path = [] then [slash] else path)"

definition Join :: "string \<Rightarrow> string \<Rightarrow> string" where
  \<comment> \<open>two elements; empty ones are ignored\<close>
  "Join a b = (if a = [] \<and> b = [] then [] else Clean (slashed (filter (\<lambda>e. e \<noteq> []) [a, b])))"

section \<open>Splitting\<close>

lemma Split_append_sep: "Split (a @ sep # b) sep = Split a sep @ Split b sep"
proof (induction a)
  case (Cons c a)
  obtain q qs where "Split a sep = q # qs" by (cases "Split a sep") auto
  with Cons show ?case by simp
qed simp

lemma Split_plain: "sep \<notin> set s \<Longrightarrow> Split s sep = [s]"
  by (induction s) auto

lemma Split_slashed: "cs \<noteq> [] \<Longrightarrow> (\<And>c. c \<in> set cs \<Longrightarrow> slash \<notin> set c) \<Longrightarrow> Split (slashed cs) slash = cs"
proof (induction cs rule: slashed.induct)
  case (3 c d ds)
  then show ?case
    by (simp add: Split_append_sep Split_plain del: Split.simps)
qed (auto simp: Split_plain)

section \<open>Normal component lists\<close>

text \<open>
  A component of a clean path is neither empty nor a dot, and has no slash; parent components
  stand at the start only, and not at all in a rooted path.
\<close>

definition plain :: "string \<Rightarrow> bool" where
  "plain c \<longleftrightarrow> c \<noteq> [] \<and> c \<noteq> ''.'' \<and> c \<noteq> ''..'' \<and> slash \<notin> set c"

definition normal :: "bool \<Rightarrow> string list \<Rightarrow> bool" where
  \<comment> \<open>of the stack, so with the last component first\<close>
  "normal rooted st \<longleftrightarrow> (\<exists>ps n. st = ps @ replicate n ''..'' \<and> list_all plain ps \<and> (rooted \<longrightarrow> n = 0))"

lemma normal_Nil [simp]: "normal rooted []"
  by (auto simp: normal_def intro: exI [of _ "[]"] exI [of _ 0])

lemma normal_push: "plain c \<Longrightarrow> normal rooted st \<Longrightarrow> normal rooted (c # st)"
  unfolding normal_def by (metis append_Cons list.pred_inject(2))

lemma normal_pop:
  assumes "normal rooted (x # xs)"
  shows "normal rooted xs \<and> (x = ''..'' \<longrightarrow> \<not> rooted \<and> normal False (''..'' # x # xs)) \<and> slash \<notin> set x"
proof -
  obtain ps n where st: "x # xs = ps @ replicate n ''..''" "list_all plain ps" "rooted \<longrightarrow> n = 0"
    using assms by (auto simp: normal_def)
  show ?thesis
  proof (cases ps)
    case Nil
    with st obtain m where "n = Suc m" "x = ''..''" "xs = replicate m ''..''" by (cases n) auto
    have "normal False (replicate k ''..'')" for k
      unfolding normal_def by (intro exI [of _ "[]"] exI [of _ k]) simp
    from this [of m] this [of "Suc (Suc m)"] \<open>n = Suc m\<close> st(3) show ?thesis
      by (auto simp: \<open>x = ''..''\<close> \<open>xs = replicate m ''..''\<close>)
  next
    case (Cons p ps')
    with st show ?thesis
      unfolding normal_def by (auto simp: plain_def)
  qed
qed

lemma normal_step:
  assumes "normal rooted st" "slash \<notin> set c"
  shows "normal rooted (clean_step rooted st c)"
proof (cases "c = ''..''")
  case True
  have up: "normal False [''..'']"
    unfolding normal_def by (intro exI [of _ "[]"] exI [of _ "1"]) simp
  show ?thesis
  proof (cases st)
    case Nil
    with True up show ?thesis by (simp add: clean_step_def)
  next
    case (Cons x xs)
    with True assms normal_pop [of rooted x xs] show ?thesis by (auto simp: clean_step_def)
  qed
next
  case False
  then show ?thesis
    using assms by (auto simp: clean_step_def plain_def intro!: normal_push)
qed

lemma normal_fold:
  "normal rooted st \<Longrightarrow> (\<And>c. c \<in> set cs \<Longrightarrow> slash \<notin> set c) \<Longrightarrow>
     normal rooted (foldl (clean_step rooted) st cs)"
  by (induction cs arbitrary: st) (simp_all add: normal_step)

text \<open>A normal list passes through the stack unchanged.\<close>

lemma fold_ups: "foldl (clean_step False) (replicate k ''..'') (replicate n ''..'') = replicate (n + k) ''..''"
proof (induction n arbitrary: k)
  case (Suc n)
  have "clean_step False (replicate k ''..'') ''..'' = replicate (Suc k) ''..''"
    by (cases k) (simp_all add: clean_step_def)
  with Suc [of "Suc k"] show ?case by simp
qed simp

lemma fold_plain: "list_all plain ps \<Longrightarrow> foldl (clean_step rooted) st ps = rev ps @ st"
  by (induction ps arbitrary: st) (auto simp: clean_step_def plain_def)

lemma fold_normal: "normal rooted st \<Longrightarrow> foldl (clean_step rooted) [] (rev st) = st"
proof -
  assume "normal rooted st"
  then obtain ps n where st: "st = ps @ replicate n ''..''" "list_all plain ps" "rooted \<longrightarrow> n = 0"
    by (auto simp: normal_def)
  have "foldl (clean_step rooted) [] (replicate n ''..'') = replicate n ''..''"
    using fold_ups [of 0 n] st(3) by (cases rooted) auto
  with st(1,2) show ?thesis
    by (simp add: fold_plain list_all_rev)
qed

lemma normal_no_slash:
  assumes "normal rooted st" "c \<in> set st"
  shows "slash \<notin> set c \<and> c \<noteq> []"
proof -
  obtain ps n where "st = ps @ replicate n ''..''" "list_all plain ps"
    using assms(1) by (auto simp: normal_def)
  then have "plain c \<or> c = ''..''"
    using assms(2) by (auto simp: list_all_iff)
  then show ?thesis by (elim disjE) (simp_all add: plain_def)
qed

section \<open>Clean paths\<close>

definition stack_of :: "string \<Rightarrow> string list" where
  "stack_of path = foldl (clean_step (HasPrefix path [slash])) [] (Split path slash)"

lemma Clean_stack: "Clean path = render (HasPrefix path [slash]) (rev (stack_of path))"
  by (simp add: Clean_def stack_of_def Let_def)

lemma stack_normal: "normal (HasPrefix path [slash]) (stack_of path)"
  unfolding stack_of_def by (rule normal_fold) (auto dest: Split_no_sep)

lemma slashed_head: "\<exists>r. slashed (c # cs) = c @ r"
  by (cases cs) simp_all

lemma render_rooted:
  assumes "normal rooted st"
  shows "HasPrefix (render rooted (rev st)) [slash] = rooted"
proof (cases "rev st")
  case (Cons c cs)
  then have "slash \<notin> set c \<and> c \<noteq> []"
    using normal_no_slash [OF assms, of c] by (metis list.set_intros(1) set_rev)
  with Cons slashed_head [of c cs] show ?thesis
    by (cases c) (auto simp: render_def HasPrefix_def)
qed (auto simp: render_def HasPrefix_def)

lemma stack_render:
  assumes "normal rooted st"
  shows "stack_of (render rooted (rev st)) = st"
proof -
  have cs: "st \<noteq> [] \<Longrightarrow> Split (slashed (rev st)) slash = rev st"
    using normal_no_slash [OF assms] by (intro Split_slashed) auto
  have empty: "clean_step r s [] = s" "clean_step r s ''.'' = s" for r s
    by (simp_all add: clean_step_def)
  show ?thesis
    unfolding stack_of_def render_rooted [OF assms]
    using cs fold_normal [OF assms]
    by (cases "st = []"; cases rooted) (simp_all add: render_def empty Split_plain)
qed

lemma Clean_idem: "Clean (Clean path) = Clean path"
  using stack_normal [of path]
  by (simp add: Clean_stack render_rooted stack_render)

text \<open>A trailing slash, or a slash between a clean directory and its slash, makes no difference.\<close>

lemma Clean_trailing_slash: "path \<noteq> [] \<Longrightarrow> Clean (path @ [slash]) = Clean path"
proof -
  assume "path \<noteq> []"
  then have "HasPrefix (path @ [slash]) [slash] = HasPrefix path [slash]"
    by (cases path) (auto simp: HasPrefix_def)
  moreover have "Split (path @ [slash]) slash = Split path slash @ [[]]"
    using Split_append_sep [of path slash "[]"] by simp
  ultimately show ?thesis
    by (simp add: Clean_def clean_step_def)
qed

lemma Clean_nonempty: "Clean path \<noteq> []"
proof (cases "rev (stack_of path)")
  case (Cons c cs)
  then have "c \<noteq> []"
    using normal_no_slash [OF stack_normal, of c path] by (metis list.set_intros(1) set_rev)
  with Cons slashed_head [of c cs] show ?thesis
    by (auto simp: Clean_stack render_def)
qed (simp add: Clean_stack render_def)

section \<open>Directory and base\<close>

lemma Base_nonempty [simp]: "Base path \<noteq> []"
  by (simp add: Base_def Let_def)

lemma Base_append:
  assumes "slash \<notin> set b" "b \<noteq> []"
  shows "Base (d @ slash # b) = b"
proof -
  have "dropWhile (\<lambda>c. c = slash) (rev b @ slash # rev d) = rev b @ slash # rev d"
    using assms by (cases "rev b") auto
  moreover have "takeWhile (\<lambda>c. c \<noteq> slash) (rev b @ slash # rev d) = rev b"
    using assms by (subst takeWhile_append2) auto
  ultimately show ?thesis
    using assms by (simp add: Base_def)
qed

lemma Dir_append:
  assumes "slash \<notin> set b" "d \<noteq> []"
  shows "Dir (d @ slash # b) = Clean d"
proof -
  have "dropWhile (\<lambda>c. c \<noteq> slash) (rev b @ slash # rev d) = slash # rev d"
    using assms by (subst dropWhile_append2) auto
  then show ?thesis
    using Clean_trailing_slash [OF assms(2)] by (simp add: Dir_def)
qed

lemma Dir_clean: "Clean (Dir path) = Dir path"
  by (simp add: Dir_def Clean_idem)

lemma Dir_nonempty [simp]: "Dir path \<noteq> []"
  by (simp add: Dir_def Clean_nonempty)

section \<open>Paths of files in a directory\<close>

lemma Clean_two_slashes: "Clean (p @ slash # slash # q) = Clean (p @ slash # q)"
proof -
  have "HasPrefix (p @ slash # slash # q) [slash] = HasPrefix (p @ slash # q) [slash]"
    by (cases p) (auto simp: HasPrefix_def)
  then show ?thesis
    by (simp add: Clean_def Split_append_sep clean_step_def del: Split.simps) (simp add: Split_append_sep clean_step_def)
qed

lemma Join_in_directory: "nm \<noteq> [] \<Longrightarrow> Join (p @ [slash]) nm = Clean (p @ slash # nm)"
  by (simp add: Join_def Clean_two_slashes)

lemma Dir_file: "slash \<notin> set b \<Longrightarrow> Dir (p @ slash # b) = Clean (p @ [slash])"
  unfolding Dir_def rev_append rev.simps append_assoc by (subst dropWhile_append2) auto

lemma Dir_plain: "slash \<notin> set b \<Longrightarrow> Dir b = ''.''"
proof -
  assume "slash \<notin> set b"
  then have d: "dropWhile (\<lambda>c. c \<noteq> slash) (rev b) = []" by auto
  show ?thesis
    unfolding Dir_def d by (simp add: Clean_def HasPrefix_def clean_step_def render_def)
qed

lemma stack_file:
  assumes "plain b"
  shows "stack_of (p @ slash # b) = b # stack_of (p @ [slash])"
proof -
  have "HasPrefix (p @ slash # b) [slash] = HasPrefix (p @ [slash]) [slash]"
    by (cases p) (auto simp: HasPrefix_def)
  then show ?thesis
    using assms Split_append_sep [of p slash b] Split_append_sep [of p slash "[]"]
    by (simp add: stack_of_def Split_plain plain_def clean_step_def)
qed

lemma slashed_snoc: "cs \<noteq> [] \<Longrightarrow> slashed (cs @ [c]) = slashed cs @ slash # c"
  by (induction cs rule: slashed.induct) auto

lemma Clean_file:
  assumes "plain b"
  shows "Base (Clean (p @ slash # b)) = b" "Dir (Clean (p @ slash # b)) = Clean (p @ [slash])"
    "last (Clean (p @ slash # b)) \<noteq> slash"
proof -
  let ?rooted = "HasPrefix (p @ [slash]) [slash]" and ?st = "stack_of (p @ [slash])"
  have "HasPrefix (p @ slash # b) [slash] = ?rooted"
    by (cases p) (auto simp: HasPrefix_def)
  then have c: "Clean (p @ slash # b) = render ?rooted (rev ?st @ [b])" "Clean (p @ [slash]) = render ?rooted (rev ?st)"
    by (simp_all add: Clean_stack stack_file [OF assms])
  have b: "slash \<notin> set b" "b \<noteq> []"
    using assms by (auto simp: plain_def)
  then have l: "last b \<noteq> slash"
    using last_in_set by metis
  have "Base (Clean (p @ slash # b)) = b \<and> Dir (Clean (p @ slash # b)) = Clean (p @ [slash]) \<and>
      last (Clean (p @ slash # b)) \<noteq> slash"
  proof (cases "?st = []")
    case True
    have "Base b = b"
      using b by (cases "rev b") (auto simp: Base_def)
    moreover have "Dir b = ''.''" "Dir (slash # b) = [slash]"
      using Dir_plain [OF b(1)] Dir_file [OF b(1), of "[]"]
      by (simp_all add: Clean_def HasPrefix_def clean_step_def render_def)
    moreover have "Base (slash # b) = b"
      using Base_append [OF b, of "[]"] by simp
    ultimately show ?thesis
      using True b(2) c l by (simp add: render_def)
  next
    case False
    then have "Clean (p @ slash # b) = Clean (p @ [slash]) @ slash # b"
      using c by (simp add: render_def slashed_snoc)
    then show ?thesis
      using Base_append [OF b, of "Clean (p @ [slash])"] Dir_append [OF b(1) Clean_nonempty, of "p @ [slash]"]
      using b(2) l by (simp add: Clean_idem)
  qed
  then show "Base (Clean (p @ slash # b)) = b" "Dir (Clean (p @ slash # b)) = Clean (p @ [slash])"
    "last (Clean (p @ slash # b)) \<noteq> slash"
    by blast+
qed

end
