(* ===== verification/Crypto.thy ===== *)
theory Crypto
  imports Prelude Go_Filepath Go_Time "HOL-Library.Multiset"
begin

text \<open>
  The component \<^verbatim>\<open>pkg/crypto\<close>: the private key source, which reads the signing
  key with the highest version from a directory, and the PEM form of a key.  The directory and
  the files are read through arguments; the PEM and X.509 encodings of the standard library are
  a record of functions, and \<^verbatim>\<open>sort.Slice\<close>, which promises a sorted permutation and
  nothing about equal elements, is an argument with a locale for its contract.
\<close>

section \<open>Numbers in file names\<close>

definition Atoi :: "string \<Rightarrow> int option" where
  \<comment> \<open>\<open>strconv.Atoi\<close>: an optional sign, decimal digits, the range of a 64-bit \<open>int\<close>\<close>
  "Atoi s =
     (let neg = HasPrefix s ''-'';
          ds = (if HasPrefix s ''-'' \<or> HasPrefix s ''+'' then tl s else s);
          v = (if neg then - int (num_of ds) else int (num_of ds))
      in if ds \<noteq> [] \<and> list_all is_digit ds \<and> in_int64 v then Some v else None)"

definition Itoa :: "int \<Rightarrow> string" where
  \<comment> \<open>the verb \<open>%d\<close>\<close>
  "Itoa v = (if v < 0 then ''-'' else []) @ digits (nat \<bar>v\<bar>)"

lemma digits_nonempty [simp]: "digits n \<noteq> []"
  by (subst digits.simps) simp

lemma digits_all: "list_all is_digit (digits n)"
  by (simp add: list_all_iff digits_are_digits)

lemma digits_no_sign: "\<not> HasPrefix (digits n) ''-''" "\<not> HasPrefix (digits n) ''+''"
proof -
  obtain c cs where d: "digits n = c # cs" by (cases "digits n") auto
  then have "is_digit c"
    using digits_are_digits [of c n] by simp
  with d show "\<not> HasPrefix (digits n) ''-''" "\<not> HasPrefix (digits n) ''+''"
    by (auto simp: HasPrefix_def is_digit_def)
qed

lemma Atoi_Itoa: "in_int64 v \<Longrightarrow> Atoi (Itoa v) = Some v"
  using digits_no_sign [of "nat \<bar>v\<bar>"]
  by (auto simp: Atoi_def Itoa_def Let_def num_of_digits digits_all HasPrefix_def)

lemma Atoi_range: "Atoi s = Some v \<Longrightarrow> in_int64 v"
  by (auto simp: Atoi_def Let_def split: if_splits)

section \<open>Model\<close>

datatype KeyType = NoKeyType | RSA | ECDSA

datatype ('r, 'e) Signer = RSAKey 'r | ECDSAKey 'e | OtherSigner

record versionedFiles =
  vfDir :: string
  vfPrefix :: string

record PrivateKeySource =
  secretName :: string
  files :: versionedFiles

record ('r, 'e) SigningKey =
  URI :: string
  keyType :: KeyType
  keyValue :: "('r, 'e) Signer"
  keyVersion :: string

record fv =
  fvFile :: string
  version :: int
  versionStr :: string

record ('r, 'e) pem_lib =
  pem_Decode :: "string \<Rightarrow> (string \<times> string) option" \<comment> \<open>type and bytes of the first block\<close>
  pem_EncodeToMemory :: "string \<times> string \<Rightarrow> string"
  ParsePKCS1PrivateKey :: "string \<Rightarrow> err + 'r"
  ParseECPrivateKey :: "string \<Rightarrow> err + 'e"
  MarshalPKCS1PrivateKey :: "'r \<Rightarrow> string"
  MarshalECPrivateKey :: "'e \<Rightarrow> err + string"

type_synonym readDir = "string \<Rightarrow> err + string list"
type_synonym readFile = "string \<Rightarrow> err + string"
type_synonym 'a sorter = "('a \<Rightarrow> 'a \<Rightarrow> bool) \<Rightarrow> 'a list \<Rightarrow> 'a list"

fun collect_versions :: "string \<Rightarrow> string \<Rightarrow> string list \<Rightarrow> fv list \<Rightarrow> fv list" where
  \<comment> \<open>the loop of \<open>list\<close> over the names in the directory\<close>
  "collect_versions dir pre [] ret = ret"
| "collect_versions dir pre (nm # nms) ret =
     (if \<not> HasPrefix nm pre then collect_versions dir pre nms ret
      else let v = TrimPrefix nm pre
           in case Atoi v of
                Some n \<Rightarrow>
                  collect_versions dir pre nms
                    (ret @ [\<lparr>fvFile = Join dir nm, version = n, versionStr = ''v'' @ Itoa n\<rparr>])
              | None \<Rightarrow> collect_versions dir pre nms ret)"

definition list_versions :: "readDir \<Rightarrow> fv sorter \<Rightarrow> versionedFiles \<Rightarrow> err + fv list" where
  \<comment> \<open>the method \<open>list\<close>\<close>
  "list_versions readDir sortSlice f =
     (let pre = vfPrefix f @ ''.v''
      in case readDir (vfDir f) of
           Inl e \<Rightarrow> Inl (Wrapped ''list files'' e)
         | Inr nms \<Rightarrow>
             (let ret = collect_versions (vfDir f) pre nms []
              in if length ret = 0 then Inl (Plain (''no versioned files under '' @ vfDir f))
                 else Inr (sortSlice (\<lambda>i j. version j < version i) ret)))"

definition NewPrivateKeySource :: "string \<Rightarrow> string \<Rightarrow> PrivateKeySource" where
  "NewPrivateKeySource dir nm = \<lparr>secretName = nm, files = \<lparr>vfDir = dir, vfPrefix = nm\<rparr>\<rparr>"

definition latestVersionContents ::
    "readDir \<Rightarrow> readFile \<Rightarrow> fv sorter \<Rightarrow> versionedFiles \<Rightarrow> (err + string \<times> string) outcome" where
  "latestVersionContents readDir readFile sortSlice f =
     (case list_versions readDir sortSlice f of
        Inl e \<Rightarrow> Return (Inl e)
      | Inr fvs \<Rightarrow>
          (case fvs of
             [] \<Rightarrow> Panic IndexOutOfRange
           | v # _ \<Rightarrow>
               Return (case readFile (fvFile v) of
                         Inl e \<Rightarrow> Inl e
                       | Inr content \<Rightarrow> Inr (content, versionStr v))))"

definition PrivateKeyFromPEMBytes ::
    "('r, 'e) pem_lib \<Rightarrow> string \<Rightarrow> err + KeyType \<times> ('r, 'e) Signer" where
  "PrivateKeyFromPEMBytes L bytes =
     (let handle = (\<lambda>e. Inl (Wrapped ''PrivateKeyFromPEMBytes'' e))
      in case pem_Decode L bytes of
           None \<Rightarrow> handle (Plain (''unable to load private key, invalid PEM block: '' @ bytes))
         | Some (ty, b) \<Rightarrow>
             (if ty = ''ECDSA PRIVATE KEY''
              then (case ParseECPrivateKey L b of Inl e \<Rightarrow> handle e | Inr k \<Rightarrow> Inr (ECDSA, ECDSAKey k))
              else if ty = ''RSA PRIVATE KEY''
              then (case ParsePKCS1PrivateKey L b of Inl e \<Rightarrow> handle e | Inr k \<Rightarrow> Inr (RSA, RSAKey k))
              else handle (Plain (''unsupported private key type: '' @ ty))))"

definition secretURI :: "string \<Rightarrow> string \<Rightarrow> string" where
  "secretURI nm v = ''secret:'' @ nm @ ''?Version='' @ v"

definition PrivateKeySource_SigningKey ::
    "('r, 'e) pem_lib \<Rightarrow> readDir \<Rightarrow> readFile \<Rightarrow> fv sorter \<Rightarrow> PrivateKeySource \<Rightarrow>
      (err + ('r, 'e) SigningKey) outcome" where
  "PrivateKeySource_SigningKey L readDir readFile sortSlice pks =
     bind_outcome (latestVersionContents readDir readFile sortSlice (files pks)) (\<lambda>res.
       case res of
         Inl e \<Rightarrow> Return (Inl e)
       | Inr (cont, ver) \<Rightarrow>
           (case PrivateKeyFromPEMBytes L cont of
              Inl e \<Rightarrow> Return (Inl e)
            | Inr (kt, key) \<Rightarrow>
                Return (Inr \<lparr>URI = secretURI (secretName pks) ver, keyType = kt, keyValue = key,
                             keyVersion = ver\<rparr>)))"

definition PEMBytes :: "('r, 'e) pem_lib \<Rightarrow> ('r, 'e) SigningKey \<Rightarrow> err + string" where
  "PEMBytes L s =
     (case keyValue s of
        RSAKey k \<Rightarrow> Inr (pem_EncodeToMemory L (''RSA PRIVATE KEY'', MarshalPKCS1PrivateKey L k))
      | ECDSAKey k \<Rightarrow>
          (case MarshalECPrivateKey L k of
             Inl e \<Rightarrow> Inl (Wrapped ''marshal ECDSA key'' e)
           | Inr b \<Rightarrow> Inr (pem_EncodeToMemory L (''ECDSA PRIVATE KEY'', b)))
      | OtherSigner \<Rightarrow> Inl (Plain ''unexpected error, key was not of RSA or ECDSA type''))"

section \<open>The contract of sort.Slice\<close>

definition strict_weak :: "('a \<Rightarrow> 'a \<Rightarrow> bool) \<Rightarrow> bool" where
  "strict_weak lt \<longleftrightarrow> (\<forall>x y. lt x y \<longrightarrow> \<not> lt y x) \<and> (\<forall>x y z. lt x z \<longrightarrow> lt x y \<or> lt y z)"

locale sort_slice =
  fixes sortSlice :: "'a sorter"
  assumes permutes: "mset (sortSlice lt xs) = mset xs"
    and sorts: "strict_weak lt \<Longrightarrow> sorted_wrt (\<lambda>x y. \<not> lt y x) (sortSlice lt xs)"
begin

lemma sort_set: "set (sortSlice lt xs) = set xs"
  using permutes mset_eq_setD by blast

lemma descending_head:
  fixes key :: "'a \<Rightarrow> int"
  assumes "sortSlice (\<lambda>x y. key y < key x) xs = v # vs"
  shows "v \<in> set xs \<and> (\<forall>x \<in> set xs. key x \<le> key v)"
proof -
  have "strict_weak (\<lambda>x y. key y < key x)"
    unfolding strict_weak_def by force
  then have "sorted_wrt (\<lambda>x y. \<not> key x < key y) (v # vs)"
    using sorts [of "\<lambda>x y. key y < key x" xs] by (simp add: assms)
  moreover have "set (v # vs) = set xs"
    using sort_set [of "\<lambda>x y. key y < key x" xs] assms by simp
  ultimately show ?thesis by force
qed

end

text \<open>
  The insertion sort that \<^verbatim>\<open>sort.Slice\<close> uses on short slices: each element moves left
  past the elements it is lt than.  The part sorted so far is kept with its last element first.
\<close>

fun move_left :: "('a \<Rightarrow> 'a \<Rightarrow> bool) \<Rightarrow> 'a \<Rightarrow> 'a list \<Rightarrow> 'a list" where
  "move_left lt x [] = [x]"
| "move_left lt x (y # ys) = (if lt x y then y # move_left lt x ys else x # y # ys)"

definition insertionSort :: "'a sorter" where
  "insertionSort lt xs = rev (foldl (\<lambda>st x. move_left lt x st) [] xs)"

lemma mset_move_left: "mset (move_left lt x ys) = add_mset x (mset ys)"
  by (induction ys) auto

lemma sorted_move_left:
  assumes "strict_weak lt" "sorted_wrt (\<lambda>a b. \<not> lt a b) ys"
  shows "sorted_wrt (\<lambda>a b. \<not> lt a b) (move_left lt x ys)"
  using assms(2)
proof (induction ys)
  case (Cons y ys)
  have "set (move_left lt x ys) = insert x (set ys)"
    using mset_move_left [of lt x ys] by (metis set_mset_add_mset_insert set_mset_mset)
  with Cons show ?case
    using assms(1) unfolding strict_weak_def by auto blast+
qed simp

interpretation insertion: sort_slice insertionSort
proof
  fix lt :: "'a \<Rightarrow> 'a \<Rightarrow> bool" and xs
  have "mset (foldl (\<lambda>st x. move_left lt x st) st xs) = mset st + mset xs" for st
    by (induction xs arbitrary: st) (auto simp: mset_move_left)
  then show "mset (insertionSort lt xs) = mset xs"
    by (simp add: insertionSort_def)
  assume order: "strict_weak lt"
  have "sorted_wrt (\<lambda>a b. \<not> lt a b) st \<Longrightarrow>
      sorted_wrt (\<lambda>a b. \<not> lt a b) (foldl (\<lambda>st x. move_left lt x st) st xs)" for st
    using sorted_move_left [OF order] by (induction xs arbitrary: st) auto
  then show "sorted_wrt (\<lambda>x y. \<not> lt y x) (insertionSort lt xs)"
    by (simp add: insertionSort_def sorted_wrt_rev)
qed

section \<open>Versioned files\<close>

text \<open>A name in the directory is that of a version of the secret.\<close>

definition versioned :: "versionedFiles \<Rightarrow> string \<Rightarrow> int \<Rightarrow> bool" where
  "versioned f nm n \<longleftrightarrow> (\<exists>v. nm = vfPrefix f @ ''.v'' @ v \<and> Atoi v = Some n)"

abbreviation fv_of :: "versionedFiles \<Rightarrow> string \<Rightarrow> int \<Rightarrow> fv" where
  "fv_of f nm n \<equiv> \<lparr>fvFile = Join (vfDir f) nm, version = n, versionStr = ''v'' @ Itoa n\<rparr>"

lemma set_collect_versions:
  "set (collect_versions (vfDir f) (vfPrefix f @ ''.v'') nms ret) =
     set ret \<union> {fv_of f nm n | nm n. nm \<in> set nms \<and> versioned f nm n}"
proof (induction nms arbitrary: ret)
  case (Cons nm nms)
  let ?pre = "vfPrefix f @ ''.v''"
  have "versioned f nm n \<longleftrightarrow> HasPrefix nm ?pre \<and> Atoi (TrimPrefix nm ?pre) = Some n" for n
  proof (cases "HasPrefix nm ?pre")
    case True
    then obtain v where v: "nm = ?pre @ v" by (auto simp: HasPrefix_def prefix_def)
    then have "TrimPrefix nm ?pre = v" by (simp only: TrimPrefix_append)
    with True v show ?thesis by (simp add: versioned_def)
  qed (auto simp: versioned_def HasPrefix_def)
  then show ?case
    using Cons by (auto split: option.split)
qed simp

lemma list_versions_cases:
  assumes "sort_slice sortSlice" "readDir (vfDir f) = Inr nms"
  obtains (none) "\<forall>nm \<in> set nms. \<forall>n. \<not> versioned f nm n"
      "list_versions readDir sortSlice f = Inl (Plain (''no versioned files under '' @ vfDir f))"
  | (some) nm n rest where "nm \<in> set nms" "versioned f nm n"
      "\<forall>nm' \<in> set nms. \<forall>n'. versioned f nm' n' \<longrightarrow> n' \<le> n"
      "list_versions readDir sortSlice f = Inr (fv_of f nm n # rest)"
proof -
  define ret where "ret = collect_versions (vfDir f) (vfPrefix f @ ''.v'') nms []"
  have ret: "set ret = {fv_of f nm n | nm n. nm \<in> set nms \<and> versioned f nm n}"
    using set_collect_versions [of f nms "[]"] by (simp add: ret_def)
  have l: "list_versions readDir sortSlice f =
      (if ret = [] then Inl (Plain (''no versioned files under '' @ vfDir f))
       else Inr (sortSlice (\<lambda>i j. version j < version i) ret))"
    by (simp add: list_versions_def assms(2) ret_def Let_def)
  show ?thesis
  proof (cases "ret = []")
    case True
    with ret l show ?thesis by (intro that(1)) auto
  next
    case False
    then have "sortSlice (\<lambda>i j. version j < version i) ret \<noteq> []"
      using sort_slice.sort_set [OF assms(1)] by (metis set_empty)
    then obtain v vs where s: "sortSlice (\<lambda>i j. version j < version i) ret = v # vs"
      by (cases "sortSlice (\<lambda>i j. version j < version i) ret") auto
    note top = sort_slice.descending_head [OF assms(1) s]
    then obtain nm n where v: "v = fv_of f nm n" "nm \<in> set nms" "versioned f nm n"
      using ret by auto
    moreover have "\<forall>nm' \<in> set nms. \<forall>n'. versioned f nm' n' \<longrightarrow> n' \<le> n"
    proof (intro ballI allI impI)
      fix nm' n' assume "nm' \<in> set nms" "versioned f nm' n'"
      then have "fv_of f nm' n' \<in> set ret" using ret by blast
      with top v(1) show "n' \<le> n" by fastforce
    qed
    ultimately show ?thesis
      using False s l by (intro that(2)) simp_all
  qed
qed

lemma latest_of_list:
  assumes "list_versions readDir sortSlice f = Inr (fv_of f nm n # rest)"
  shows "latestVersionContents readDir readFile sortSlice f =
    Return (case readFile (Join (vfDir f) nm) of Inl e \<Rightarrow> Inl e | Inr c \<Rightarrow> Inr (c, ''v'' @ Itoa n))"
  by (simp add: latestVersionContents_def assms split: sum.split)

section \<open>Properties\<close>

text \<open>
  C36.  The key source reads, of the files in its directory that are named by the secret and a
  version number, one with the highest number, compared as a number; and it never indexes into an
  empty list.  Without such a file, or without the directory, it returns an error.
\<close>

theorem latest_version_is_read:
  assumes "sort_slice sortSlice" and "readDir (vfDir f) = Inr nms"
  shows "if \<exists>nm \<in> set nms. \<exists>n. versioned f nm n
    then \<exists>nm n. nm \<in> set nms \<and> versioned f nm n \<and>
      (\<forall>nm' \<in> set nms. \<forall>n'. versioned f nm' n' \<longrightarrow> n' \<le> n) \<and>
      latestVersionContents readDir readFile sortSlice f =
        Return (case readFile (Join (vfDir f) nm) of Inl e \<Rightarrow> Inl e | Inr c \<Rightarrow> Inr (c, ''v'' @ Itoa n))
    else latestVersionContents readDir readFile sortSlice f =
        Return (Inl (Plain (''no versioned files under '' @ vfDir f)))"
  using assms
proof (cases rule: list_versions_cases)
  case none
  then show ?thesis
    by (auto simp: latestVersionContents_def)
next
  case (some nm n rest)
  with latest_of_list [OF some(4)] show ?thesis by auto
qed

definition demo_keys :: versionedFiles where
  "demo_keys = \<lparr>vfDir = ''/keys'', vfPrefix = ''s''\<rparr>"

lemma latest_version_is_read_witness:
  "latestVersionContents (\<lambda>d. Inr [''s.v10'', ''s.v9'', ''other'']) (\<lambda>p. Inr p) insertionSort demo_keys
     = Return (Inr (''/keys/s.v10'', ''v10''))"
proof -
  let ?dir = "\<lambda>d. Inr [''s.v10'', ''s.v9'', ''other'']"
  have ver: "versioned demo_keys nm n \<longleftrightarrow> HasPrefix nm ''s.v'' \<and> Atoi (TrimPrefix nm ''s.v'') = Some n" for nm n
    by (auto simp: versioned_def demo_keys_def HasPrefix_def TrimPrefix_def prefix_def)
  have nums: "Atoi ''10'' = Some 10" "Atoi ''9'' = Some 9"
    by code_simp+
  have trim: "HasPrefix ''s.v10'' ''s.v''" "TrimPrefix ''s.v10'' ''s.v'' = ''10''"
    "TrimPrefix ''s.v9'' ''s.v'' = ''9''" "\<not> HasPrefix ''other'' ''s.v''"
    "HasPrefix ''s.v9'' ''s.v''"
    by code_simp+
  have v10: "versioned demo_keys ''s.v10'' 10"
    by (simp add: ver trim nums)
  then have "\<exists>nm \<in> set [''s.v10'', ''s.v9'', ''other'']. \<exists>n. versioned demo_keys nm n"
    by auto
  then obtain nm n where nm: "nm \<in> set [''s.v10'', ''s.v9'', ''other'']" "versioned demo_keys nm n"
      "\<forall>nm' \<in> set [''s.v10'', ''s.v9'', ''other'']. \<forall>n'. versioned demo_keys nm' n' \<longrightarrow> n' \<le> n"
    and res: "latestVersionContents ?dir (\<lambda>p. Inr p) insertionSort demo_keys =
      Return (case Inr (Join (vfDir demo_keys) nm) of Inl e \<Rightarrow> Inl e | Inr c \<Rightarrow> Inr (c, ''v'' @ Itoa n))"
    using latest_version_is_read [OF insertion.sort_slice_axioms, of ?dir demo_keys
        "[''s.v10'', ''s.v9'', ''other'']" "\<lambda>p. Inr p"] by (auto simp del: list.set)
  have "10 \<le> n"
    using nm(3) v10 by simp
  with nm(1,2) have "nm = ''s.v10'' \<and> n = 10"
    by (auto simp: ver trim nums)
  moreover have "Join (vfDir demo_keys) ''s.v10'' = ''/keys/s.v10''" "''v'' @ Itoa 10 = ''v10''"
    by code_simp+
  ultimately show ?thesis
    using res by simp
qed

text \<open>
  Numbers in file names: every 64-bit version number is read back from its printed form, and
  nothing outside the 64-bit range is accepted.
\<close>

theorem version_numbers_roundtrip:
  assumes "in_int64 n"
  shows "Atoi (Itoa n) = Some n \<and> (\<forall>s v. Atoi s = Some v \<longrightarrow> in_int64 v)"
  using assms Atoi_Itoa Atoi_range by blast

lemma version_numbers_roundtrip_witness: "Atoi (Itoa (-12)) = Some (-12)"
  using version_numbers_roundtrip [of "-12"] by (simp add: in_int64_def)

text \<open>
  C37.  A key that is printed in PEM form is read back with its type, given that the encodings of
  the standard library are read back: the two functions use the same block types.
\<close>

theorem key_PEM_roundtrip:
  assumes "\<And>ty b. ty \<in> {''RSA PRIVATE KEY'', ''ECDSA PRIVATE KEY''} \<Longrightarrow>
      pem_Decode L (pem_EncodeToMemory L (ty, b)) = Some (ty, b)"
    and "\<And>k. ParsePKCS1PrivateKey L (MarshalPKCS1PrivateKey L k) = Inr k"
    and "\<And>k b. MarshalECPrivateKey L k = Inr b \<Longrightarrow> ParseECPrivateKey L b = Inr k"
    and "PEMBytes L s = Inr pem"
  shows "PrivateKeyFromPEMBytes L pem =
    Inr (case keyValue s of RSAKey k \<Rightarrow> RSA | _ \<Rightarrow> ECDSA, keyValue s)"
  using assms
  by (auto simp: PEMBytes_def PrivateKeyFromPEMBytes_def split: Signer.splits sum.splits)

definition demo_pem :: "(string, string) pem_lib" where
  \<comment> \<open>the block type, a newline and the bytes; keys are their own encoding\<close>
  "demo_pem =
     \<lparr>pem_Decode = (\<lambda>s. if CHR ''|'' \<in> set s
         then Some (takeWhile (\<lambda>c. c \<noteq> CHR ''|'') s, tl (dropWhile (\<lambda>c. c \<noteq> CHR ''|'') s)) else None),
      pem_EncodeToMemory = (\<lambda>(ty, b). ty @ ''|'' @ b),
      ParsePKCS1PrivateKey = Inr, ParseECPrivateKey = Inr,
      MarshalPKCS1PrivateKey = (\<lambda>k. k), MarshalECPrivateKey = Inr\<rparr>"

lemma key_PEM_roundtrip_witness:
  "PrivateKeyFromPEMBytes demo_pem ''ECDSA PRIVATE KEY|k1'' = Inr (ECDSA, ECDSAKey ''k1'')"
proof -
  let ?s = "\<lparr>URI = [], keyType = ECDSA, keyValue = ECDSAKey ''k1'', keyVersion = ''v1''\<rparr>
    :: (string, string) SigningKey"
  have "PrivateKeyFromPEMBytes demo_pem ''ECDSA PRIVATE KEY|k1'' =
      Inr (case keyValue ?s of RSAKey k \<Rightarrow> RSA | _ \<Rightarrow> ECDSA, keyValue ?s)"
    by (rule key_PEM_roundtrip [of demo_pem ?s]) (auto simp: demo_pem_def PEMBytes_def)
  then show ?thesis by simp
qed

text \<open>
  The signing key of a source carries the version of the file it was read from, in its
  version and in its URI; a source never panics.
\<close>

theorem SigningKey_names_its_version:
  assumes "sort_slice sortSlice"
  shows "\<exists>res. PrivateKeySource_SigningKey L readDir readFile sortSlice pks = Return res \<and>
    (\<forall>k. res = Inr k \<longrightarrow>
       (\<exists>nms nm n c. readDir (vfDir (files pks)) = Inr nms \<and> nm \<in> set nms \<and> versioned (files pks) nm n \<and>
          readFile (Join (vfDir (files pks)) nm) = Inr c \<and>
          PrivateKeyFromPEMBytes L c = Inr (keyType k, keyValue k) \<and>
          keyVersion k = ''v'' @ Itoa n \<and> URI k = secretURI (secretName pks) (keyVersion k)))"
proof (cases "readDir (vfDir (files pks))")
  case (Inl e)
  then show ?thesis
    by (simp add: PrivateKeySource_SigningKey_def latestVersionContents_def list_versions_def)
next
  case (Inr nms)
  show ?thesis
    using assms Inr
  proof (cases rule: list_versions_cases)
    case none
    then show ?thesis by (simp add: PrivateKeySource_SigningKey_def latestVersionContents_def)
  next
    case (some nm n rest)
    note l = latest_of_list [OF some(4), of readFile]
    show ?thesis
    proof (cases "readFile (Join (vfDir (files pks)) nm)")
      case (Inr c)
      with l some \<open>readDir (vfDir (files pks)) = Inr nms\<close> show ?thesis
        by (cases "PrivateKeyFromPEMBytes L c") (auto simp: PrivateKeySource_SigningKey_def, blast)
    qed (simp add: PrivateKeySource_SigningKey_def l)
  qed
qed

lemma SigningKey_names_its_version_witness:
  "\<exists>res. PrivateKeySource_SigningKey demo_pem (\<lambda>d. Inr [''s.v10'', ''s.v9'']) (\<lambda>p. Inr ''RSA PRIVATE KEY|k'') insertionSort
     (NewPrivateKeySource ''/keys'' ''s'') = Return res"
  using SigningKey_names_its_version [OF insertion.sort_slice_axioms] by blast

end
