(* ===== verification/Identity.thy ===== *)
theory Identity
  imports Crypto
begin

text \<open>
  The component \<^verbatim>\<open>pkg/identity\<close>: the provider of the service token with which the
  ZMS client authenticates.  Times are nanoseconds; the world \<^typ>\<open>'w\<close> carries the clock, the key
  provider, the token builder of \<^verbatim>\<open>zmssvctoken\<close> and the credentials of the client.
  Every operation runs under the mutex of the provider.
\<close>

section \<open>Model\<close>

definition refreshIntervalFactor :: int where
  "refreshIntervalFactor = 10"

record Config =
  Header :: string
  Domain :: string
  Service :: string
  TokenExpiry :: int

record TokenProvider =
  config :: Config
  current :: string
  expire :: int

record ('w, 'r, 'e) token_env =
  Now :: "'w \<Rightarrow> int \<times> 'w" \<comment> \<open>\<open>time.Now\<close>\<close>
  PrivateKeyProvider :: "'w \<Rightarrow> (err + ('r, 'e) SigningKey) \<times> 'w"
  pemLib :: "('r, 'e) pem_lib"
  \<comment> \<open>\<open>NewTokenBuilder(domain, service, pem, version)\<close>, then \<open>SetExpiration\<close> and
      \<open>Token().Value()\<close>\<close>
  NewTokenBuilder :: "string \<Rightarrow> string \<Rightarrow> string \<Rightarrow> string \<Rightarrow> err + string"
  TokenValue :: "string \<Rightarrow> int \<Rightarrow> 'w \<Rightarrow> (err + string) \<times> 'w"
  AddCredentials :: "string \<Rightarrow> string \<Rightarrow> 'w \<Rightarrow> 'w"

definition UpdateToken ::
    "('w, 'r, 'e) token_env \<Rightarrow> TokenProvider \<times> 'w \<Rightarrow> err option \<times> TokenProvider \<times> 'w" where
  "UpdateToken T s =
     (let (tp, w) = s; (key, w) = PrivateKeyProvider T w
      in case key of
           Inl e \<Rightarrow> (Some e, tp, w)
         | Inr k \<Rightarrow>
             (case PEMBytes (pemLib T) k of
                Inl e \<Rightarrow> (Some e, tp, w)
              | Inr pem \<Rightarrow>
                  (case NewTokenBuilder T (Domain (config tp)) (Service (config tp)) pem (keyVersion k) of
                     Inl e \<Rightarrow> (Some e, tp, w)
                   | Inr b \<Rightarrow>
                       (let (tok, w) = TokenValue T b (TokenExpiry (config tp)) w
                        in case tok of
                             Inl e \<Rightarrow> (Some e, tp, w)
                           | Inr t \<Rightarrow>
                               (let (now, w) = Now T w;
                                    tp = tp\<lparr>current := t, expire := now + TokenExpiry (config tp)\<rparr>
                                in (None, tp, AddCredentials T (Header (config tp)) (current tp) w))))))"

text \<open>
  A quarter of the expiry, in whole seconds: \<^verbatim>\<open>time.Duration(Seconds() * 0.25)\<close>.  The
  product is a floating point number in the code; its integer part is that of the exact quotient
  for every expiry below 52 days, where the rounding error stays under a nanosecond.
\<close>

definition gracePeriod :: "int \<Rightarrow> int" where
  "gracePeriod expiry = wrap64 (10 ^ 9 * quot expiry (4 * 10 ^ 9))"

definition Token ::
    "('w, 'r, 'e) token_env \<Rightarrow> TokenProvider \<times> 'w \<Rightarrow> (err + string) \<times> TokenProvider \<times> 'w" where
  "Token T s =
     (let (tp, w) = s; (t, w) = Now T w; now = t + gracePeriod (TokenExpiry (config tp))
      in if expire tp < now
         then (case UpdateToken T (tp, w) of
                 (Some e, s) \<Rightarrow> (Inl e, s)
               | (None, (tp, w)) \<Rightarrow> (Inr (current tp), tp, w))
         else (Inr (current tp), tp, w))"

datatype 'w tick = Tick "'w \<Rightarrow> 'w" | StopCh
  \<comment> \<open>the ticker fires after the world has moved, or the stop channel is closed\<close>

fun refresh_run :: "('w, 'r, 'e) token_env \<Rightarrow> 'w tick list \<Rightarrow> TokenProvider \<times> 'w \<Rightarrow> TokenProvider \<times> 'w" where
  "refresh_run T [] s = s"
| "refresh_run T (Tick f # es) (tp, w) = refresh_run T es (snd (Token T (tp, f w)))"
| "refresh_run T (StopCh # es) s = s"

definition refreshLoop ::
    "('w, 'r, 'e) token_env \<Rightarrow> int \<Rightarrow> 'w tick list \<Rightarrow> TokenProvider \<times> 'w \<Rightarrow>
      (TokenProvider \<times> 'w) outcome" where
  "refreshLoop T interval es s =
     (if interval \<le> 0 then Panic (LogPanic ''non-positive interval for NewTicker'')
      else Return (refresh_run T es s))"

definition zeroTime :: int where
  \<comment> \<open>the zero value of \<open>time.Time\<close>: the first of January of the year one\<close>
  "zeroTime = - 62135596800 * 10 ^ 9"

definition NewTokenProvider ::
    "('w, 'r, 'e) token_env \<Rightarrow> Config \<Rightarrow> 'w \<Rightarrow> (err + TokenProvider \<times> int) \<times> 'w" where
  \<comment> \<open>with the interval with which \<open>refreshLoop\<close> is started\<close>
  "NewTokenProvider T cfg w =
     (let cfg = (if TokenExpiry cfg = 0 then cfg\<lparr>TokenExpiry := 3600 * 10 ^ 9\<rparr> else cfg);
          tp = \<lparr>config = cfg, current = [], expire = zeroTime\<rparr>
      in case Token T (tp, w) of
           (Inl e, tp, w) \<Rightarrow> (Inl (Wrapped ''mint token'' e), w)
         | (Inr _, tp, w) \<Rightarrow> (Inr (tp, quot (TokenExpiry cfg) refreshIntervalFactor), w))"

section \<open>One call\<close>

lemma UpdateToken_cases:
  obtains (failed) e w' where "UpdateToken T (tp, w) = (Some e, tp, w')"
  | (minted) tok w1 now w2 where "Now T w1 = (now, w2)"
      "UpdateToken T (tp, w) = (None, tp\<lparr>current := tok, expire := now + TokenExpiry (config tp)\<rparr>,
         AddCredentials T (Header (config tp)) tok w2)"
proof -
  obtain key w0 where k: "PrivateKeyProvider T w = (key, w0)" by fastforce
  show ?thesis
  proof (cases "\<exists>k pem b t. key = Inr k \<and> PEMBytes (pemLib T) k = Inr pem \<and>
      NewTokenBuilder T (Domain (config tp)) (Service (config tp)) pem (keyVersion k) = Inr b \<and>
      fst (TokenValue T b (TokenExpiry (config tp)) w0) = Inr t")
    case True
    then obtain k' pem b t where "key = Inr k'" "PEMBytes (pemLib T) k' = Inr pem"
        "NewTokenBuilder T (Domain (config tp)) (Service (config tp)) pem (keyVersion k') = Inr b"
        "fst (TokenValue T b (TokenExpiry (config tp)) w0) = Inr t"
      by blast
    moreover obtain w1 where "TokenValue T b (TokenExpiry (config tp)) w0 = (Inr t, w1)"
      using calculation(4) by (metis prod.collapse)
    moreover obtain now w2 where "Now T w1 = (now, w2)" by fastforce
    ultimately show ?thesis
      using k by (intro that(2) [of w1 now w2 t]) (simp_all add: UpdateToken_def Let_def)
  next
    case False
    then have "\<exists>e w'. UpdateToken T (tp, w) = (Some e, tp, w')"
      using k by (auto simp: UpdateToken_def Let_def split: sum.split prod.split)
    with that(1) show ?thesis by blast
  qed
qed

lemma UpdateToken_config: "UpdateToken T (tp, w) = (e, tp', w') \<Longrightarrow> config tp' = config tp"
  by (cases rule: UpdateToken_cases [of T tp w]) auto

section \<open>The clock and the client\<close>

text \<open>
  The clock does not go back while the calls run, and \<^verbatim>\<open>AddCredentials\<close> sets the
  header of the ZMS client, which nothing else touches.
\<close>

locale zms_session =
  fixes T :: "('w, 'r, 'e) token_env"
    and clock :: "'w \<Rightarrow> int"
    and headers :: "'w \<Rightarrow> string \<Rightarrow> string option"
  assumes now: "Now T w = (t, w') \<Longrightarrow> t = clock w \<and> clock w \<le> clock w' \<and> headers w' = headers w"
    and provider: "PrivateKeyProvider T w = (k, w') \<Longrightarrow> clock w \<le> clock w' \<and> headers w' = headers w"
    and token_value: "TokenValue T b x w = (r, w') \<Longrightarrow> clock w \<le> clock w' \<and> headers w' = headers w"
    and add_credentials: "clock (AddCredentials T h v w) = clock w"
      "headers (AddCredentials T h v w) = (headers w)(h \<mapsto> v)"
begin

lemma update_failed:
  assumes "UpdateToken T (tp, w) = (Some e, tp', w')"
  shows "tp' = tp" "headers w' = headers w"
  using assms
  by (auto simp: UpdateToken_def Let_def split: prod.splits sum.splits
      dest!: provider token_value)

lemma update_minted:
  assumes "UpdateToken T (tp, w) = (None, tp', w')"
  shows "config tp' = config tp" "clock w + TokenExpiry (config tp) \<le> expire tp'"
    "headers w' = (headers w)(Header (config tp) \<mapsto> current tp')"
proof -
  have "\<exists>w1 w2 w3 k b v t. PrivateKeyProvider T w = (k, w1) \<and>
      TokenValue T b (TokenExpiry (config tp)) w1 = (v, w2) \<and> Now T w2 = (t, w3) \<and>
      config tp' = config tp \<and> expire tp' = t + TokenExpiry (config tp) \<and>
      w' = AddCredentials T (Header (config tp)) (current tp') w3"
    using assms by (auto simp: UpdateToken_def Let_def split: prod.splits sum.splits, blast)
  then show "config tp' = config tp" "clock w + TokenExpiry (config tp) \<le> expire tp'"
    "headers w' = (headers w)(Header (config tp) \<mapsto> current tp')"
    using provider token_value now add_credentials by fastforce+
qed

end

text \<open>The configuration of the provider never changes.\<close>

lemma Token_config:
  assumes "Token T (tp, w) = (r, tp', w')"
  shows "config tp' = config tp"
proof -
  obtain t w1 where n: "Now T w = (t, w1)" by fastforce
  obtain e tp2 w2 where u: "UpdateToken T (tp, w1) = (e, tp2, w2)" by (metis prod.exhaust)
  show ?thesis
    using assms UpdateToken_config [OF u] by (auto simp: Token_def n u split: if_splits option.splits)
qed

lemma NewTokenProvider_config:
  assumes "NewTokenProvider T cfg w = (Inr (tp, interval), w')"
  shows "config tp = cfg\<lparr>TokenExpiry := (if TokenExpiry cfg = 0 then 3600 * 10 ^ 9 else TokenExpiry cfg)\<rparr> \<and>
    interval = quot (TokenExpiry (config tp)) refreshIntervalFactor"
proof -
  define cfg' where "cfg' = (if TokenExpiry cfg = 0 then cfg\<lparr>TokenExpiry := 3600 * 10 ^ 9\<rparr> else cfg)"
  obtain r where "Token T (\<lparr>config = cfg', current = [], expire = zeroTime\<rparr>, w) = (r, tp, w')"
      "interval = quot (TokenExpiry cfg') refreshIntervalFactor"
    using assms by (auto simp: NewTokenProvider_def Let_def cfg'_def split: prod.splits sum.splits)
  with Token_config [OF this(1)] show ?thesis
    by (auto simp: cfg'_def)
qed

section \<open>Grace period and interval\<close>

lemma gracePeriod_eq:
  assumes "0 \<le> x" "x \<le> max_int64"
  shows "gracePeriod x = 10 ^ 9 * (x div (4 * 10 ^ 9))"
proof -
  have "10 ^ 9 * (x div (4 * 10 ^ 9)) \<le> x" "0 \<le> 10 ^ 9 * (x div (4 * 10 ^ 9))"
    using assms by auto
  then show ?thesis
    using assms by (simp add: gracePeriod_def quot_nonneg wrap64_id in_int64_def)
qed

lemma gracePeriod_le: "0 \<le> x \<Longrightarrow> x \<le> max_int64 \<Longrightarrow> gracePeriod x \<le> x"
  by (simp add: gracePeriod_eq)

lemma interval_le_grace:
  assumes "4 * 10 ^ 9 \<le> x" "x \<le> max_int64"
  shows "quot x refreshIntervalFactor \<le> gracePeriod x"
proof -
  have "quot x refreshIntervalFactor = x div 10"
    using assms by (simp add: refreshIntervalFactor_def quot_nonneg)
  moreover have "gracePeriod x = 10 ^ 9 * (x div (4 * 10 ^ 9))"
    using assms by (intro gracePeriod_eq) simp_all
  moreover have "x div 10 \<le> 10 ^ 9 * (x div (4 * 10 ^ 9))"
  proof -
    define q p where "q = x div 4000000000" and "p = x div 10"
    have "1 \<le> q"
      using assms(1) zdiv_mono1 [of 4000000000 x 4000000000] by (simp add: q_def)
    moreover have "x < 4000000000 * q + 4000000000" "10 * p \<le> x"
      by (simp_all add: q_def p_def)
    ultimately have "p \<le> 1000000000 * q" by simp
    then show ?thesis by (simp add: q_def p_def)
  qed
  ultimately show ?thesis by simp
qed

section \<open>The key source as provider\<close>

text \<open>
  The environment as \<^verbatim>\<open>main\<close> wires it: keys come from the private key source, whose
  lookup never panics; the token builder of \<^verbatim>\<open>zmssvctoken\<close> is an argument.
\<close>

record session_world =
  wallClock :: int
  clientHeaders :: "string \<Rightarrow> string option"

definition source_provider ::
    "('r, 'e) pem_lib \<Rightarrow> readDir \<Rightarrow> readFile \<Rightarrow> fv sorter \<Rightarrow> PrivateKeySource \<Rightarrow>
      err + ('r, 'e) SigningKey" where
  "source_provider L rd rf sortSlice pks =
     (case PrivateKeySource_SigningKey L rd rf sortSlice pks of Return r \<Rightarrow> r | Panic _ \<Rightarrow> Inl (Plain ''unreachable''))"

definition source_env ::
    "('r, 'e) pem_lib \<Rightarrow> readDir \<Rightarrow> readFile \<Rightarrow> fv sorter \<Rightarrow> PrivateKeySource \<Rightarrow>
      (string \<Rightarrow> string \<Rightarrow> string \<Rightarrow> string \<Rightarrow> err + string) \<Rightarrow> (string \<Rightarrow> int \<Rightarrow> int \<Rightarrow> err + string) \<Rightarrow>
      (session_world, 'r, 'e) token_env" where
  "source_env L rd rf sortSlice pks builder tokval =
     \<lparr>Now = (\<lambda>w. (wallClock w, w\<lparr>wallClock := wallClock w + 1\<rparr>)),
      PrivateKeyProvider = (\<lambda>w. (source_provider L rd rf sortSlice pks, w)),
      pemLib = L,
      NewTokenBuilder = builder,
      TokenValue = (\<lambda>b x w. (tokval b x (wallClock w), w\<lparr>wallClock := wallClock w + 1\<rparr>)),
      AddCredentials = (\<lambda>h v w. w\<lparr>clientHeaders := (clientHeaders w)(h \<mapsto> v)\<rparr>)\<rparr>"

interpretation session: zms_session "source_env L rd rf sortSlice pks builder tokval" wallClock clientHeaders
  for L rd rf sortSlice pks builder tokval
  by unfold_locales (auto simp: source_env_def)

section \<open>Calls\<close>

lemma Token_headers:
  assumes "zms_session T clock headers" and "Token T (tp, w) = (res, tp', w')"
  shows "config tp' = config tp \<and>
    (tp' = tp \<and> headers w' = headers w \<or> headers w' = (headers w)(Header (config tp) \<mapsto> current tp'))"
proof -
  obtain t w1 where n: "Now T w = (t, w1)" by fastforce
  obtain e tp2 w2 where u: "UpdateToken T (tp, w1) = (e, tp2, w2)" by (metis prod.exhaust)
  have "(tp' = tp \<and> w' = w1) \<or> (tp' = tp2 \<and> w' = w2)"
    using assms(2) n u by (auto simp: Token_def split: if_splits option.splits)
  moreover have "config tp2 = config tp \<and> (tp2 = tp \<and> headers w2 = headers w1 \<or>
      headers w2 = (headers w1)(Header (config tp) \<mapsto> current tp2))"
    using u zms_session.update_failed [OF assms(1), of tp w1 _ tp2 w2]
      zms_session.update_minted [OF assms(1), of tp w1 tp2 w2] by (cases e) auto
  ultimately show ?thesis
    using zms_session.now [OF assms(1) n] by auto
qed

lemma Token_result:
  assumes "zms_session T clock headers" and "0 \<le> TokenExpiry (config tp)"
    and "TokenExpiry (config tp) \<le> max_int64" and "Token T (tp, w) = (res, tp', w')"
  shows "case res of Inl e \<Rightarrow> tp' = tp \<and> headers w' = headers w
    | Inr tok \<Rightarrow> tok = current tp' \<and> clock w + gracePeriod (TokenExpiry (config tp)) \<le> expire tp'"
proof -
  obtain t w1 where n: "Now T w = (t, w1)" by fastforce
  note n' = zms_session.now [OF assms(1) n]
  show ?thesis
  proof (cases "expire tp < t + gracePeriod (TokenExpiry (config tp))")
    case False
    then show ?thesis
      using assms(4) n n' by (auto simp: Token_def)
  next
    case True
    obtain e tp2 w2 where u: "UpdateToken T (tp, w1) = (e, tp2, w2)" by (metis prod.exhaust)
    show ?thesis
    proof (cases e)
      case None
      with u have m: "UpdateToken T (tp, w1) = (None, tp2, w2)" by simp
      have "res = Inr (current tp2)" "tp' = tp2"
        using assms(4) n True m by (auto simp: Token_def)
      then show ?thesis
        using zms_session.update_minted(2) [OF assms(1) m] gracePeriod_le [OF assms(2,3)] n' by simp
    next
      case (Some er)
      with u have m: "UpdateToken T (tp, w1) = (Some er, tp2, w2)" by simp
      have "res = Inl er" "tp' = tp2" "w' = w2"
        using assms(4) n True m by (auto simp: Token_def)
      then show ?thesis
        using zms_session.update_failed [OF assms(1) m] n' by simp
    qed
  qed
qed

lemmas Token_good = Token_result [where res = "Inr tok" for tok, simplified]

lemma refresh_run_headers:
  assumes "zms_session T clock headers"
    and "list_all (\<lambda>e. case e of Tick f \<Rightarrow> \<forall>w. headers (f w) = headers w | StopCh \<Rightarrow> True) es"
    and "refresh_run T es (tp, w) = (tp', w')" "headers w (Header (config tp)) = Some (current tp)"
  shows "headers w' (Header (config tp)) = Some (current tp')"
  using assms(2-4)
proof (induction es arbitrary: tp w)
  case (Cons e es)
  show ?case
  proof (cases e)
    case (Tick f)
    obtain res tp1 w1 where t: "Token T (tp, f w) = (res, tp1, w1)" by (metis prod.exhaust)
    have "headers (f w) = headers w" "refresh_run T es (tp1, w1) = (tp', w')"
      using Cons.prems Tick t by simp_all
    moreover have "headers w1 (Header (config tp1)) = Some (current tp1)" "config tp1 = config tp"
      using Token_headers [OF assms(1) t] Cons.prems(3) calculation(1) by auto
    ultimately show ?thesis
      using Cons.IH [of tp1 w1] Cons.prems(1) by simp
  qed (use Cons.prems in simp)
qed simp

lemma NewTokenProvider_mints:
  assumes "zms_session T clock headers" "NewTokenProvider T cfg w = (Inr (tp, i), w1)"
    and "zeroTime < clock w" "0 \<le> TokenExpiry cfg" "TokenExpiry cfg \<le> max_int64"
  shows "headers w1 (Header cfg) = Some (current tp) \<and> Header (config tp) = Header cfg"
proof -
  define cfg' where "cfg' = (if TokenExpiry cfg = 0 then cfg\<lparr>TokenExpiry := 3600 * 10 ^ 9\<rparr> else cfg)"
  define tp0 where "tp0 = \<lparr>config = cfg', current = [], expire = zeroTime\<rparr>"
  obtain res tp1 w2 where t: "Token T (tp0, w) = (res, tp1, w2)" by (metis prod.exhaust)
  have res: "tp1 = tp" "w2 = w1" "\<exists>tok. res = Inr tok"
    using assms(2) t by (auto simp: NewTokenProvider_def Let_def tp0_def cfg'_def split: sum.splits)
  have exp: "0 \<le> TokenExpiry cfg'" "TokenExpiry cfg' \<le> max_int64"
    using assms(4,5) by (simp_all add: cfg'_def)
  have "0 \<le> gracePeriod (TokenExpiry cfg')"
    using exp by (simp add: gracePeriod_eq)
  then have "tp \<noteq> tp0"
    using Token_result [OF assms(1) _ _ t] res(1,3) exp assms(3)
    by (auto simp: tp0_def)
  then show ?thesis
    using Token_headers [OF assms(1) t] res by (auto simp: tp0_def cfg'_def)
qed

section \<open>Properties\<close>

text \<open>
  A call for the token either fails, and leaves the provider and the credentials of the client
  as they were, or returns the provider's token, which is good for at least the grace period
  counted from the call.
\<close>

theorem Token_is_good:
  assumes "zms_session T clock headers" and "0 \<le> TokenExpiry (config tp)"
    and "TokenExpiry (config tp) \<le> max_int64" and "Token T (tp, w) = (res, tp', w')"
  shows "case res of Inl e \<Rightarrow> tp' = tp \<and> headers w' = headers w
    | Inr tok \<Rightarrow> tok = current tp' \<and> clock w + gracePeriod (TokenExpiry (config tp)) \<le> expire tp'"
  using assms by (rule Token_result)

definition demo_session :: "(session_world, string, string) token_env" where
  "demo_session = source_env demo_pem (\<lambda>d. Inr [''s.v10'', ''s.v9'']) (\<lambda>p. Inr ''RSA PRIVATE KEY|k'')
     insertionSort (NewPrivateKeySource ''/keys'' ''s'')
     (\<lambda>dom svc pem ver. Inr (dom @ ''.'' @ svc @ '';'' @ ver)) (\<lambda>b x now. Inr b)"

definition demo_config :: Config where
  "demo_config = \<lparr>Header = ''Athenz-Principal-Auth'', Domain = ''d'', Service = ''s'', TokenExpiry = 3600 * 10 ^ 9\<rparr>"

lemma Token_is_good_witness:
  "case Token demo_session (\<lparr>config = demo_config, current = ''old'', expire = 0\<rparr>,
       \<lparr>wallClock = 5, clientHeaders = Map.empty\<rparr>) of (res, tp', w') \<Rightarrow>
     (case res of Inl e \<Rightarrow> expire tp' = 0 | Inr tok \<Rightarrow> 900 * 10 ^ 9 \<le> expire tp')"
proof -
  let ?tp = "\<lparr>config = demo_config, current = ''old'', expire = 0\<rparr>"
  let ?w = "\<lparr>wallClock = 5, clientHeaders = Map.empty\<rparr>"
  obtain res tp' w' where t: "Token demo_session (?tp, ?w) = (res, tp', w')" by (metis prod.exhaust)
  have "gracePeriod (3600 * 10 ^ 9) = 900 * 10 ^ 9"
    by (simp add: gracePeriod_eq)
  then show ?thesis
    using Token_is_good [OF session.zms_session_axioms _ _ t [unfolded demo_session_def]] t
    by (auto simp: demo_config_def split: sum.splits)
qed

text \<open>
  C38.  The refresh interval is covered by the grace period: with an expiry of at least four
  seconds, a token that a call returned has not expired when the next call is due.
\<close>

theorem token_bridges_refresh:
  assumes "zms_session T clock headers" and "Token T (tp, w) = (Inr tok, tp', w')"
    and "4 * 10 ^ 9 \<le> TokenExpiry (config tp)" and "TokenExpiry (config tp) \<le> max_int64"
    and "t \<le> clock w + quot (TokenExpiry (config tp)) refreshIntervalFactor"
  shows "t \<le> expire tp'"
  using Token_good [OF assms(1) _ _ assms(2)] interval_le_grace [OF assms(3,4)] assms(3-5) by simp

lemma demo_token:
  "Token demo_session (\<lparr>config = demo_config, current = ''old'', expire = 10 ^ 18\<rparr>,
     \<lparr>wallClock = 5, clientHeaders = Map.empty\<rparr>) =
   (Inr ''old'', \<lparr>config = demo_config, current = ''old'', expire = 10 ^ 18\<rparr>,
     \<lparr>wallClock = 6, clientHeaders = Map.empty\<rparr>)"
  by (simp add: Token_def demo_session_def source_env_def demo_config_def gracePeriod_eq)

lemma token_bridges_refresh_witness: "(5 + 360 * 10 ^ 9 :: int) \<le> 10 ^ 18"
  using token_bridges_refresh [OF session.zms_session_axioms demo_token [unfolded demo_session_def],
      of "5 + 360 * 10 ^ 9"]
  by (simp add: demo_config_def refreshIntervalFactor_def quot_nonneg)

text \<open>
  C39.  The ZMS client sends the provider's current token in the configured header once one call
  for the token has minted one, and every later call, failed or not, keeps it so; a new provider
  mints a token in its first call.
\<close>

theorem client_sends_current_token:
  assumes "zms_session T clock headers"
    and "NewTokenProvider T cfg w = (Inr (tp, i), w1)"
    and "zeroTime < clock w" and "0 \<le> TokenExpiry cfg" and "TokenExpiry cfg \<le> max_int64"
    and "list_all (\<lambda>e. case e of Tick f \<Rightarrow> \<forall>w. headers (f w) = headers w | StopCh \<Rightarrow> True) es"
    and "refresh_run T es (tp, w1) = (tp', w')"
  shows "headers w' (Header cfg) = Some (current tp')"
proof -
  have "headers w1 (Header cfg) = Some (current tp) \<and> Header (config tp) = Header cfg"
    using NewTokenProvider_mints [OF assms(1-5)] .
  then show ?thesis
    using refresh_run_headers [OF assms(1,6,7)] by simp
qed

lemma client_sends_current_token_witness:
  "\<exists>tp i w1. NewTokenProvider demo_session demo_config \<lparr>wallClock = 5, clientHeaders = Map.empty\<rparr>
      = (Inr (tp, i), w1) \<and>
     clientHeaders w1 ''Athenz-Principal-Auth'' = Some (current tp)"
proof -
  let ?w = "\<lparr>wallClock = 5, clientHeaders = Map.empty\<rparr> :: session_world"
  have "fst (NewTokenProvider demo_session demo_config ?w) =
      Inr (\<lparr>config = demo_config, current = ''d.s;v10'', expire = 7 + 3600 * 10 ^ 9\<rparr>, 360 * 10 ^ 9)"
    by code_simp
  then obtain tp i w1 where p: "NewTokenProvider demo_session demo_config ?w = (Inr (tp, i), w1)"
    by (metis prod.collapse)
  show ?thesis
    using p client_sends_current_token [OF session.zms_session_axioms p [unfolded demo_session_def],
        of "[]" tp w1]
    by (auto simp: demo_config_def zeroTime_def)
qed

end
