(* ===== verification/FileWatcher.thy ===== *)
theory FileWatcher
  imports Prelude Go_Filepath
begin

text \<open>
  The component \<^verbatim>\<open>pkg/filewatcher\<close>: it watches the directories of some files and
  tells a notifier when one of the files is touched.  The notifier is an interface of the
  package; here it is a record of its two methods on a state \<^typ>\<open>'s\<close>, and the locale below
  says what a watcher needs of it to be useful.
\<close>

section \<open>Model\<close>

record watcher =
  workers :: "string \<Rightarrow> string list option" \<comment> \<open>\<open>map[string][]string\<close>\<close>
  watchedFiles :: "string list"

record 's WatchNotifier =
  FileUpdate :: "'s \<Rightarrow> 's"
  WatchError :: "err \<Rightarrow> 's \<Rightarrow> 's"

definition NewWatcher :: "string list \<Rightarrow> watcher" where
  "NewWatcher files = \<lparr>workers = Map.empty, watchedFiles = files\<rparr>"

definition addWorker :: "string \<Rightarrow> watcher \<Rightarrow> string \<times> watcher" where
  "addWorker file w =
     (let newfile = Clean file; dir = Dir newfile; newfile = Base newfile
      in case workers w dir of
           Some ws \<Rightarrow> (dir, w\<lparr>workers := (workers w)(dir \<mapsto> ws @ [newfile])\<rparr>)
         | None \<Rightarrow> (dir, w\<lparr>workers := (workers w)(dir \<mapsto> [newfile])\<rparr>))"

fun notify_matches :: "'s WatchNotifier \<Rightarrow> string \<Rightarrow> string list \<Rightarrow> 's \<Rightarrow> 's" where
  \<comment> \<open>the loop of \<open>processWork\<close>\<close>
  "notify_matches fw ev [] s = s"
| "notify_matches fw ev (file # fs) s =
     notify_matches fw ev fs (if file = Base ev then FileUpdate fw s else s)"

definition processWork :: "'s WatchNotifier \<Rightarrow> string \<Rightarrow> watcher \<Rightarrow> 's \<Rightarrow> 's" where
  \<comment> \<open>\<open>ev\<close> is the name that the event carries\<close>
  "processWork fw ev w s =
     (let dir = Dir ev
      in notify_matches fw ev (case workers w dir of None \<Rightarrow> [] | Some ws \<Rightarrow> ws) s)"

fun add_files :: "(string \<Rightarrow> err option) \<Rightarrow> string list \<Rightarrow> watcher \<Rightarrow> err option \<times> watcher" where
  \<comment> \<open>the loop of \<open>Run\<close>; \<open>add\<close> is the \<open>Add\<close> method of the fsnotify watcher\<close>
  "add_files add [] w = (None, w)"
| "add_files add (file # fs) w =
     (let (dir, w) = addWorker file w
      in case add dir of
           Some e \<Rightarrow> (Some e, w)
         | None \<Rightarrow> add_files add fs w)"

definition Run :: "err option \<Rightarrow> (string \<Rightarrow> err option) \<Rightarrow> watcher \<Rightarrow> err option \<times> watcher" where
  \<comment> \<open>up to the start of the goroutine; the first argument is the error of \<open>fsnotify.NewWatcher\<close>\<close>
  "Run err add w = (case err of Some e \<Rightarrow> (Some e, w) | None \<Rightarrow> add_files add (watchedFiles w) w)"

datatype watch_event = Event string | Error err | Stopped

fun watch_loop :: "'s WatchNotifier \<Rightarrow> watcher \<Rightarrow> watch_event list \<Rightarrow> 's \<Rightarrow> 's" where
  \<comment> \<open>the goroutine that \<open>Run\<close> starts, on the cases its \<open>select\<close> takes\<close>
  "watch_loop fw w [] s = s"
| "watch_loop fw w (Event ev # es) s = watch_loop fw w es (processWork fw ev w s)"
| "watch_loop fw w (Error e # es) s = WatchError fw e s"
| "watch_loop fw w (Stopped # es) s = s"

section \<open>The notifier interface\<close>

text \<open>
  Each call of \<^verbatim>\<open>FileUpdate\<close> leaves one more update to be looked at; a watch error
  does not.
\<close>

locale watch_notifier =
  fixes fw :: "'s WatchNotifier"
    and pending :: "'s \<Rightarrow> nat"
  assumes update_pending: "pending (FileUpdate fw s) = Suc (pending s)"
    and error_pending: "pending (WatchError fw e s) = pending s"
begin

lemma notify_matches_pending:
  "pending (notify_matches fw ev fs s) = pending s + count_list fs (Base ev)"
  by (induction fs arbitrary: s) (auto simp: update_pending)

lemma processWork_pending:
  "pending (processWork fw ev w s) =
     pending s + count_list (case workers w (Dir ev) of None \<Rightarrow> [] | Some ws \<Rightarrow> ws) (Base ev)"
  by (simp add: processWork_def notify_matches_pending)

end

section \<open>Which files are watched\<close>

definition watched_in :: "watcher \<Rightarrow> string \<Rightarrow> string list" where
  "watched_in w dir = (case workers w dir of None \<Rightarrow> [] | Some ws \<Rightarrow> ws)"

lemma watched_in_addWorker:
  "watched_in (snd (addWorker file w)) dir =
     watched_in w dir @ (if Dir (Clean file) = dir then [Base (Clean file)] else [])"
  "fst (addWorker file w) = Dir (Clean file)"
  "watchedFiles (snd (addWorker file w)) = watchedFiles w"
  by (auto simp: addWorker_def watched_in_def Let_def split: option.split)

lemma watched_in_add_files:
  assumes "add_files add fs w = (None, w')"
  shows "watched_in w' dir = watched_in w dir @ [Base (Clean f). f \<leftarrow> fs, Dir (Clean f) = dir]"
  using assms
proof (induction fs arbitrary: w)
  case (Cons f fs)
  obtain d w1 where a: "addWorker f w = (d, w1)" by fastforce
  with Cons.prems have "add_files add fs w1 = (None, w')"
    by (auto split: option.splits)
  from Cons.IH [OF this] a watched_in_addWorker(1) [of f w dir] show ?case by simp
qed simp

lemma watched_in_Run:
  assumes "Run None add (NewWatcher files) = (None, w)"
  shows "watched_in w dir = [Base (Clean f). f \<leftarrow> files, Dir (Clean f) = dir]"
  using assms watched_in_add_files [of add files "NewWatcher files" w dir]
  by (simp add: Run_def NewWatcher_def watched_in_def)

lemma count_list_concat_filter:
  "count_list [g f. f \<leftarrow> fs, P f] x = length (filter (\<lambda>f. P f \<and> g f = x) fs)"
  by (induction fs) auto

end
