(* ===== verification/Reloader.thy ===== *)
theory Reloader
  imports FileWatcher
begin

text \<open>
  The component \<^verbatim>\<open>pkg/reloader\<close>: it keeps the key and certificate pair of the ZMS
  client in step with the files on disk.  The file system is a state \<^typ>\<open>'w\<close> with the reading
  functions of \<^verbatim>\<open>os\<close>, \<^verbatim>\<open>ioutil\<close> and \<^verbatim>\<open>crypto/tls\<close>; it may
  change between any two reads, so a reload takes the file system at each of its reads.
  \<^typ>\<open>'c\<close> stands for \<^verbatim>\<open>tls.Certificate\<close>.
\<close>

section \<open>Model\<close>

record 'c CertReloader =
  certFile :: string
  keyFile :: string
  cert :: "'c option"
  certPEM :: string
  keyPEM :: string
  mtime :: int
  cond :: bool

record ReloadConfig =
  CertFile :: string
  KeyFile :: string

record ('w, 'c) filesystem =
  os_Stat :: "'w \<Rightarrow> string \<Rightarrow> err + int" \<comment> \<open>the modification time\<close>
  LoadX509KeyPair :: "'w \<Rightarrow> string \<Rightarrow> string \<Rightarrow> err + 'c"
  ReadFile :: "'w \<Rightarrow> string \<Rightarrow> err + string"

definition GetLatestCertificate :: "'c CertReloader \<Rightarrow> 'c option" where
  "GetLatestCertificate r = cert r"

definition GetLatestKeyAndCert :: "'c CertReloader \<Rightarrow> string \<times> string" where
  "GetLatestKeyAndCert r = (keyPEM r, certPEM r)"

definition reloadKeyCert ::
    "('w, 'c) filesystem \<Rightarrow> 'w \<times> 'w \<times> 'w \<Rightarrow> 'c CertReloader \<Rightarrow> err + 'c \<times> string \<times> string" where
  "reloadKeyCert F ws r =
     (let (w1, w2, w3) = ws
      in case LoadX509KeyPair F w1 (certFile r) (keyFile r) of
           Inl e \<Rightarrow> Inl (Wrapped (''unable to load cert from '' @ certFile r @ '','' @ keyFile r) e)
         | Inr c \<Rightarrow>
             (case ReadFile F w2 (certFile r) of
                Inl e \<Rightarrow> Inl (Wrapped (''unable to load cert from '' @ certFile r) e)
              | Inr cp \<Rightarrow>
                  (case ReadFile F w3 (keyFile r) of
                     Inl e \<Rightarrow> Inl (Wrapped (''unable to load key from '' @ keyFile r) e)
                   | Inr kp \<Rightarrow> Inr (c, cp, kp))))"

definition maybeReload ::
    "('w, 'c) filesystem \<Rightarrow> 'w \<times> 'w \<times> 'w \<times> 'w \<Rightarrow> 'c CertReloader \<Rightarrow> err option \<times> 'c CertReloader" where
  "maybeReload F ws r =
     (let (w0, ws) = ws
      in case os_Stat F w0 (certFile r) of
           Inl e \<Rightarrow> (Some (Wrapped (''unable to stat '' @ certFile r) e), r)
         | Inr st \<Rightarrow>
             (if \<not> mtime r < st then (None, r)
              else case reloadKeyCert F ws r of
                     Inl e \<Rightarrow> (Some e, r)
                   | Inr (c, cp, kp) \<Rightarrow>
                       (None, r\<lparr>cert := Some c, certPEM := cp, keyPEM := kp, mtime := st\<rparr>)))"

text \<open>
  \<^verbatim>\<open>FileUpdate\<close> starts a goroutine that runs \<^verbatim>\<open>fileUpdate\<close>.  A goroutine
  is before the \<^verbatim>\<open>SetToIf\<close>, in the sleep of five seconds, or past the reload and
  before the final \<^verbatim>\<open>SetToIf\<close>.
\<close>

datatype goroutine = Spawned | Sleeping | Reloaded

record ('w, 'c) reload_state =
  fsys :: 'w
  reloader :: "'c CertReloader"
  goroutines :: "goroutine list"

definition reloader_FileUpdate :: "('w, 'c) reload_state \<Rightarrow> ('w, 'c) reload_state" where
  "reloader_FileUpdate s = s\<lparr>goroutines := goroutines s @ [Spawned]\<rparr>"

definition reloader_WatchError :: "err \<Rightarrow> ('w, 'c) reload_state \<Rightarrow> ('w, 'c) reload_state" where
  \<comment> \<open>it only logs\<close>
  "reloader_WatchError e s = s"

definition reloader_notifier :: "('w, 'c) reload_state WatchNotifier" where
  "reloader_notifier = \<lparr>FileUpdate = reloader_FileUpdate, WatchError = reloader_WatchError\<rparr>"

inductive fileUpdate ::
    "('w, 'c) filesystem \<Rightarrow> 'w set \<Rightarrow> ('w, 'c) reload_state \<Rightarrow> ('w, 'c) reload_state \<Rightarrow> bool"
  for F W where
  \<comment> \<open>the steps of the goroutines, and of the watcher and the file system around them; \<open>W\<close> are the
      contents that the file system may take on\<close>
  enter: "goroutines s = xs @ Spawned # ys \<Longrightarrow> \<not> cond (reloader s) \<Longrightarrow>
    fileUpdate F W s (s\<lparr>reloader := (reloader s)\<lparr>cond := True\<rparr>, goroutines := xs @ Sleeping # ys\<rparr>)"
| skip: "goroutines s = xs @ Spawned # ys \<Longrightarrow> cond (reloader s) \<Longrightarrow>
    fileUpdate F W s (s\<lparr>goroutines := xs @ ys\<rparr>)"
| reload: "goroutines s = xs @ Sleeping # ys \<Longrightarrow> {w1, w2, w3} \<subseteq> W \<Longrightarrow>
    maybeReload F (fsys s, w1, w2, w3) (reloader s) = (e, r) \<Longrightarrow>
    fileUpdate F W s (s\<lparr>fsys := w3, reloader := r, goroutines := xs @ Reloaded # ys\<rparr>)"
| leave: "goroutines s = xs @ Reloaded # ys \<Longrightarrow>
    fileUpdate F W s (s\<lparr>reloader := (reloader s)\<lparr>cond := False\<rparr>, goroutines := xs @ ys\<rparr>)"
| watched: "fileUpdate F W s (reloader_FileUpdate s)"
| written: "w \<in> W \<Longrightarrow> fileUpdate F W s (s\<lparr>fsys := w\<rparr>)"

definition NewCertReloader ::
    "('w, 'c) filesystem \<Rightarrow> err option \<Rightarrow> (string \<Rightarrow> err option) \<Rightarrow> ReloadConfig \<Rightarrow> int \<Rightarrow>
      'w \<times> 'w \<times> 'w \<times> 'w \<Rightarrow> 'c CertReloader option \<times> err option \<times> watcher" where
  \<comment> \<open>\<open>zeroTime\<close> is the zero value of \<open>time.Time\<close>; the two arguments before the configuration are
      those of the watcher's \<open>Run\<close>\<close>
  "NewCertReloader F err add config zeroTime ws =
     (let r = \<lparr>certFile = CertFile config, keyFile = KeyFile config, cert = None, certPEM = [],
               keyPEM = [], mtime = zeroTime, cond = False\<rparr>;
          files = [certFile r, keyFile r];
          (err, w) = Run err add (NewWatcher files)
      in case err of
           Some e \<Rightarrow> (None, Some e, w)
         | None \<Rightarrow> (let (err, r) = maybeReload F ws r in (Some r, err, w)))"

section \<open>The reloader is a notifier\<close>

definition pending_updates :: "('w, 'c) reload_state \<Rightarrow> nat" where
  "pending_updates s = count_list (goroutines s) Spawned"

interpretation reload: watch_notifier reloader_notifier pending_updates
  by unfold_locales
    (simp_all add: reloader_notifier_def reloader_FileUpdate_def reloader_WatchError_def pending_updates_def)

section \<open>One reload\<close>

lemma maybeReload_files [simp]:
  "certFile (snd (maybeReload F ws r)) = certFile r" "keyFile (snd (maybeReload F ws r)) = keyFile r"
  "cond (snd (maybeReload F ws r)) = cond r"
  by (simp_all add: maybeReload_def split_beta Let_def split: sum.split)

lemma maybeReload_failed: "maybeReload F ws r = (Some e, r') \<Longrightarrow> r' = r"
  by (auto simp: maybeReload_def split: prod.splits sum.splits if_splits)

lemma maybeReload_mtime: "mtime r \<le> mtime (snd (maybeReload F ws r))"
  by (simp add: maybeReload_def split_beta Let_def split: sum.split)

text \<open>The pair that the files hold, when they can be read.\<close>

definition pair_on_disk ::
    "('w, 'c) filesystem \<Rightarrow> 'w \<Rightarrow> string \<Rightarrow> string \<Rightarrow> 'c \<Rightarrow> string \<Rightarrow> string \<Rightarrow> bool" where
  "pair_on_disk F w cf kf c cp kp \<longleftrightarrow>
     LoadX509KeyPair F w cf kf = Inr c \<and> ReadFile F w cf = Inr cp \<and> ReadFile F w kf = Inr kp"

lemma maybeReload_fresh:
  assumes "os_Stat F w (certFile r) = Inr t" "mtime r < t"
    and "pair_on_disk F w (certFile r) (keyFile r) c cp kp"
  shows "maybeReload F (w, w, w, w) r =
    (None, r\<lparr>cert := Some c, certPEM := cp, keyPEM := kp, mtime := t\<rparr>)"
  using assms by (simp add: maybeReload_def reloadKeyCert_def pair_on_disk_def)

section \<open>Goroutines exclude each other\<close>

definition busy :: "('w, 'c) reload_state \<Rightarrow> nat" where
  \<comment> \<open>the goroutines between the two \<open>SetToIf\<close>\<close>
  "busy s = count_list (goroutines s) Sleeping + count_list (goroutines s) Reloaded"

definition exclusive :: "('w, 'c) reload_state \<Rightarrow> bool" where
  "exclusive s \<longleftrightarrow> busy s = (if cond (reloader s) then 1 else 0)"

lemma fileUpdate_exclusive: "fileUpdate F W s s' \<Longrightarrow> exclusive s \<Longrightarrow> exclusive s'"
proof (induction rule: fileUpdate.induct)
  case (reload s xs ys w1 w2 w3 e r)
  have "cond r = cond (reloader s)"
    using maybeReload_files(3) reload(3) by (metis snd_conv)
  with reload show ?case by (simp add: exclusive_def busy_def)
qed (auto simp: exclusive_def busy_def reloader_FileUpdate_def split: if_splits)

section \<open>A quiet file system is picked up\<close>

text \<open>
  While the files hold a readable pair with the time \<open>t\<close>, the reloader either has that pair, or
  an older one and a goroutine that will still reload.
\<close>

definition catching_up ::
    "string \<Rightarrow> string \<Rightarrow> int \<Rightarrow> 'c \<Rightarrow> string \<Rightarrow> string \<Rightarrow> 'w \<Rightarrow> ('w, 'c) reload_state \<Rightarrow> bool" where
  "catching_up cf kf t c cp kp w s \<longleftrightarrow>
     fsys s = w \<and> certFile (reloader s) = cf \<and> keyFile (reloader s) = kf \<and> exclusive s \<and>
     (mtime (reloader s) = t \<and> cert (reloader s) = Some c \<and> GetLatestKeyAndCert (reloader s) = (kp, cp) \<or>
      mtime (reloader s) < t \<and>
        (\<not> cond (reloader s) \<and> Spawned \<in> set (goroutines s) \<or> Sleeping \<in> set (goroutines s)))"

lemma catching_up_step:
  assumes disk: "os_Stat F w cf = Inr t" "pair_on_disk F w cf kf c cp kp"
    and "fileUpdate F {w} s s'" "catching_up cf kf t c cp kp w s"
  shows "catching_up cf kf t c cp kp w s'"
  using assms(3)
proof cases
  case (reload xs ys w1 w2 w3 e r)
  have ex: "exclusive s'"
    using fileUpdate_exclusive [OF assms(3)] assms(4) by (simp add: catching_up_def)
  have "w1 = w" "w2 = w" "w3 = w" "fsys s = w"
    using reload assms(4) by (auto simp: catching_up_def)
  then have "maybeReload F (w, w, w, w) (reloader s) = (e, r)"
    using reload by simp
  then show ?thesis
    using assms(4) ex reload disk maybeReload_fresh [of F w "reloader s" t c cp kp]
    by (auto simp: catching_up_def GetLatestKeyAndCert_def maybeReload_def split: if_splits)
next
  case (leave xs ys)
  have ex: "exclusive s'"
    using fileUpdate_exclusive [OF assms(3)] assms(4) by (simp add: catching_up_def)
  have "cond (reloader s) \<and> Sleeping \<notin> set (goroutines s)"
    using leave assms(4) by (auto simp: catching_up_def exclusive_def busy_def count_list_0_iff split: if_splits)
  with ex leave assms(4) show ?thesis
    by (auto simp: catching_up_def GetLatestKeyAndCert_def)
qed (use assms(4) fileUpdate_exclusive [OF assms(3)] in
    \<open>auto simp: catching_up_def reloader_FileUpdate_def GetLatestKeyAndCert_def\<close>)

section \<open>Properties\<close>

text \<open>
  A reload of files that do not change meanwhile either fails and leaves the pair in use as it
  was, or leaves it as it was because the certificate file is not newer, or replaces certificate,
  certificate bytes and key bytes together by what the files hold and remembers the file's time.
\<close>

theorem maybeReload_correct:
  assumes "maybeReload F (w, w, w, w) r = (e, r')"
  shows "(e \<noteq> None \<longrightarrow> r' = r) \<and>
    (e = None \<longrightarrow> (\<exists>t. os_Stat F w (certFile r) = Inr t \<and>
       (if mtime r < t
        then mtime r' = t \<and> (\<exists>c. GetLatestCertificate r' = Some c \<and>
               pair_on_disk F w (certFile r) (keyFile r) c (snd (GetLatestKeyAndCert r'))
                 (fst (GetLatestKeyAndCert r')))
        else r' = r)))"
proof (cases "os_Stat F w (certFile r)")
  case (Inr t)
  show ?thesis
  proof (cases "mtime r < t")
    case True
    with assms Inr show ?thesis
      by (cases "LoadX509KeyPair F w (certFile r) (keyFile r)"; cases "ReadFile F w (certFile r)";
          cases "ReadFile F w (keyFile r)")
        (auto simp: maybeReload_def reloadKeyCert_def pair_on_disk_def GetLatestCertificate_def
          GetLatestKeyAndCert_def)
  qed (use assms Inr in \<open>auto simp: maybeReload_def\<close>)
qed (use assms in \<open>auto simp: maybeReload_def\<close>)

text \<open>
  A file system of two files whose contents and time are one number.
\<close>

definition demo_fs :: "(int, int) filesystem" where
  "demo_fs = \<lparr>os_Stat = (\<lambda>w f. Inr w), LoadX509KeyPair = (\<lambda>w cf kf. Inr w),
     ReadFile = (\<lambda>w f. Inr (replicate (nat w) CHR ''x''))\<rparr>"

definition demo_reloader :: "int CertReloader" where
  "demo_reloader = \<lparr>certFile = ''/keys/cert.pem'', keyFile = ''/keys/key.pem'', cert = None,
     certPEM = [], keyPEM = [], mtime = 0, cond = False\<rparr>"

lemma maybeReload_correct_witness:
  "GetLatestCertificate (snd (maybeReload demo_fs (2, 2, 2, 2) demo_reloader)) = Some 2"
proof -
  obtain e r' where m: "maybeReload demo_fs (2, 2, 2, 2) demo_reloader = (e, r')" by fastforce
  moreover have "e = None"
    using m by (simp add: maybeReload_def reloadKeyCert_def demo_fs_def demo_reloader_def)
  ultimately show ?thesis
    using maybeReload_correct [OF m] by (auto simp: pair_on_disk_def demo_fs_def demo_reloader_def)
qed

text \<open>
  C33.  Whatever the events, the writes and the interleaving, at most one goroutine is between its
  check and the end of its reload, and the flag says whether there is one.
\<close>

theorem reloads_exclude_each_other:
  assumes "(fileUpdate F W)\<^sup>*\<^sup>* s s'" and "goroutines s = []" and "\<not> cond (reloader s)"
  shows "busy s' \<le> 1 \<and> (cond (reloader s') \<longleftrightarrow> busy s' = 1)"
proof -
  have "exclusive s"
    using assms(2,3) by (simp add: exclusive_def busy_def)
  with assms(1) have "exclusive s'"
    by (induction rule: rtranclp_induct) (auto dest: fileUpdate_exclusive)
  then show ?thesis by (simp add: exclusive_def)
qed

definition demo_reload_state :: "(int, int) reload_state" where
  "demo_reload_state = \<lparr>fsys = 2, reloader = demo_reloader, goroutines = []\<rparr>"

lemma demo_enter:
  "(fileUpdate F W)\<^sup>*\<^sup>* demo_reload_state
     (demo_reload_state\<lparr>reloader := demo_reloader\<lparr>cond := True\<rparr>, goroutines := [Sleeping]\<rparr>)"
  using fileUpdate.watched [of F W demo_reload_state]
    fileUpdate.enter [of "reloader_FileUpdate demo_reload_state" "[]" "[]" F W]
  by (auto simp: reloader_FileUpdate_def demo_reload_state_def demo_reloader_def
      intro: rtranclp.rtrancl_into_rtrancl)

lemma reloads_exclude_each_other_witness:
  "busy (demo_reload_state\<lparr>reloader := demo_reloader\<lparr>cond := True\<rparr>, goroutines := [Sleeping]\<rparr>) \<le> 1"
  using reloads_exclude_each_other [OF demo_enter [of demo_fs UNIV]]
  by (simp add: demo_reload_state_def demo_reloader_def)

text \<open>
  C32.  A new certificate that is announced is picked up: when the certificate file is newer than the pair
  in use, the pair on disk can be read, no reload is under way at the announcement, and the files then
  stay as they are, the reloader has the pair of the files once every goroutine has ended.
\<close>

theorem announced_update_is_loaded:
  assumes "os_Stat F (fsys s) (certFile (reloader s)) = Inr t" and "mtime (reloader s) < t"
    and "pair_on_disk F (fsys s) (certFile (reloader s)) (keyFile (reloader s)) c cp kp"
    and "goroutines s = []" and "\<not> cond (reloader s)"
    and "(fileUpdate F {fsys s})\<^sup>*\<^sup>* (reloader_FileUpdate s) s'" and "goroutines s' = []"
  shows "GetLatestCertificate (reloader s') = Some c \<and> GetLatestKeyAndCert (reloader s') = (kp, cp)"
proof -
  let ?I = "catching_up (certFile (reloader s)) (keyFile (reloader s)) t c cp kp (fsys s)"
  have "?I (reloader_FileUpdate s)"
    using assms(2,4,5) by (simp add: catching_up_def reloader_FileUpdate_def exclusive_def busy_def)
  with assms(6) have "?I s'"
    by (induction rule: rtranclp_induct) (auto intro: catching_up_step [OF assms(1,3)])
  with assms(7) show ?thesis
    by (auto simp: catching_up_def GetLatestCertificate_def)
qed

lemma demo_maybeReload: "maybeReload demo_fs (2, 2, 2, 2) (demo_reloader\<lparr>cond := b\<rparr>) =
    (None, demo_reloader\<lparr>cond := b, cert := Some 2, certPEM := ''xx'', keyPEM := ''xx'', mtime := 2\<rparr>)"
  by (simp add: maybeReload_def reloadKeyCert_def demo_fs_def demo_reloader_def numeral_2_eq_2)

lemma announced_update_is_loaded_witness:
  "\<exists>s'. (fileUpdate demo_fs {2})\<^sup>*\<^sup>* (reloader_FileUpdate demo_reload_state) s' \<and>
     GetLatestCertificate (reloader s') = Some 2"
proof -
  let ?s0 = "reloader_FileUpdate demo_reload_state"
  let ?s1 = "demo_reload_state\<lparr>reloader := demo_reloader\<lparr>cond := True\<rparr>, goroutines := [Sleeping]\<rparr>"
  let ?r = "snd (maybeReload demo_fs (2, 2, 2, 2) (demo_reloader\<lparr>cond := True\<rparr>))"
  let ?s2 = "?s1\<lparr>reloader := ?r, goroutines := [Reloaded]\<rparr>"
  let ?s3 = "?s2\<lparr>reloader := ?r\<lparr>cond := False\<rparr>, goroutines := []\<rparr>"
  have "fileUpdate demo_fs {2} ?s0 ?s1"
    using fileUpdate.enter [of ?s0 "[]" "[]" demo_fs "{2}"]
    by (simp add: reloader_FileUpdate_def demo_reload_state_def demo_reloader_def)
  moreover have "fileUpdate demo_fs {2} ?s1 ?s2"
    using fileUpdate.reload [of ?s1 "[]" "[]" 2 2 2 "{2}" demo_fs None ?r]
    by (simp add: demo_reload_state_def demo_maybeReload)
  moreover have "fileUpdate demo_fs {2} ?s2 ?s3"
    using fileUpdate.leave [of ?s2 "[]" "[]" demo_fs "{2}"] by simp
  ultimately have run: "(fileUpdate demo_fs {2})\<^sup>*\<^sup>* ?s0 ?s3"
    by (meson converse_rtranclp_into_rtranclp rtranclp.rtrancl_refl)
  have "GetLatestCertificate (reloader ?s3) = Some 2 \<and> GetLatestKeyAndCert (reloader ?s3) = (''xx'', ''xx'')"
    by (rule announced_update_is_loaded [of demo_fs demo_reload_state 2])
      (use run in \<open>simp_all add: demo_reload_state_def demo_fs_def demo_reloader_def pair_on_disk_def
          numeral_2_eq_2\<close>)
  with run show ?thesis by blast
qed

definition proceeds :: "('w, 'c) filesystem \<Rightarrow> ('w, 'c) reload_state \<Rightarrow> ('w, 'c) reload_state \<Rightarrow> bool" where
  \<comment> \<open>a step in which nothing is announced, while the files stay as they are\<close>
  "proceeds F s s' \<longleftrightarrow> fileUpdate F {fsys s} s s' \<and> length (goroutines s') \<le> length (goroutines s)"

lemma proceeds_after_reload:
  assumes "proceeds F s s'" and "goroutines s \<in> {[], [Reloaded]}"
  shows "goroutines s' \<in> {[], [Reloaded]} \<and> (reloader s')\<lparr>cond := False\<rparr> = (reloader s)\<lparr>cond := False\<rparr>"
proof -
  have "fileUpdate F {fsys s} s s'" "length (goroutines s') \<le> length (goroutines s)"
    using assms(1) by (simp_all add: proceeds_def)
  then show ?thesis
    by cases (use assms(2) in \<open>auto simp: reloader_FileUpdate_def append_eq_Cons_conv\<close>)
qed

lemma same_pair:
  "(r :: 'c CertReloader)\<lparr>cond := False\<rparr> = r'\<lparr>cond := False\<rparr> \<Longrightarrow>
    GetLatestCertificate r = GetLatestCertificate r' \<and> GetLatestKeyAndCert r = GetLatestKeyAndCert r'"
  by (cases r; cases r') (simp add: GetLatestCertificate_def GetLatestKeyAndCert_def)

text \<open>
  C34.  An update that is announced between the reload of a goroutine and the reset of the flag is
  lost.  When the goroutine of the announcement runs in that window, it ends without a reload; and
  then, until the next announcement, whatever the files hold and in every order of the steps, the pair
  in use stays the one loaded before, also when all goroutines have ended, as they can.
\<close>

theorem update_during_reset_is_lost:
  assumes "goroutines s = [Reloaded]" and "cond (reloader s)"
  shows "\<exists>s1. proceeds F (reloader_FileUpdate s) s1 \<and> goroutines s1 = [Reloaded] \<and>
    (\<exists>s2. (proceeds F)\<^sup>*\<^sup>* s1 s2 \<and> goroutines s2 = []) \<and>
    (\<forall>s2. (proceeds F)\<^sup>*\<^sup>* s1 s2 \<longrightarrow>
       GetLatestCertificate (reloader s2) = GetLatestCertificate (reloader s) \<and>
       GetLatestKeyAndCert (reloader s2) = GetLatestKeyAndCert (reloader s))"
proof -
  have same: "s\<lparr>goroutines := [Reloaded]\<rparr> = s"
    using assms(1) by (cases s) simp
  have "proceeds F (reloader_FileUpdate s) (s\<lparr>goroutines := [Reloaded]\<rparr>)"
    using fileUpdate.skip [of "reloader_FileUpdate s" "[Reloaded]" "[]" F "{fsys s}"] assms
    by (simp add: proceeds_def reloader_FileUpdate_def)
  then have skip: "proceeds F (reloader_FileUpdate s) s"
    unfolding same .
  have "proceeds F s (s\<lparr>reloader := (reloader s)\<lparr>cond := False\<rparr>, goroutines := []\<rparr>)"
    using fileUpdate.leave [of s "[]" "[]" F] assms(1) by (simp add: proceeds_def)
  then have rest: "\<exists>s2. (proceeds F)\<^sup>*\<^sup>* s s2 \<and> goroutines s2 = []"
    by (intro exI conjI, rule r_into_rtranclp) simp_all
  have "goroutines s2 \<in> {[], [Reloaded]} \<and> (reloader s2)\<lparr>cond := False\<rparr> = (reloader s)\<lparr>cond := False\<rparr>"
    if "(proceeds F)\<^sup>*\<^sup>* s s2" for s2
    using that
  proof (induction rule: rtranclp_induct)
    case (step s1 s2)
    with proceeds_after_reload [OF step(2)] show ?case by metis
  qed (simp add: assms(1))
  then have "\<forall>s2. (proceeds F)\<^sup>*\<^sup>* s s2 \<longrightarrow>
       GetLatestCertificate (reloader s2) = GetLatestCertificate (reloader s) \<and>
       GetLatestKeyAndCert (reloader s2) = GetLatestKeyAndCert (reloader s)"
    using same_pair by blast
  with skip rest assms(1) show ?thesis by blast
qed

text \<open>A newer pair is on disk and can be read; the old one stays in use.\<close>

lemma update_during_reset_is_lost_witness:
  "\<exists>s s2. fsys s = 3 \<and> os_Stat demo_fs 3 (certFile (reloader s)) = Inr 3 \<and> mtime (reloader s) = 2 \<and>
     (fileUpdate demo_fs {3})\<^sup>*\<^sup>* (reloader_FileUpdate s) s2 \<and> goroutines s2 = [] \<and>
     GetLatestCertificate (reloader s2) = Some 2"
proof -
  let ?s = "\<lparr>fsys = 3, reloader = demo_reloader\<lparr>cond := True, cert := Some 2, mtime := 2\<rparr>, goroutines = [Reloaded]\<rparr>
    :: (int, int) reload_state"
  obtain s1 s2 where s: "proceeds demo_fs (reloader_FileUpdate ?s) s1" "(proceeds demo_fs)\<^sup>*\<^sup>* s1 s2"
      "goroutines s2 = []" "GetLatestCertificate (reloader s2) = Some 2"
    using update_during_reset_is_lost [of ?s demo_fs] by (auto simp: GetLatestCertificate_def)
  have "fileUpdate demo_fs {3} t t' \<and> fsys t' = 3" if "proceeds demo_fs t t'" "fsys t = 3" for t t'
  proof -
    from that have "fileUpdate demo_fs {3} t t'" by (simp add: proceeds_def)
    moreover from this have "fsys t' = 3"
      by cases (use that(2) in \<open>auto simp: reloader_FileUpdate_def\<close>)
    ultimately show ?thesis ..
  qed
  note step = this
  have "(fileUpdate demo_fs {3})\<^sup>*\<^sup>* (reloader_FileUpdate ?s) s2 \<and> fsys s2 = 3"
    using s(2)
  proof (induction rule: rtranclp_induct)
    case base
    with step [OF s(1)] show ?case by (auto simp: reloader_FileUpdate_def)
  next
    case (step t t')
    with \<open>\<And>t t'. proceeds demo_fs t t' \<Longrightarrow> fsys t = 3 \<Longrightarrow> fileUpdate demo_fs {3} t t' \<and> fsys t' = 3\<close>
    show ?case by (meson rtranclp.rtrancl_into_rtrancl)
  qed
  with s(3,4) show ?thesis
    by (intro exI [of _ ?s] exI [of _ s2]) (simp add: demo_fs_def)
qed

text \<open>
  C35.  Only the time of the certificate file counts: as long as the certificate file is not newer than
  the pair in use, no pair is loaded, whatever happens to the key file and whatever events are
  announced for either file.
\<close>

theorem key_change_is_ignored:
  assumes "\<forall>w \<in> W. \<forall>t. os_Stat F w (certFile (reloader s)) = Inr t \<longrightarrow> t \<le> mtime (reloader s)"
    and "fsys s \<in> W" and "(fileUpdate F W)\<^sup>*\<^sup>* s s'"
  shows "GetLatestCertificate (reloader s') = GetLatestCertificate (reloader s) \<and>
    GetLatestKeyAndCert (reloader s') = GetLatestKeyAndCert (reloader s)"
proof -
  let ?same = "\<lambda>r. r\<lparr>cond := False\<rparr> = (reloader s)\<lparr>cond := False\<rparr>"
  have "?same (reloader s') \<and> fsys s' \<in> W"
    using assms(3)
  proof (induction rule: rtranclp_induct)
    case (step s1 s2)
    from step(2) show ?case
    proof cases
      case (reload xs ys w1 w2 w3 e r)
      have "certFile (reloader s1) = certFile (reloader s)" "mtime (reloader s1) = mtime (reloader s)"
        using step.IH by (metis CertReloader.select_convs(1,6) CertReloader.surjective CertReloader.update_convs(7))+
      then have "r = reloader s1"
        using assms(1) step.IH reload(4)
        by (fastforce simp: maybeReload_def split: sum.splits if_splits prod.splits)
      with reload step.IH show ?thesis by simp
    qed (use step.IH in \<open>auto simp: reloader_FileUpdate_def\<close>)
  qed (simp add: assms(2))
  then show ?thesis
    by (metis CertReloader.select_convs(3-5) CertReloader.surjective CertReloader.update_convs(7)
        GetLatestCertificate_def GetLatestKeyAndCert_def)
qed

text \<open>A file system whose key file changes while the certificate file keeps its time.\<close>

definition demo_keys :: "(int, int) filesystem" where
  "demo_keys = demo_fs\<lparr>os_Stat := (\<lambda>w f. Inr 2)\<rparr>"

lemma key_change_is_ignored_witness:
  "\<exists>s'. (fileUpdate demo_keys {2, 3})\<^sup>*\<^sup>*
       \<lparr>fsys = 2, reloader = demo_reloader\<lparr>cert := Some 2, mtime := 2\<rparr>, goroutines = []\<rparr> s' \<and>
     LoadX509KeyPair demo_keys (fsys s') ''/keys/cert.pem'' ''/keys/key.pem'' = Inr 3 \<and>
     goroutines s' = [Reloaded] \<and> GetLatestCertificate (reloader s') = Some 2"
proof -
  let ?s = "\<lparr>fsys = 2, reloader = demo_reloader\<lparr>cert := Some 2, mtime := 2\<rparr>, goroutines = []\<rparr> :: (int, int) reload_state"
  let ?s1 = "?s\<lparr>fsys := 3\<rparr>"
  let ?s2 = "?s1\<lparr>reloader := (reloader ?s1)\<lparr>cond := True\<rparr>, goroutines := [Sleeping]\<rparr>"
  let ?s3 = "?s2\<lparr>goroutines := [Reloaded]\<rparr>"
  have "fileUpdate demo_keys {2, 3} ?s ?s1"
    by (rule fileUpdate.written) simp
  moreover have "fileUpdate demo_keys {2, 3} ?s1 (reloader_FileUpdate ?s1)"
    by (rule fileUpdate.watched)
  moreover have "fileUpdate demo_keys {2, 3} (reloader_FileUpdate ?s1) ?s2"
    using fileUpdate.enter [of "reloader_FileUpdate ?s1" "[]" "[]" demo_keys "{2, 3}"]
    by (simp add: reloader_FileUpdate_def demo_reloader_def)
  moreover have "fileUpdate demo_keys {2, 3} ?s2 ?s3"
    using fileUpdate.reload [of ?s2 "[]" "[]" 3 3 3 "{2, 3}" demo_keys None "reloader ?s2"]
    by (simp add: maybeReload_def demo_keys_def demo_reloader_def)
  ultimately have run: "(fileUpdate demo_keys {2, 3})\<^sup>*\<^sup>* ?s ?s3"
    by (meson converse_rtranclp_into_rtranclp rtranclp.rtrancl_refl)
  have "GetLatestCertificate (reloader ?s3) = GetLatestCertificate (reloader ?s) \<and>
      GetLatestKeyAndCert (reloader ?s3) = GetLatestKeyAndCert (reloader ?s)"
    by (rule key_change_is_ignored [OF _ _ run]) (simp_all add: demo_keys_def demo_reloader_def)
  with run show ?thesis
    by (intro exI [of _ ?s3]) (simp add: demo_keys_def demo_fs_def GetLatestCertificate_def)
qed

text \<open>
  A watcher that was set up without an error calls its notifier, for an event that carries a
  name, once for every watched file whose cleaned path has the directory and the base of that
  name.
\<close>

theorem watcher_notifies_per_file:
  assumes "watch_notifier fw pending" and "Run None add (NewWatcher files) = (None, w)"
  shows "pending (processWork fw ev w s) = pending s +
    length (filter (\<lambda>f. Dir (Clean f) = Dir ev \<and> Base (Clean f) = Base ev) files)"
  using watch_notifier.processWork_pending [OF assms(1), of ev w s] watched_in_Run [OF assms(2), of "Dir ev"]
  by (simp add: watched_in_def count_list_concat_filter)

definition demo_watcher :: watcher where
  "demo_watcher = snd (Run None (\<lambda>d. None) (NewWatcher [''/keys/cert.pem'', ''/keys/key.pem'']))"

lemma demo_watcher_run:
  "Run None (\<lambda>d. None) (NewWatcher [''/keys/cert.pem'', ''/keys/key.pem'']) = (None, demo_watcher)"
  by (simp add: demo_watcher_def Run_def NewWatcher_def split_beta)

lemma demo_paths:
  "Dir (Clean ''/keys/cert.pem'') = ''/keys''" "Base (Clean ''/keys/cert.pem'') = ''cert.pem''"
  "Dir (Clean ''/keys/key.pem'') = ''/keys''" "Base (Clean ''/keys/key.pem'') = ''key.pem''"
  "Dir ''/keys/cert.pem'' = ''/keys''" "Base ''/keys/cert.pem'' = ''cert.pem''"
  by code_simp+

lemma watcher_notifies_per_file_witness:
  "pending_updates (processWork reloader_notifier ''/keys/cert.pem'' demo_watcher demo_reload_state) = 1"
  using watcher_notifies_per_file [OF reload.watch_notifier_axioms demo_watcher_run,
      of "''/keys/cert.pem''" demo_reload_state]
  by (simp add: demo_paths pending_updates_def demo_reload_state_def)

text \<open>
  The event that fsnotify reports for a watched file, named by the watched directory, a slash
  and the file's base name, reaches the notifier.
\<close>

theorem watched_file_is_noticed:
  assumes "watch_notifier fw pending" and "Run None add (NewWatcher files) = (None, w)"
    and "f \<in> set files" and "slash \<notin> set (Base (Clean f))"
  shows "pending s < pending (processWork fw (Dir (Clean f) @ ''/'' @ Base (Clean f)) w s)"
proof -
  let ?ev = "Dir (Clean f) @ ''/'' @ Base (Clean f)"
  have "Dir ?ev = Dir (Clean f)" "Base ?ev = Base (Clean f)"
    using Dir_append [OF assms(4), of "Dir (Clean f)"] Base_append [OF assms(4) Base_nonempty, of "Dir (Clean f)"]
    by (simp_all add: Dir_clean)
  then have "Base (Clean f) \<in> set (watched_in w (Dir ?ev))"
    using assms(3) by (auto simp: watched_in_Run [OF assms(2)])
  then have "0 < count_list (watched_in w (Dir ?ev)) (Base ?ev)"
    using \<open>Base ?ev = Base (Clean f)\<close> by (simp add: count_list_0_iff zero_less_iff_neq_zero)
  then show ?thesis
    using watch_notifier.processWork_pending [OF assms(1), of ?ev w s] by (simp add: watched_in_def)
qed

lemma watched_file_is_noticed_witness:
  "0 < pending_updates (processWork reloader_notifier ''/keys/key.pem'' demo_watcher demo_reload_state)"
  using watched_file_is_noticed [OF reload.watch_notifier_axioms demo_watcher_run,
      of "''/keys/key.pem''" demo_reload_state]
  by (simp add: demo_paths pending_updates_def)

end
