(* ===== verification/Logging.thy ===== *)
theory Logging
  imports Prelude Go_Filepath
begin

text \<open>
  The component \<^verbatim>\<open>pkg/log\<close>: the logger of the program, its construction with the fallbacks
  for a bad level and a missing directory, and the package functions that forward to it.  The
  library \<^verbatim>\<open>logrus\<close> and \<^verbatim>\<open>os.MkdirAll\<close> are a record of functions; the messages
  that go to the standard logger of the library while there is no logger yet are part of the result.
\<close>

section \<open>Model\<close>

record lumberjack =
  Filename :: string
  MaxSize :: int \<comment> \<open>megabytes\<close>
  MaxBackups :: int
  MaxAge :: int \<comment> \<open>days\<close>

datatype writer = Stdout | RotatedFile lumberjack | MultiWriter "writer list"

record TextFormatter =
  ForceColors :: bool
  DisableSorting :: bool
  FullTimestamp :: bool
  DisableLevelTruncation :: bool

record 'v Logger =
  Out :: writer
  Formatter :: TextFormatter
  Level :: 'v
  locked :: bool

text \<open>
  The methods of a logger, one for each severity and each of the three styles: a format string,
  operands, or operands with spaces and a newline.
\<close>

datatype severity =
  DebugSev | InfoSev | PrintSev | WarnSev | WarningSev | ErrorSev | FatalSev | PanicSev

datatype log_method = Formatted severity string | Operands severity | Lined severity

record ('v, 'w, 'a) log_lib =
  ParseLevel :: "string \<Rightarrow> err + 'v"
  InfoLevel :: 'v
  MkdirAll :: "string \<Rightarrow> int \<Rightarrow> 'w \<Rightarrow> err option \<times> 'w"
  StdWarnln :: "string \<Rightarrow> err \<Rightarrow> 'w \<Rightarrow> 'w"
  StdErrorln :: "string \<Rightarrow> err \<Rightarrow> 'w \<Rightarrow> 'w"
  call_method :: "log_method \<Rightarrow> 'v Logger option \<Rightarrow> 'a list \<Rightarrow> 'w \<Rightarrow> unit outcome \<times> 'w"

definition newLogger :: "('v, 'w, 'a) log_lib \<Rightarrow> string \<Rightarrow> string \<Rightarrow> 'w \<Rightarrow> 'v Logger \<times> 'w" where
  "newLogger L logFile level w =
     (let logger = \<lparr>Filename = logFile, MaxSize = 1, MaxBackups = 5, MaxAge = 28\<rparr>;
          fileWriter = MultiWriter [Stdout, RotatedFile logger];
          (logLevel, w) =
            (case ParseLevel L level of
               Inl e \<Rightarrow> (InfoLevel L, StdWarnln L ''Could not parse log level, defaulting to info. Error:'' e w)
             | Inr l \<Rightarrow> (l, w));
          formatter = \<lparr>ForceColors = True, DisableSorting = True, FullTimestamp = True,
                       DisableLevelTruncation = True\<rparr>;
          l = \<lparr>Out = fileWriter, Formatter = formatter, Level = logLevel, locked = False\<rparr>;
          dir = Dir logFile;
          (err, w) = MkdirAll L dir 493 w \<comment> \<open>0755\<close>
      in case err of
           Some e \<Rightarrow>
             (l\<lparr>Out := Stdout\<rparr>,
              StdErrorln L ''Could not mkdir for log file, defaulting to stdout logging. Error:'' e w)
         | None \<Rightarrow> (l, w))"

definition InitLogger :: "('v, 'w, 'a) log_lib \<Rightarrow> string \<Rightarrow> string \<Rightarrow> 'w \<Rightarrow> 'v Logger option \<times> 'w" where
  \<comment> \<open>the new value of the package variable \<open>log\<close>\<close>
  "InitLogger L logFile level w = (let (l, w) = newLogger L logFile level w in (Some l, w))"

definition log_call ::
    "('v, 'w, 'a) log_lib \<Rightarrow> log_method \<Rightarrow> 'a list \<Rightarrow> 'v Logger option \<Rightarrow> 'w \<Rightarrow> unit outcome \<times> 'w" where
  \<comment> \<open>the package functions \<open>Debugf\<close> to \<open>Panicln\<close>: each calls the method of its name on the
      package variable\<close>
  "log_call L m args log w = call_method L m log args w"

record 'v AccessLogger =
  access :: "'v Logger option"

record 'a LogRecord =
  recMethod :: 'a
  recUri :: 'a
  recStatus :: 'a
  recElapsedTime :: 'a
  recCustomRecords :: 'a

definition AccessLogger_Log ::
    "('v, 'w, 'a) log_lib \<Rightarrow> 'v AccessLogger \<Rightarrow> 'a LogRecord \<Rightarrow> 'w \<Rightarrow> unit outcome \<times> 'w" where
  "AccessLogger_Log L l rc w =
     call_method L (Formatted PrintSev ''%s %s %d %v %v'') (access l)
       [recMethod rc, recUri rc, recStatus rc, recElapsedTime rc, recCustomRecords rc] w"

definition InitAccessLogger ::
    "('v, 'w, 'a) log_lib \<Rightarrow> ('h \<Rightarrow> 'v AccessLogger \<Rightarrow> 'h) \<Rightarrow> 'h \<Rightarrow> string \<Rightarrow> string \<Rightarrow> 'w \<Rightarrow> 'h \<times> 'w" where
  \<comment> \<open>\<open>newLoggingHandler\<close> is \<open>accesslog.NewLoggingHandler\<close>\<close>
  "InitAccessLogger L newLoggingHandler h logFile level w =
     (let (l, w) = newLogger L logFile level w in (newLoggingHandler h \<lparr>access = Some l\<rparr>, w))"

section \<open>The contract of the library\<close>

fun severity_of :: "log_method \<Rightarrow> severity" where
  "severity_of (Formatted s fmt) = s"
| "severity_of (Operands s) = s"
| "severity_of (Lined s) = s"

text \<open>
  A method reads the level of its logger, so it panics without one.  With a logger it returns,
  except that the panicking methods panic and the fatal ones end the program.
\<close>

locale logging_library =
  fixes L :: "('v, 'w, 'a) log_lib"
  assumes no_logger: "fst (call_method L m None args w) = Panic NilDereference"
    and logger_returns: "severity_of m \<noteq> PanicSev \<Longrightarrow> severity_of m \<noteq> FatalSev \<Longrightarrow>
      fst (call_method L m (Some l) args w) = Return ()"
    and logger_panics: "severity_of m = PanicSev \<Longrightarrow> \<exists>msg. fst (call_method L m (Some l) args w) = Panic (LogPanic msg)"
begin

lemma log_call_nil: "fst (log_call L m args None w) = Panic NilDereference"
  by (simp add: log_call_def no_logger)

lemma log_call_ready:
  assumes "InitLogger L logFile level w = (log, w')" "severity_of m \<noteq> PanicSev" "severity_of m \<noteq> FatalSev"
  shows "fst (log_call L m args log w0) = Return ()"
  using assms by (auto simp: InitLogger_def log_call_def logger_returns split: prod.splits)

lemma access_log_ready:
  "fst (AccessLogger_Log L \<lparr>access = Some l\<rparr> rc w) = Return ()"
  by (simp add: AccessLogger_Log_def logger_returns)

end

lemma newLogger_fields:
  assumes "newLogger L logFile level w = (l, w')"
  shows "Level l = (case ParseLevel L level of Inl e \<Rightarrow> InfoLevel L | Inr v \<Rightarrow> v)"
    and "Out l = Stdout \<or> Out l = MultiWriter [Stdout, RotatedFile \<lparr>Filename = logFile, MaxSize = 1, MaxBackups = 5, MaxAge = 28\<rparr>]"
  using assms by (auto simp: newLogger_def Let_def split: sum.splits prod.splits option.splits)

lemma newLogger_file:
  assumes "ParseLevel L level = Inr v" "MkdirAll L (Dir logFile) 493 w = (None, w1)"
  shows "Out (fst (newLogger L logFile level w))
    = MultiWriter [Stdout, RotatedFile \<lparr>Filename = logFile, MaxSize = 1, MaxBackups = 5, MaxAge = 28\<rparr>]"
  using assms by (simp add: newLogger_def)

text \<open>A library that writes lines.\<close>

definition line_log :: "(string, string list, string) log_lib" where
  "line_log =
     \<lparr>ParseLevel = (\<lambda>s. if s \<in> {''debug'', ''info'', ''warn''} then Inr s else Inl (Plain ''not a valid logrus Level'')),
      InfoLevel = ''info'', MkdirAll = (\<lambda>d p w. (if d = ''/'' then Some (Plain ''permission denied'') else None, w)),
      StdWarnln = (\<lambda>m e w. w @ [m]), StdErrorln = (\<lambda>m e w. w @ [m]),
      call_method = (\<lambda>m l args w. case l of None \<Rightarrow> (Panic NilDereference, w)
        | Some l \<Rightarrow> (if severity_of m = PanicSev then Panic (LogPanic (concat args)) else Return (), w @ [concat args]))\<rparr>"

interpretation line_log: logging_library line_log
  by unfold_locales (simp_all add: line_log_def)

section \<open>Properties\<close>

text \<open>
  Before the logger is initialised every logging call panics.  Initialising it always succeeds:
  a bad level becomes the info level, and a log directory that cannot be made leaves the standard
  output alone; from then on a logging call returns unless it is one of the panicking or fatal ones.
\<close>

theorem log_ready_after_init:
  assumes "logging_library L" and "InitLogger L logFile level w = (log, w')"
    and "severity_of m \<noteq> PanicSev" and "severity_of m \<noteq> FatalSev"
  shows "fst (log_call L m args None w0) = Panic NilDereference \<and>
    fst (log_call L m args log w0) = Return () \<and>
    (\<exists>l. log = Some l \<and> Level l = (case ParseLevel L level of Inl e \<Rightarrow> InfoLevel L | Inr v \<Rightarrow> v) \<and>
       (Out l = Stdout \<or> Out l = MultiWriter [Stdout, RotatedFile
          \<lparr>Filename = logFile, MaxSize = 1, MaxBackups = 5, MaxAge = 28\<rparr>]))"
proof -
  obtain l where l: "newLogger L logFile level w = (l, w')" "log = Some l"
    using assms(2) by (auto simp: InitLogger_def split: prod.splits)
  show ?thesis
    using logging_library.log_call_nil [OF assms(1)] logging_library.log_call_ready [OF assms]
      newLogger_fields [OF l(1)] l(2) by simp
qed

lemma log_ready_after_init_witness:
  "fst (log_call line_log (Lined InfoSev) [''ready''] (fst (InitLogger line_log ''/var/log/syncer.log'' ''loud'' [])) [])
     = Return ()"
proof -
  obtain log w' where i: "InitLogger line_log ''/var/log/syncer.log'' ''loud'' [] = (log, w')" by fastforce
  show ?thesis
    using log_ready_after_init [OF line_log.logging_library_axioms i, of "Lined InfoSev" "[''ready'']"] i by simp
qed

end
