(* ===== verification/Clientset.thy ===== *)
theory Clientset
  imports Complex_Main Prelude
begin

text \<open>
  The API group of the custom resource and the constructors of the generated clients:
  \<^verbatim>\<open>pkg/apis/athenz/v1/register.go\<close>, \<^verbatim>\<open>pkg/client/clientset/versioned\<close> with its
  \<^verbatim>\<open>scheme\<close>, and the client of the API group under \<^verbatim>\<open>typed/athenz/v1\<close>.  The
  Kubernetes libraries are records of functions: \<open>scheme_lib\<close> for schemes, \<open>client_lib\<close> for REST and
  discovery clients.
\<close>

section \<open>Groups, versions and kinds\<close>

record GroupVersion =
  gvGroup :: string
  gvVersion :: string

record GroupResource =
  grGroup :: string
  grResource :: string

record GroupVersionResource =
  gvrGroup :: string
  gvrVersion :: string
  gvrResource :: string

record GroupVersionKind =
  gvkGroup :: string
  gvkVersion :: string
  gvkKind :: string

definition WithResource :: "GroupVersion \<Rightarrow> string \<Rightarrow> GroupVersionResource" where
  "WithResource gv r = \<lparr>gvrGroup = gvGroup gv, gvrVersion = gvVersion gv, gvrResource = r\<rparr>"

definition to_GroupResource :: "GroupVersionResource \<Rightarrow> GroupResource" where
  "to_GroupResource r = \<lparr>grGroup = gvrGroup r, grResource = gvrResource r\<rparr>"

definition SchemeGroupVersion :: GroupVersion where
  "SchemeGroupVersion = \<lparr>gvGroup = ''athenz.io'', gvVersion = ''v1''\<rparr>"

definition qualified_Resource :: "string \<Rightarrow> GroupResource" where
  "qualified_Resource r = to_GroupResource (WithResource SchemeGroupVersion r)"

section \<open>Schemes\<close>

text \<open>The Go types that are registered.\<close>

datatype go_type = TAthenzDomain | TAthenzDomainList | TStatus

record 's scheme_lib =
  NewScheme :: 's
  AddKnownTypes :: "GroupVersion \<Rightarrow> go_type list \<Rightarrow> 's \<Rightarrow> 's"
  AddToGroupVersion :: "GroupVersion \<Rightarrow> 's \<Rightarrow> 's" \<comment> \<open>\<open>metav1.AddToGroupVersion\<close>\<close>

type_synonym 's scheme_func = "'s \<Rightarrow> err option \<times> 's"

definition addKnownTypes :: "'s scheme_lib \<Rightarrow> 's scheme_func" where
  "addKnownTypes L s =
     (let s = AddKnownTypes L SchemeGroupVersion [TAthenzDomain, TAthenzDomainList] s;
          s = AddKnownTypes L SchemeGroupVersion [TStatus] s;
          s = AddToGroupVersion L SchemeGroupVersion s
      in (None, s))"

fun build_scheme :: "'s scheme_func list \<Rightarrow> 's scheme_func" where
  \<comment> \<open>\<open>runtime.SchemeBuilder.AddToScheme\<close>: the functions in turn, up to the first that fails\<close>
  "build_scheme [] s = (None, s)"
| "build_scheme (f # fs) s =
     (case f s of (Some e, s) \<Rightarrow> (Some e, s) | (None, s) \<Rightarrow> build_scheme fs s)"

definition v1_AddToScheme :: "'s scheme_lib \<Rightarrow> 's scheme_func" where
  \<comment> \<open>\<open>v1.AddToScheme\<close>, after \<open>init\<close> has registered \<open>addKnownTypes\<close>\<close>
  "v1_AddToScheme L = build_scheme [addKnownTypes L]"

definition init_scheme :: "'s scheme_lib \<Rightarrow> 's outcome" where
  \<comment> \<open>\<open>init\<close> of the package \<open>scheme\<close>: \<open>utilruntime.Must\<close> panics on an error\<close>
  "init_scheme L =
     (let s = AddToGroupVersion L \<lparr>gvGroup = [], gvVersion = ''v1''\<rparr> (NewScheme L)
      in case build_scheme [v1_AddToScheme L] s of
           (Some e, s) \<Rightarrow> Panic (PanicError e)
         | (None, s) \<Rightarrow> Return s)"

section \<open>The client of the API group\<close>

text \<open>
  A REST configuration, with the fields that the generated code reads or writes; the queries per
  second are a finite floating point number.
\<close>

record ('l, 'n) rest_config =
  configRateLimiter :: "'l option"
  configQPS :: rat
  configBurst :: int
  configGroupVersion :: "GroupVersion option"
  configAPIPath :: string
  configSerializer :: "'n option"
  configUserAgent :: string
  configRest :: string \<comment> \<open>host, credentials and the remaining fields\<close>

record ('l, 'n, 'r, 'd) client_lib =
  NewTokenBucketRateLimiter :: "rat \<Rightarrow> int \<Rightarrow> 'l"
  Codecs_WithoutConversion :: 'n
  DefaultKubernetesUserAgent :: string
  RESTClientFor :: "('l, 'n) rest_config \<Rightarrow> err + 'r"
  NewDiscoveryClientForConfig :: "('l, 'n) rest_config \<Rightarrow> err + 'd"
  NewDiscoveryClient :: "'r \<Rightarrow> 'd"

record 'r AthenzV1Client =
  restClient :: "'r option"

definition setConfigDefaults ::
    "('l, 'n, 'r, 'd) client_lib \<Rightarrow> ('l, 'n) rest_config \<Rightarrow> err option \<times> ('l, 'n) rest_config" where
  "setConfigDefaults L config =
     (let config = config\<lparr>configGroupVersion := Some SchemeGroupVersion\<rparr>;
          config = config\<lparr>configAPIPath := ''/apis''\<rparr>;
          config = config\<lparr>configSerializer := Some (Codecs_WithoutConversion L)\<rparr>;
          config = (if configUserAgent config = []
                    then config\<lparr>configUserAgent := DefaultKubernetesUserAgent L\<rparr> else config)
      in (None, config))"

definition v1_NewForConfig ::
    "('l, 'n, 'r, 'd) client_lib \<Rightarrow> ('l, 'n) rest_config option \<Rightarrow> (err + 'r AthenzV1Client) outcome" where
  "v1_NewForConfig L c =
     bind_outcome (deref c) (\<lambda>config.
       case setConfigDefaults L config of
         (Some e, config) \<Rightarrow> Return (Inl e)
       | (None, config) \<Rightarrow>
           (case RESTClientFor L config of
              Inl e \<Rightarrow> Return (Inl e)
            | Inr client \<Rightarrow> Return (Inr \<lparr>restClient = Some client\<rparr>)))"

definition v1_NewForConfigOrDie ::
    "('l, 'n, 'r, 'd) client_lib \<Rightarrow> ('l, 'n) rest_config option \<Rightarrow> 'r AthenzV1Client outcome" where
  "v1_NewForConfigOrDie L c =
     bind_outcome (v1_NewForConfig L c) (\<lambda>r.
       case r of Inl e \<Rightarrow> Panic (PanicError e) | Inr client \<Rightarrow> Return client)"

definition v1_New :: "'r option \<Rightarrow> 'r AthenzV1Client" where
  "v1_New c = \<lparr>restClient = c\<rparr>"

definition RESTClient :: "'r AthenzV1Client option \<Rightarrow> 'r option" where
  "RESTClient c = (case c of None \<Rightarrow> None | Some c \<Rightarrow> restClient c)"

record 'r athenzDomains =
  domainsClient :: "'r option"

definition newAthenzDomains :: "'r AthenzV1Client option \<Rightarrow> 'r athenzDomains" where
  "newAthenzDomains c = \<lparr>domainsClient = RESTClient c\<rparr>"

definition v1_AthenzDomains :: "'r AthenzV1Client option \<Rightarrow> 'r athenzDomains" where
  "v1_AthenzDomains c = newAthenzDomains c"

section \<open>The clientset\<close>

record ('r, 'd) Clientset =
  DiscoveryClient :: "'d option"
  athenzV1 :: "'r AthenzV1Client option"

definition AthenzV1 :: "('r, 'd) Clientset option \<Rightarrow> 'r AthenzV1Client option outcome" where
  "AthenzV1 c = bind_outcome (deref c) (\<lambda>c. Return (athenzV1 c))"

definition Discovery :: "('r, 'd) Clientset option \<Rightarrow> 'd option" where
  "Discovery c = (case c of None \<Rightarrow> None | Some c \<Rightarrow> DiscoveryClient c)"

definition NewForConfig ::
    "('l, 'n, 'r, 'd) client_lib \<Rightarrow> ('l, 'n) rest_config option \<Rightarrow> (err + ('r, 'd) Clientset) outcome" where
  "NewForConfig L c =
     bind_outcome (deref c) (\<lambda>configShallowCopy.
     let limited = configRateLimiter configShallowCopy = None \<and> configQPS configShallowCopy > 0 in
     if limited \<and> configBurst configShallowCopy \<le> 0
     then Return (Inl (Plain ''burst is required to be greater than 0 when RateLimiter is not set and QPS is set to greater than 0''))
     else let configShallowCopy =
                (if limited
                 then configShallowCopy\<lparr>configRateLimiter :=
                        Some (NewTokenBucketRateLimiter L (configQPS configShallowCopy) (configBurst configShallowCopy))\<rparr>
                 else configShallowCopy)
          in bind_outcome (v1_NewForConfig L (Some configShallowCopy)) (\<lambda>r.
             case r of
               Inl e \<Rightarrow> Return (Inl e)
             | Inr v1 \<Rightarrow>
                 (case NewDiscoveryClientForConfig L configShallowCopy of
                    Inl e \<Rightarrow> Return (Inl e)
                  | Inr d \<Rightarrow> Return (Inr \<lparr>DiscoveryClient = Some d, athenzV1 = Some v1\<rparr>))))"

definition NewForConfigOrDie ::
    "('l, 'n, 'r, 'd) client_lib \<Rightarrow> ('l, 'n) rest_config option \<Rightarrow> ('r, 'd) Clientset outcome" where
  \<comment> \<open>\<open>discovery.NewDiscoveryClientForConfigOrDie\<close> panics where the plain constructor fails\<close>
  "NewForConfigOrDie L c =
     bind_outcome (v1_NewForConfigOrDie L c) (\<lambda>v1.
     bind_outcome (deref c) (\<lambda>config.
       case NewDiscoveryClientForConfig L config of
         Inl e \<Rightarrow> Panic (PanicError e)
       | Inr d \<Rightarrow> Return \<lparr>DiscoveryClient = Some d, athenzV1 = Some v1\<rparr>))"

definition clientset_New :: "('l, 'n, 'r, 'd) client_lib \<Rightarrow> 'r \<Rightarrow> ('r, 'd) Clientset" where
  "clientset_New L c = \<lparr>DiscoveryClient = Some (NewDiscoveryClient L c), athenzV1 = Some (v1_New (Some c))\<rparr>"

section \<open>The laws of a scheme\<close>

text \<open>
  \<open>known\<close> reads under which groups and versions a scheme knows a type.  Adding types makes them
  known and forgets nothing.
\<close>

locale scheme_registry =
  fixes L :: "'s scheme_lib"
    and known :: "'s \<Rightarrow> go_type \<Rightarrow> GroupVersion set"
  assumes known_added: "known (AddKnownTypes L gv ts s) t = (if t \<in> set ts then {gv} else {}) \<union> known s t"
    and known_frame: "t \<noteq> TStatus \<Longrightarrow> known (AddToGroupVersion L gv s) t = known s t"
    and known_new: "known (NewScheme L) t = {}"
begin

lemma init_scheme_returns: "\<exists>s. init_scheme L = Return s"
  by (simp add: init_scheme_def v1_AddToScheme_def addKnownTypes_def Let_def)

lemma init_scheme_known:
  assumes "init_scheme L = Return s" "t \<in> {TAthenzDomain, TAthenzDomainList}"
  shows "known s t = {SchemeGroupVersion}"
  using assms
  by (auto simp: init_scheme_def v1_AddToScheme_def addKnownTypes_def Let_def known_added known_frame
      known_new)

end

text \<open>A scheme as a function from types to the groups and versions they were added under.\<close>

definition map_scheme :: "(go_type \<Rightarrow> GroupVersion set) scheme_lib" where
  "map_scheme =
     \<lparr>NewScheme = (\<lambda>t. {}),
      AddKnownTypes = (\<lambda>gv ts s t. (if t \<in> set ts then {gv} else {}) \<union> s t),
      AddToGroupVersion = (\<lambda>gv s. s(TStatus := {gv} \<union> s TStatus))\<rparr>"

interpretation map_scheme: scheme_registry map_scheme "\<lambda>s. s"
  by unfold_locales (simp_all add: map_scheme_def)

section \<open>The configuration that reaches the clients\<close>

abbreviation needs_limiter :: "('l, 'n) rest_config \<Rightarrow> bool" where
  "needs_limiter c \<equiv> configRateLimiter c = None \<and> configQPS c > 0"

definition effective_config :: "('l, 'n, 'r, 'd) client_lib \<Rightarrow> ('l, 'n) rest_config \<Rightarrow> ('l, 'n) rest_config" where
  "effective_config L c =
     (if needs_limiter c
      then c\<lparr>configRateLimiter := Some (NewTokenBucketRateLimiter L (configQPS c) (configBurst c))\<rparr> else c)"

lemma setConfigDefaults_fields:
  assumes "setConfigDefaults L c = (e, c')"
  shows "e = None" "configRateLimiter c' = configRateLimiter c" "configRest c' = configRest c"
    "configGroupVersion c' = Some SchemeGroupVersion" "configAPIPath c' = ''/apis''"
    "configUserAgent c' = (if configUserAgent c = [] then DefaultKubernetesUserAgent L else configUserAgent c)"
  using assms by (auto simp: setConfigDefaults_def Let_def)

lemma v1_NewForConfig_eq:
  "v1_NewForConfig L (Some c) =
     Return (map_sum id (\<lambda>r. \<lparr>restClient = Some r\<rparr>) (RESTClientFor L (snd (setConfigDefaults L c))))"
  using setConfigDefaults_fields(1) [of L c]
  by (auto simp: v1_NewForConfig_def split: prod.split sum.split)

section \<open>Properties\<close>

text \<open>
  A clientset is made from a configuration unless it asks for rate limiting without a burst or
  one of the clients cannot be made.  Its client talks to the API group of the custom resource
  under the path of the API groups, with the credentials of the configuration, and it shares one
  rate limiter with the discovery client: the one that was configured, or else a new token bucket
  with the configured rate.  The configuration of the caller is left as it was.
\<close>

theorem NewForConfig_shares_limiter:
  assumes "NewForConfig L (Some c) = Return (Inr cs)"
  shows "(needs_limiter c \<longrightarrow> configBurst c > 0) \<and>
    (\<exists>conf r d. RESTClientFor L conf = Inr r \<and> RESTClient (athenzV1 cs) = Some r \<and>
       configGroupVersion conf = Some \<lparr>gvGroup = ''athenz.io'', gvVersion = ''v1''\<rparr> \<and>
       configAPIPath conf = ''/apis'' \<and> configRest conf = configRest c \<and>
       NewDiscoveryClientForConfig L (effective_config L c) = Inr d \<and> Discovery (Some cs) = Some d \<and>
       configRateLimiter conf = configRateLimiter (effective_config L c) \<and>
       (configQPS c > 0 \<longrightarrow> configRateLimiter conf \<noteq> None))"
proof -
  obtain e conf where s: "setConfigDefaults L (effective_config L c) = (e, conf)" by fastforce
  have "NewForConfig L (Some c) =
      (if needs_limiter c \<and> configBurst c \<le> 0
       then Return (Inl (Plain ''burst is required to be greater than 0 when RateLimiter is not set and QPS is set to greater than 0''))
       else bind_outcome (v1_NewForConfig L (Some (effective_config L c))) (\<lambda>r. case r of
          Inl e \<Rightarrow> Return (Inl e)
        | Inr v1 \<Rightarrow> (case NewDiscoveryClientForConfig L (effective_config L c) of
            Inl e \<Rightarrow> Return (Inl e) | Inr d \<Rightarrow> Return (Inr \<lparr>DiscoveryClient = Some d, athenzV1 = Some v1\<rparr>))))"
    by (simp add: NewForConfig_def effective_config_def Let_def)
  with assms obtain r d where "RESTClientFor L conf = Inr r" "NewDiscoveryClientForConfig L (effective_config L c) = Inr d"
      "cs = \<lparr>DiscoveryClient = Some d, athenzV1 = Some \<lparr>restClient = Some r\<rparr>\<rparr>"
      "needs_limiter c \<longrightarrow> configBurst c > 0"
    by (auto simp: v1_NewForConfig_eq s split: if_splits sum.splits simp: map_sum_def)
  then show ?thesis
    using setConfigDefaults_fields [OF s]
    by (auto simp: RESTClient_def Discovery_def effective_config_def SchemeGroupVersion_def split: if_splits)
qed

definition demo_client_lib :: "(rat \<times> int, unit, string, string) client_lib" where
  "demo_client_lib =
     \<lparr>NewTokenBucketRateLimiter = Pair, Codecs_WithoutConversion = (), DefaultKubernetesUserAgent = ''go-client'',
      RESTClientFor = (\<lambda>c. Inr (configUserAgent c)), NewDiscoveryClientForConfig = (\<lambda>c. Inr ''discovery''),
      NewDiscoveryClient = id\<rparr>"

definition demo_config :: "(rat \<times> int, unit) rest_config" where
  "demo_config =
     \<lparr>configRateLimiter = None, configQPS = 5, configBurst = 10, configGroupVersion = None, configAPIPath = [],
      configSerializer = None, configUserAgent = [], configRest = ''https://10.0.0.1''\<rparr>"

lemma NewForConfig_shares_limiter_witness:
  "\<exists>cs conf r. NewForConfig demo_client_lib (Some demo_config) = Return (Inr cs) \<and>
     RESTClientFor demo_client_lib conf = Inr r \<and> RESTClient (athenzV1 cs) = Some r \<and>
     configRateLimiter conf = Some (5, 10)"
proof -
  obtain cs where cs: "NewForConfig demo_client_lib (Some demo_config) = Return (Inr cs)"
    by (auto simp: NewForConfig_def v1_NewForConfig_eq demo_client_lib_def demo_config_def Let_def)
  show ?thesis
    using NewForConfig_shares_limiter [OF cs] cs
    by (auto simp: effective_config_def demo_config_def demo_client_lib_def)
qed

end
