(* ===== verification/Informers.thy ===== *)
theory Informers
  imports CR_Properties Clientset
begin

text \<open>
  The generated informers \<^verbatim>\<open>pkg/client/informers/externalversions\<close> and the generated
  lister \<^verbatim>\<open>pkg/client/listers/athenz/v1\<close>: the factory, the accessors of its API group,
  the informer of the AthenzDomains and the generic access by resource.  A type parameter of the factory is
  \<^verbatim>\<open>reflect.Type\<close>, the next a shared informer, which the cache library makes, and the last the
  client.  A Go map is iterated in an arbitrary order, which is an argument.  The methods of the
  factory hold its lock; the objects that refer to it take it as an argument.
\<close>

section \<open>The factory\<close>

type_synonym tweakFunc = "(ListOptions \<Rightarrow> ListOptions) option" \<comment> \<open>nil or a function\<close>

record ('t, 'i, 'c) sharedInformerFactory =
  factoryClient :: 'c
  factoryNamespace :: string
  tweakListOptions :: tweakFunc
  defaultResync :: int
  customResync :: "'t \<Rightarrow> int option"
  informers :: "'t \<Rightarrow> 'i option"
  startedInformers :: "'t \<Rightarrow> bool option"

type_synonym ('t, 'i, 'c) factoryOption =
  "('t, 'i, 'c) sharedInformerFactory \<Rightarrow> ('t, 'i, 'c) sharedInformerFactory"

definition WithCustomResyncConfig :: "('t \<times> int) list \<Rightarrow> ('t, 'i, 'c) factoryOption" where
  \<comment> \<open>the configuration in the order of the iteration\<close>
  "WithCustomResyncConfig cfg f = f\<lparr>customResync := fold (\<lambda>(k, v) m. m(k \<mapsto> v)) cfg (customResync f)\<rparr>"

definition WithTweakListOptions :: "tweakFunc \<Rightarrow> ('t, 'i, 'c) factoryOption" where
  "WithTweakListOptions t f = f\<lparr>tweakListOptions := t\<rparr>"

definition WithNamespace :: "string \<Rightarrow> ('t, 'i, 'c) factoryOption" where
  "WithNamespace ns f = f\<lparr>factoryNamespace := ns\<rparr>"

definition NewSharedInformerFactoryWithOptions ::
    "'c \<Rightarrow> int \<Rightarrow> ('t, 'i, 'c) factoryOption list \<Rightarrow> ('t, 'i, 'c) sharedInformerFactory" where
  "NewSharedInformerFactoryWithOptions cl resync options =
     fold (\<lambda>opt f. opt f) options
       \<lparr>factoryClient = cl, factoryNamespace = [], tweakListOptions = None, defaultResync = resync,
        customResync = Map.empty, informers = Map.empty, startedInformers = Map.empty\<rparr>"

definition NewSharedInformerFactory :: "'c \<Rightarrow> int \<Rightarrow> ('t, 'i, 'c) sharedInformerFactory" where
  "NewSharedInformerFactory cl resync = NewSharedInformerFactoryWithOptions cl resync []"

definition NewFilteredSharedInformerFactory ::
    "'c \<Rightarrow> int \<Rightarrow> string \<Rightarrow> tweakFunc \<Rightarrow> ('t, 'i, 'c) sharedInformerFactory" where
  "NewFilteredSharedInformerFactory cl resync ns tweak =
     NewSharedInformerFactoryWithOptions cl resync [WithNamespace ns, WithTweakListOptions tweak]"

definition InformerFor ::
    "'t \<Rightarrow> ('c \<Rightarrow> int \<Rightarrow> 'i) \<Rightarrow> ('t, 'i, 'c) sharedInformerFactory \<Rightarrow> 'i \<times> ('t, 'i, 'c) sharedInformerFactory" where
  "InformerFor ty newFunc f =
     (case informers f ty of
        Some i \<Rightarrow> (i, f)
      | None \<Rightarrow>
          (let resyncPeriod = (case customResync f ty of None \<Rightarrow> defaultResync f | Some r \<Rightarrow> r);
               i = newFunc (factoryClient f) resyncPeriod
           in (i, f\<lparr>informers := (informers f)(ty \<mapsto> i)\<rparr>)))"

definition started :: "('t, 'i, 'c) sharedInformerFactory \<Rightarrow> 't \<Rightarrow> bool" where
  \<comment> \<open>reading a missing key gives \<open>false\<close>\<close>
  "started f ty = (case startedInformers f ty of None \<Rightarrow> False | Some b \<Rightarrow> b)"

fun start_all ::
    "'t list \<Rightarrow> ('t, 'i, 'c) sharedInformerFactory \<Rightarrow> 'i list \<Rightarrow> ('t, 'i, 'c) sharedInformerFactory \<times> 'i list" where
  \<comment> \<open>the loop of \<open>Start\<close> over the keys of \<open>informers\<close>; the last argument collects the informers
      whose \<open>Run\<close> is started\<close>
  "start_all [] f running = (f, running)"
| "start_all (ty # tys) f running =
     (case informers f ty of
        None \<Rightarrow> start_all tys f running
      | Some i \<Rightarrow>
          (if \<not> started f ty
           then start_all tys (f\<lparr>startedInformers := (startedInformers f)(ty \<mapsto> True)\<rparr>) (running @ [i])
           else start_all tys f running))"

definition Start ::
    "'t list \<Rightarrow> ('t, 'i, 'c) sharedInformerFactory \<Rightarrow> ('t, 'i, 'c) sharedInformerFactory \<times> 'i list" where
  "Start order f = start_all order f []"

definition WaitForCacheSync ::
    "('i \<Rightarrow> bool) \<Rightarrow> ('t, 'i, 'c) sharedInformerFactory \<Rightarrow> 't \<Rightarrow> bool option" where
  \<comment> \<open>\<open>synced\<close> is the answer of \<open>cache.WaitForCacheSync\<close> for one informer\<close>
  "WaitForCacheSync synced f ty =
     (case informers f ty of
        None \<Rightarrow> None
      | Some i \<Rightarrow> (if started f ty then Some (synced i) else None))"

section \<open>The lister\<close>

fun lister_List :: "('x obj \<Rightarrow> bool) \<Rightarrow> 'x obj list \<Rightarrow> 'x AthenzDomain option list \<Rightarrow>
    'x AthenzDomain option list outcome" where
  \<comment> \<open>\<open>cache.ListAll\<close> calls the function with each stored object that the selector matches\<close>
  "lister_List selects [] ret = Return ret"
| "lister_List selects (ob # obs) ret =
     (if selects ob
      then case as_AthenzDomain ob of
             None \<Rightarrow> Panic BadTypeAssertion
           | Some p \<Rightarrow> lister_List selects obs (ret @ [p])
      else lister_List selects obs ret)"

record 'ix athenzDomainLister =
  indexer :: 'ix

definition NewAthenzDomainLister :: "'ix \<Rightarrow> 'ix athenzDomainLister" where
  "NewAthenzDomainLister ix = \<lparr>indexer = ix\<rparr>"

definition lister_Get ::
    "('w, 'x) env \<Rightarrow> string \<Rightarrow> 'w \<Rightarrow> ('x AthenzDomain option \<times> err option) outcome" where
  "lister_Get E nm w =
     (let (ob, err) = cr_GetByKey E w nm
      in if err \<noteq> None then Return (None, err)
         else case ob of
                None \<Rightarrow> Return (None, Some (Status NotFound))
              | Some ob \<Rightarrow>
                  (case as_AthenzDomain ob of
                     None \<Rightarrow> Panic BadTypeAssertion
                   | Some p \<Rightarrow> Return (p, None)))"

section \<open>The informer of the AthenzDomains\<close>

text \<open>
  The cache library makes an informer from the functions that list and watch, the type of the
  objects, a resync period and the index functions.  The client of the informer is the generated
  client, whose requests go through the environment.
\<close>

record ('w, 'x) ListWatch =
  ListFunc :: "ListOptions \<Rightarrow> 'w \<Rightarrow> ('x AthenzDomainList \<times> err option) \<times> 'w"
  WatchFunc :: "ListOptions \<Rightarrow> 'w \<Rightarrow> err option \<times> 'w"

type_synonym 'x indexers = "string \<Rightarrow> ('x obj \<Rightarrow> string list \<times> err option) option"

record ('w, 'x, 'i) informer_lib =
  NewSharedIndexInformer :: "('w, 'x) ListWatch \<Rightarrow> go_type \<Rightarrow> int \<Rightarrow> 'x indexers \<Rightarrow> 'i"
  NamespaceIndex :: string
  MetaNamespaceIndexFunc :: "'x obj \<Rightarrow> string list \<times> err option"

definition tweaked :: "tweakFunc \<Rightarrow> ListOptions \<Rightarrow> ListOptions" where
  "tweaked tweak options = (case tweak of None \<Rightarrow> options | Some t \<Rightarrow> t options)"

definition NewFilteredAthenzDomainInformer ::
    "('w, 'x, 'i) informer_lib \<Rightarrow> ('w, 'x) env \<Rightarrow> int \<Rightarrow> 'x indexers \<Rightarrow> tweakFunc \<Rightarrow> 'i" where
  "NewFilteredAthenzDomainInformer I cl resyncPeriod ixs tweak =
     NewSharedIndexInformer I
       \<lparr>ListFunc = (\<lambda>options. client_List cl (tweaked tweak options)),
        WatchFunc = (\<lambda>options. client_Watch cl (tweaked tweak options))\<rparr>
       TAthenzDomain resyncPeriod ixs"

definition NewAthenzDomainInformer ::
    "('w, 'x, 'i) informer_lib \<Rightarrow> ('w, 'x) env \<Rightarrow> int \<Rightarrow> 'x indexers \<Rightarrow> 'i" where
  "NewAthenzDomainInformer I cl resyncPeriod ixs =
     NewFilteredAthenzDomainInformer I cl resyncPeriod ixs None"

type_synonym ('w, 'x, 'i) domainFactory = "(go_type, 'i, ('w, 'x) env) sharedInformerFactory"

record athenzDomainInformer =
  informerTweak :: tweakFunc

definition defaultInformer ::
    "('w, 'x, 'i) informer_lib \<Rightarrow> athenzDomainInformer \<Rightarrow> ('w, 'x) env \<Rightarrow> int \<Rightarrow> 'i" where
  "defaultInformer I a cl resyncPeriod =
     NewFilteredAthenzDomainInformer I cl resyncPeriod
       (Map.empty(NamespaceIndex I \<mapsto> MetaNamespaceIndexFunc I)) (informerTweak a)"

definition athenzDomainInformer_Informer ::
    "('w, 'x, 'i) informer_lib \<Rightarrow> athenzDomainInformer \<Rightarrow> ('w, 'x, 'i) domainFactory \<Rightarrow>
      'i \<times> ('w, 'x, 'i) domainFactory" where
  "athenzDomainInformer_Informer I a f = InformerFor TAthenzDomain (defaultInformer I a) f"

definition athenzDomainInformer_Lister ::
    "('i \<Rightarrow> 'ix) \<Rightarrow> ('w, 'x, 'i) informer_lib \<Rightarrow> athenzDomainInformer \<Rightarrow> ('w, 'x, 'i) domainFactory \<Rightarrow>
      'ix athenzDomainLister \<times> ('w, 'x, 'i) domainFactory" where
  \<comment> \<open>\<open>getIndexer\<close> is the method \<open>GetIndexer\<close>\<close>
  "athenzDomainInformer_Lister getIndexer I a f =
     (let (i, f) = athenzDomainInformer_Informer I a f in (NewAthenzDomainLister (getIndexer i), f))"

section \<open>The accessors\<close>

record version =
  versionNamespace :: string
  versionTweak :: tweakFunc

definition version_New :: "string \<Rightarrow> tweakFunc \<Rightarrow> version" where
  "version_New ns tweak = \<lparr>versionNamespace = ns, versionTweak = tweak\<rparr>"

definition version_AthenzDomains :: "version \<Rightarrow> athenzDomainInformer" where
  "version_AthenzDomains v = \<lparr>informerTweak = versionTweak v\<rparr>"

record group =
  groupNamespace :: string
  groupTweak :: tweakFunc

definition group_New :: "string \<Rightarrow> tweakFunc \<Rightarrow> group" where
  "group_New ns tweak = \<lparr>groupNamespace = ns, groupTweak = tweak\<rparr>"

definition group_V1 :: "group \<Rightarrow> version" where
  "group_V1 g = version_New (groupNamespace g) (groupTweak g)"

definition factory_Athenz :: "('t, 'i, 'c) sharedInformerFactory \<Rightarrow> group" where
  "factory_Athenz f = group_New (factoryNamespace f) (tweakListOptions f)"

record 'i genericInformer =
  genericInformer_informer :: 'i
  genericInformer_resource :: GroupResource

definition genericInformer_Informer :: "'i genericInformer \<Rightarrow> 'i" where
  "genericInformer_Informer g = genericInformer_informer g"

definition genericInformer_Lister ::
    "('i \<Rightarrow> 'ix) \<Rightarrow> ('ix \<Rightarrow> GroupResource \<Rightarrow> 'g) \<Rightarrow> 'i genericInformer \<Rightarrow> 'g" where
  \<comment> \<open>\<open>newGenericLister\<close> is \<open>cache.NewGenericLister\<close>\<close>
  "genericInformer_Lister getIndexer newGenericLister g =
     newGenericLister (getIndexer (genericInformer_Informer g)) (genericInformer_resource g)"

definition ForResource ::
    "('w, 'x, 'i) informer_lib \<Rightarrow> GroupVersionResource \<Rightarrow> ('w, 'x, 'i) domainFactory \<Rightarrow>
      (err + 'i genericInformer) \<times> ('w, 'x, 'i) domainFactory" where
  "ForResource I rsrc f =
     (if rsrc = WithResource SchemeGroupVersion ''athenzdomains''
      then let (i, f') = athenzDomainInformer_Informer I
                 (version_AthenzDomains (group_V1 (factory_Athenz f))) f
           in (Inr \<lparr>genericInformer_informer = i, genericInformer_resource = to_GroupResource rsrc\<rparr>, f')
      else (Inl (Plain ''no informer found''), f))"

section \<open>Starting\<close>

lemma start_all_informers: "informers (fst (start_all tys f running)) = informers f"
  by (induction tys f running rule: start_all.induct) (auto split: option.split)

lemma started_mark [simp]:
  "started (f\<lparr>startedInformers := (startedInformers f)(ty \<mapsto> True)\<rparr>) t \<longleftrightarrow> t = ty \<or> started f t"
  by (simp add: started_def)

lemma start_all_started:
  "started (fst (start_all tys f running)) ty \<longleftrightarrow> started f ty \<or> ty \<in> set tys \<and> informers f ty \<noteq> None"
  by (induction tys f running rule: start_all.induct) (auto split: option.split)

lemma start_all_running:
  assumes "distinct tys"
  shows "snd (start_all tys f running) = running @
    map (\<lambda>ty. the (informers f ty)) (filter (\<lambda>ty. informers f ty \<noteq> None \<and> \<not> started f ty) tys)"
  using assms
proof (induction tys f running rule: start_all.induct)
  case (2 ty tys f running)
  let ?f = "f\<lparr>startedInformers := (startedInformers f)(ty \<mapsto> True)\<rparr>"
  have "started ?f t = started f t" if "t \<in> set tys" for t
    using that 2(4) by auto
  then have "filter (\<lambda>t. informers f t \<noteq> None \<and> \<not> started ?f t) tys
      = filter (\<lambda>t. informers f t \<noteq> None \<and> \<not> started f t) tys"
    by (intro filter_cong) simp_all
  with 2 show ?case by (auto split: option.split)
qed simp

section \<open>Properties\<close>

text \<open>
  \<^verbatim>\<open>Start\<close> runs each requested informer that was not started before, once, and
  marks it; calling it again, with the map iterated in any order, runs nothing.
\<close>

theorem Start_runs_once:
  assumes "distinct order" and "set order = dom (informers f)" and "set order' = dom (informers f)"
    and "distinct order'"
  shows "snd (Start order f) = map (\<lambda>ty. the (informers f ty)) (filter (\<lambda>ty. \<not> started f ty) order) \<and>
    snd (Start order' (fst (Start order f))) = []"
proof -
  have "filter (\<lambda>ty. informers f ty \<noteq> None \<and> \<not> started f ty) order = filter (\<lambda>ty. \<not> started f ty) order"
    using assms(2) by (intro filter_cong) auto
  then show ?thesis
    using assms
    by (auto simp: Start_def start_all_running start_all_informers start_all_started filter_empty_conv)
qed

lemma Start_runs_once_witness:
  "snd (Start [''a''] (snd (InformerFor ''a'' (\<lambda>c r. (1::nat)) (NewSharedInformerFactory () 0)))) = [1]"
  by (subst Start_runs_once [where order' = "[''a'']", THEN conjunct1])
    (simp_all add: InformerFor_def NewSharedInformerFactory_def NewSharedInformerFactoryWithOptions_def started_def)

text \<open>
  The informers of a factory are shared: after one request for a type, every further request
  for it returns the same informer and changes nothing, and it was created with the custom resync
  period of the type if there is one.
\<close>

theorem InformerFor_is_shared:
  "\<exists>i f'. InformerFor ty newFunc f = (i, f') \<and> InformerFor ty newFunc' f' = (i, f') \<and>
     (informers f ty = None \<longrightarrow>
        i = newFunc (factoryClient f) (case customResync f ty of None \<Rightarrow> defaultResync f | Some r \<Rightarrow> r))"
  by (cases "informers f ty") (auto simp: InformerFor_def Let_def)

lemma InformerFor_is_shared_witness:
  "\<exists>f'. InformerFor ''a'' (\<lambda>c r. r) (NewSharedInformerFactory () 30) = (30, f')"
  using InformerFor_is_shared [of "''a''" "\<lambda>c r. r" "NewSharedInformerFactory () 30" "\<lambda>c r. r"]
  by (auto simp: NewSharedInformerFactory_def NewSharedInformerFactoryWithOptions_def)

text \<open>
  The lister finds a domain exactly when the controller's own lookup in the cache does, with
  the same object; where the lookup reports an object of another type the lister panics.
\<close>

theorem lister_agrees_with_lookup:
  assumes "snd (cr_GetByKey E w nm) = None"
  shows "lister_Get E nm w =
    (case GetCRByName E nm w of
       (p, True, None) \<Rightarrow> Return (p, None)
     | (_, True, Some e) \<Rightarrow> Panic BadTypeAssertion
     | (_, False, _) \<Rightarrow> Return (None, Some (Status NotFound)))"
  using assms
  by (cases "cr_GetByKey E w nm"; cases "fst (cr_GetByKey E w nm)")
    (auto simp: lister_Get_def GetCRByName_def split: option.split)

lemma lister_agrees_with_lookup_witness:
  "lister_Get demo_env ''home.domain'' demo_cached = Return (Some (new_cr ''home.domain'' demo_signed), None)"
  by (subst lister_agrees_with_lookup) (simp_all add: demo_cached_def GetCRByName_def)

text \<open>
  Asking a fresh factory for the resource of the custom resource gives the shared informer of
  the AthenzDomains: it has the resync period and the client of the factory, and whatever its
  reflector asks for when it lists and watches passes the filter of the factory first.  Asking
  again, in either way, gives the same informer.  For every other resource the factory answers with
  an error, in particular for the group that its comment and the generated fake client name.
\<close>

theorem ForResource_is_domain_informer:
  assumes "f = NewFilteredSharedInformerFactory cl resync ns tweak"
  shows "\<exists>i f'. ForResource I \<lparr>gvrGroup = ''athenz.io'', gvrVersion = ''v1'', gvrResource = ''athenzdomains''\<rparr> f
      = (Inr \<lparr>genericInformer_informer = i, genericInformer_resource = qualified_Resource ''athenzdomains''\<rparr>, f') \<and>
    i = NewSharedIndexInformer I
          \<lparr>ListFunc = (\<lambda>options. client_List cl (tweaked tweak options)),
           WatchFunc = (\<lambda>options. client_Watch cl (tweaked tweak options))\<rparr>
          TAthenzDomain resync (Map.empty(NamespaceIndex I \<mapsto> MetaNamespaceIndexFunc I)) \<and>
    athenzDomainInformer_Informer I (version_AthenzDomains (group_V1 (factory_Athenz f'))) f' = (i, f') \<and>
    (\<forall>rsrc. gvrGroup rsrc = ''athenz'' \<longrightarrow> ForResource I rsrc f' = (Inl (Plain ''no informer found''), f'))"
  using assms
  by (auto simp: ForResource_def WithResource_def SchemeGroupVersion_def to_GroupResource_def Let_def
      qualified_Resource_def athenzDomainInformer_Informer_def InformerFor_def version_AthenzDomains_def
      defaultInformer_def NewFilteredAthenzDomainInformer_def NewFilteredSharedInformerFactory_def
      NewSharedInformerFactoryWithOptions_def WithNamespace_def WithTweakListOptions_def
      factory_Athenz_def group_V1_def group_New_def version_New_def)

definition demo_informer_lib :: "(unit cluster, unit, int) informer_lib" where
  "demo_informer_lib =
     \<lparr>NewSharedIndexInformer = (\<lambda>lw ty resync ixs. resync), NamespaceIndex = ''namespace'',
      MetaNamespaceIndexFunc = (\<lambda>ob. ([[]], None))\<rparr>"

lemma ForResource_is_domain_informer_witness:
  "\<exists>g f'. ForResource demo_informer_lib
       \<lparr>gvrGroup = ''athenz.io'', gvrVersion = ''v1'', gvrResource = ''athenzdomains''\<rparr>
       (NewFilteredSharedInformerFactory demo_env 30 [] None) = (Inr g, f') \<and> genericInformer_Informer g = 30"
  using ForResource_is_domain_informer [OF refl, of demo_informer_lib demo_env 30 "[]" None]
  by (auto simp: genericInformer_Informer_def demo_informer_lib_def)

end
