(* ===== verification/Go_Duration.thy ===== *)
theory Go_Duration
  imports Go_Time
begin

text \<open>
  \<^verbatim>\<open>time.ParseDuration\<close>, with which \<^verbatim>\<open>main\<close> reads its intervals: a sign and a sequence
  of decimal numbers with a unit, such as \<open>1h30m\<close> or \<open>250ms\<close>.  The numbers are 64-bit unsigned
  integers with the overflow checks of the package.  A fraction is scaled in floating point
  arithmetic, which is an argument: \<open>scaled f unit k\<close> is \<open>f\<close> times \<open>unit\<close> over ten to the \<open>k\<close>,
  truncated to an integer.
\<close>

section \<open>Model\<close>

type_synonym scaling = "nat \<Rightarrow> nat \<Rightarrow> nat \<Rightarrow> nat"

definition digit_value :: "char \<Rightarrow> nat" where
  "digit_value c = of_char c - 48"

fun leadingInt :: "nat \<Rightarrow> string \<Rightarrow> (nat \<times> string) option" where
  \<comment> \<open>the number at the start and what remains; nothing on overflow\<close>
  "leadingInt x [] = Some (x, [])"
| "leadingInt x (c # s) =
     (if \<not> is_digit c then Some (x, c # s)
      else if x > 2 ^ 63 div 10 then None
      else let x = 10 * x + digit_value c in if x > 2 ^ 63 then None else leadingInt x s)"

fun leadingFraction :: "nat \<Rightarrow> nat \<Rightarrow> bool \<Rightarrow> string \<Rightarrow> nat \<times> nat \<times> string" where
  \<comment> \<open>digits that would overflow are skipped; the second component counts the others\<close>
  "leadingFraction x k overflow [] = (x, k, [])"
| "leadingFraction x k overflow (c # s) =
     (if \<not> is_digit c then (x, k, c # s)
      else if overflow \<or> x > (2 ^ 63 - 1) div 10 then leadingFraction x k True s
      else let y = 10 * x + digit_value c
           in if y > 2 ^ 63 then leadingFraction x k True s else leadingFraction y (Suc k) False s)"

definition unitMap :: "string \<Rightarrow> nat option" where
  \<comment> \<open>both spellings of the micro sign, in UTF-8\<close>
  "unitMap u = map_of
     [(''ns'', 1), (''us'', 1000), ([CHR 0xC2, CHR 0xB5, CHR ''s''], 1000),
      ([CHR 0xCE, CHR 0xBC, CHR ''s''], 1000), (''ms'', 10 ^ 6), (''s'', 10 ^ 9),
      (''m'', 60 * 10 ^ 9), (''h'', 3600 * 10 ^ 9)] u"

definition starts_number :: "char \<Rightarrow> bool" where
  "starts_number c \<longleftrightarrow> c = CHR ''.'' \<or> is_digit c"

abbreviation invalid_duration :: err where
  "invalid_duration \<equiv> Plain ''time: invalid duration''"

definition parse_number :: "string \<Rightarrow> (nat \<times> nat \<times> nat \<times> string) option" where
  \<comment> \<open>integer part, fraction, number of digits of the fraction, and the rest\<close>
  "parse_number s =
     (case leadingInt 0 s of
        None \<Rightarrow> None
      | Some (v, s1) \<Rightarrow>
          (let pre = length s \<noteq> length s1;
               (f, k, post, s2) =
                 (case s1 of
                    c # s1' \<Rightarrow>
                      (if c = CHR ''.''
                       then let (f, k, s2) = leadingFraction 0 0 False s1' in (f, k, length s1' \<noteq> length s2, s2)
                       else (0, 0, False, s1))
                  | [] \<Rightarrow> (0, 0, False, s1))
           in if \<not> pre \<and> \<not> post then None else Some (v, f, k, s2)))"

definition parse_unit :: "scaling \<Rightarrow> string \<Rightarrow> err + nat \<times> string" where
  \<comment> \<open>one number with its unit, in nanoseconds, and the rest\<close>
  "parse_unit scaled s =
     (if \<not> starts_number (hd s) then Inl invalid_duration
      else case parse_number s of
             None \<Rightarrow> Inl invalid_duration
           | Some (v, f, k, s2) \<Rightarrow>
               (let u = takeWhile (\<lambda>c. \<not> starts_number c) s2; rest = drop (length u) s2
                in if u = [] then Inl (Plain ''time: missing unit in duration'')
                   else case unitMap u of
                          None \<Rightarrow> Inl (Plain ''time: unknown unit in duration'')
                        | Some unit \<Rightarrow>
                            (if v > 2 ^ 63 div unit then Inl invalid_duration
                             else let v = v * unit + (if f > 0 then scaled f unit k else 0)
                                  in if f > 0 \<and> v > 2 ^ 63 then Inl invalid_duration else Inr (v, rest))))"

lemma leadingInt_length: "leadingInt x s = Some (v, s') \<Longrightarrow> length s' \<le> length s"
  by (induction x s rule: leadingInt.induct) (auto simp: Let_def split: if_splits)

lemma leadingFraction_length: "leadingFraction x k b s = (v, j, s') \<Longrightarrow> length s' \<le> length s"
  by (induction x k b s rule: leadingFraction.induct) (auto simp: Let_def split: if_splits)

lemma parse_number_length: "parse_number s = Some (v, f, k, s') \<Longrightarrow> length s' \<le> length s"
  by (fastforce simp: parse_number_def Let_def dest: leadingInt_length leadingFraction_length
      split: option.splits list.splits if_splits prod.splits)

lemma parse_unit_length:
  assumes "parse_unit F s = Inr (v, s')"
  shows "length s' < length s"
proof -
  obtain n f k s2 where p: "parse_number s = Some (n, f, k, s2)"
      "takeWhile (\<lambda>c. \<not> starts_number c) s2 \<noteq> []"
      "s' = drop (length (takeWhile (\<lambda>c. \<not> starts_number c) s2)) s2"
    using assms by (auto simp: parse_unit_def Let_def split: if_splits option.splits prod.splits)
  then have "length s' < length s2"
    by (cases s2) auto
  with parse_number_length [OF p(1)] show ?thesis by simp
qed

function parse_units :: "scaling \<Rightarrow> nat \<Rightarrow> string \<Rightarrow> err + nat" where
  \<comment> \<open>the loop; the sum is an unsigned 64-bit integer\<close>
  "parse_units scaled d s =
     (if s = [] then Inr d
      else case parse_unit scaled s of
             Inl e \<Rightarrow> Inl e
           | Inr (v, rest) \<Rightarrow>
               (let d = (d + v) mod 2 ^ 64
                in if d > 2 ^ 63 then Inl invalid_duration else parse_units scaled d rest))"
  by pat_completeness auto
termination
  by (relation "measure (\<lambda>(F, d, s). length s)") (auto dest: parse_unit_length)

declare parse_units.simps [simp del]

definition ParseDuration :: "scaling \<Rightarrow> string \<Rightarrow> err + int" where
  "ParseDuration scaled s =
     (let neg = (s \<noteq> [] \<and> hd s = CHR ''-'');
          s = (if s \<noteq> [] \<and> (hd s = CHR ''-'' \<or> hd s = CHR ''+'') then tl s else s)
      in if s = ''0'' then Inr 0
         else if s = [] then Inl invalid_duration
         else case parse_units scaled 0 s of
                Inl e \<Rightarrow> Inl e
              | Inr d \<Rightarrow>
                  (if neg then Inr (- int d)
                   else if d > 2 ^ 63 - 1 then Inl invalid_duration else Inr (int d)))"

section \<open>Whole numbers\<close>

lemma parse_units_le: "parse_units F d s = Inr x \<Longrightarrow> d \<le> 2 ^ 63 \<Longrightarrow> x \<le> 2 ^ 63"
proof (induction F d s rule: parse_units.induct)
  case (1 F d s)
  note body = "1.prems"(1) [unfolded parse_units.simps [of F d s]]
  show ?case
  proof (cases "s = []")
    case False
    then obtain v rest where "parse_unit F s = Inr (v, rest)" "\<not> 2 ^ 63 < (d + v) mod 2 ^ 64"
        "parse_units F ((d + v) mod 2 ^ 64) rest = Inr x"
      using body by (auto simp: Let_def split: if_splits sum.splits)
    then show ?thesis
      using "1.IH" [OF False _ refl refl] by (simp add: not_less)
  qed (use body "1.prems"(2) in simp)
qed

lemma foldl_digits_mono: "x \<le> foldl (\<lambda>a c. 10 * a + digit_value c) x ds"
proof (induction ds arbitrary: x)
  case (Cons c ds)
  have "x \<le> 10 * x + digit_value c" by simp
  also have "\<dots> \<le> foldl (\<lambda>a c. 10 * a + digit_value c) (10 * x + digit_value c) ds" by (rule Cons.IH)
  finally show ?case by simp
qed simp

lemma leadingInt_digits:
  assumes "list_all is_digit ds" "foldl (\<lambda>a c. 10 * a + digit_value c) x ds \<le> 2 ^ 63"
    and "r = [] \<or> \<not> is_digit (hd r)"
  shows "leadingInt x (ds @ r) = Some (foldl (\<lambda>a c. 10 * a + digit_value c) x ds, r)"
  using assms(1,2)
proof (induction ds arbitrary: x)
  case Nil
  with assms(3) show ?case by (cases r) auto
next
  case (Cons c ds)
  have "10 * x + digit_value c \<le> 2 ^ 63"
    using Cons.prems(2) foldl_digits_mono [of "10 * x + digit_value c" ds] by simp
  moreover from this have "\<not> x > 2 ^ 63 div 10" by simp
  ultimately show ?case
    using Cons by (simp add: Let_def)
qed

lemma leadingInt_of_digits:
  assumes "n \<le> 2 ^ 63" "r = [] \<or> \<not> is_digit (hd r)"
  shows "leadingInt 0 (digits n @ r) = Some (n, r)"
proof -
  have "foldl (\<lambda>a c. 10 * a + digit_value c) 0 (digits n) = n"
    using num_of_digits [of n] by (simp add: num_of_def digit_value_def)
  moreover have "list_all is_digit (digits n)"
    by (simp add: list_all_iff digits_are_digits)
  ultimately show ?thesis
    using leadingInt_digits [of "digits n" 0 r] assms by simp
qed

text \<open>The units have neither digits nor dots.\<close>

lemma unitMap_letters:
  assumes "unitMap u = Some unit"
  shows "u \<noteq> []" "list_all (\<lambda>c. \<not> starts_number c) u" "0 < unit" "unit \<le> 3600 * 10 ^ 9"
  using assms
  by (auto simp: unitMap_def starts_number_def is_digit_def split: if_splits)

lemma parse_unit_whole:
  assumes "unitMap u = Some unit" "n * unit \<le> 2 ^ 63" "r = [] \<or> starts_number (hd r)"
  shows "parse_unit F (digits n @ u @ r) = Inr (n * unit, r)"
proof -
  note u = unitMap_letters [OF assms(1)]
  have hd: "\<not> is_digit (hd (u @ r))" "hd (u @ r) \<noteq> CHR ''.''"
    using u(1,2) by (cases u; simp add: starts_number_def)+
  have "n * 1 \<le> n * unit" using u(3) by (intro mult_le_mono2) simp
  then have "n \<le> 2 ^ 63" using assms(2) by linarith
  then have "leadingInt 0 (digits n @ u @ r) = Some (n, u @ r)"
    using hd(1) by (intro leadingInt_of_digits) auto
  moreover have "digits n \<noteq> []" by (subst digits.simps) simp
  ultimately have "parse_number (digits n @ u @ r) = Some (n, 0, 0, u @ r)"
    using u(1) hd(2) by (cases u) (simp_all add: parse_number_def Let_def)
  moreover have "takeWhile (\<lambda>c. \<not> starts_number c) (u @ r) = u"
    using u(2) assms(3) by (cases r) (auto simp: list_all_iff takeWhile_append)
  moreover have "starts_number (hd (digits n @ u @ r))"
    using \<open>digits n \<noteq> []\<close> digits_are_digits [of "hd (digits n)" n] by (simp add: starts_number_def)
  moreover have "\<not> n > 2 ^ 63 div unit"
    using assms(2) u(3) by (simp add: less_eq_div_iff_mult_less_eq not_less)
  ultimately show ?thesis
    using assms(1) u(1) by (simp add: parse_unit_def)
qed

section \<open>Durations of whole units\<close>

text \<open>A duration written as a sequence of whole numbers of units, and its value.\<close>

definition written :: "(nat \<times> string) list \<Rightarrow> string" where
  "written xs = concat (map (\<lambda>(n, u). digits n @ u) xs)"

definition nanoseconds :: "(nat \<times> string) list \<Rightarrow> nat" where
  "nanoseconds xs = (\<Sum>(n, u) \<leftarrow> xs. n * the (unitMap u))"

abbreviation known_units :: "(nat \<times> string) list \<Rightarrow> bool" where
  "known_units \<equiv> list_all (\<lambda>(n, u). unitMap u \<noteq> None)"

lemma digits_start: "digits n \<noteq> []" "is_digit (hd (digits n))"
proof -
  show "digits n \<noteq> []" by (subst digits.simps) simp
  then show "is_digit (hd (digits n))" using digits_are_digits [of "hd (digits n)" n] by simp
qed

lemma written_start: "written xs = [] \<or> is_digit (hd (written xs))"
  by (cases xs) (auto simp: written_def digits_start)

lemma parse_units_written:
  assumes "known_units xs" "d + nanoseconds xs \<le> 2 ^ 63"
  shows "parse_units F d (written xs) = Inr (d + nanoseconds xs)"
  using assms
proof (induction xs arbitrary: d)
  case Nil
  then show ?case by (subst parse_units.simps) (simp add: written_def nanoseconds_def)
next
  case (Cons x xs)
  obtain n u where x: "x = (n, u)" by fastforce
  then obtain unit where unit: "unitMap u = Some unit" using Cons.prems(1) by auto
  have w: "written (x # xs) = digits n @ u @ written xs" and ns: "nanoseconds (x # xs) = n * unit + nanoseconds xs"
    using x unit by (simp_all add: written_def nanoseconds_def)
  have le: "n * unit \<le> 2 ^ 63" "d + n * unit \<le> 2 ^ 63"
    using Cons.prems(2) unfolding ns by linarith+
  then have m: "(d + n * unit) mod 2 ^ 64 = d + n * unit"
    by (intro mod_less) (simp add: le_less_trans)
  have "parse_unit F (written (x # xs)) = Inr (n * unit, written xs)"
    unfolding w using written_start [of xs] by (intro parse_unit_whole [OF unit le(1)]) (auto simp: starts_number_def)
  moreover have "written (x # xs) \<noteq> []" using w digits_start(1) by simp
  ultimately have "parse_units F d (written (x # xs)) = parse_units F (d + n * unit) (written xs)"
    using m le(2) by (subst parse_units.simps) (simp add: Let_def)
  then show ?case
    using Cons ns by (simp add: add.assoc)
qed

lemma written_not_zero:
  assumes "known_units xs" "xs \<noteq> []"
  shows "written xs \<noteq> ''0''" "written xs \<noteq> []"
proof -
  obtain n u ys unit where x: "xs = (n, u) # ys" "unitMap u = Some unit"
    using assms by (cases xs) auto
  then have w: "written xs = digits n @ u @ written ys" by (simp add: written_def)
  then show "written xs \<noteq> []" using digits_start(1) by simp
  have "2 \<le> length (digits n) + length u"
    using digits_start(1) [of n] unitMap_letters(1) [OF x(2)] by (cases u; cases "digits n") auto
  then have "2 \<le> length (written xs)" using w by simp
  then show "written xs \<noteq> ''0''" by auto
qed

section \<open>Reading a duration\<close>

text \<open>
  A duration that is written as whole numbers of units is read as their sum, with its sign, up
  to the largest duration; and whatever is read fits into 64 bits.
\<close>

lemma ParseDuration_whole:
  assumes "known_units xs" and "xs \<noteq> []" and "int (nanoseconds xs) \<le> max_int64"
  shows "ParseDuration F (written xs) = Inr (int (nanoseconds xs)) \<and>
    ParseDuration F (CHR ''-'' # written xs) = Inr (- int (nanoseconds xs))"
proof -
  have "nanoseconds xs \<le> 2 ^ 63 - 1" using assms(3) by simp
  then have le: "nanoseconds xs \<le> 2 ^ 63" "\<not> 2 ^ 63 - 1 < nanoseconds xs" by linarith+
  have p: "parse_units F 0 (written xs) = Inr (nanoseconds xs)"
    using parse_units_written [OF assms(1), of 0] le(1) by simp
  note start = written_not_zero [OF assms(1,2)]
  then have "hd (written xs) \<noteq> CHR ''-''" "hd (written xs) \<noteq> CHR ''+''"
    using written_start [of xs] by (auto simp: is_digit_def)
  with p start le(2) show ?thesis
    by (simp add: ParseDuration_def Let_def)
qed

lemma ParseDuration_samples:
  "ParseDuration (\<lambda>f unit k. f * unit div 10 ^ k) ''1m0s'' = Inr (60 * 10 ^ 9) \<and>
   ParseDuration (\<lambda>f unit k. f * unit div 10 ^ k) ''-250ms'' = Inr (- 250 * 10 ^ 6)"
proof -
  let ?F = "\<lambda>f unit k. f * unit div 10 ^ k"
  have "written [(1, ''m''), (0, ''s'')] = ''1m0s''" "written [(250, ''ms'')] = ''250ms''"
    by code_simp+
  moreover have "nanoseconds [(1, ''m''), (0, ''s'')] = 60 * 10 ^ 9" "nanoseconds [(250, ''ms'')] = 250 * 10 ^ 6"
    by (simp_all add: nanoseconds_def unitMap_def)
  moreover have "known_units [(1, ''m''), (0, ''s'')]" "known_units [(250, ''ms'')]"
    by (simp_all add: unitMap_def)
  ultimately show ?thesis
    using ParseDuration_whole [of "[(1, ''m''), (0, ''s'')]" ?F] ParseDuration_whole [of "[(250, ''ms'')]" ?F]
    by simp
qed

lemma ParseDuration_range:
  assumes "ParseDuration F s = Inr d"
  shows "in_int64 d"
proof -
  define neg where "neg = (s \<noteq> [] \<and> hd s = CHR ''-'')"
  define t where "t = (if s \<noteq> [] \<and> (hd s = CHR ''-'' \<or> hd s = CHR ''+'') then tl s else s)"
  have "Inr d = (if t = ''0'' then Inr 0 else if t = [] then Inl invalid_duration
      else case parse_units F 0 t of Inl e \<Rightarrow> Inl e
        | Inr x \<Rightarrow> (if neg then Inr (- int x) else if x > 2 ^ 63 - 1 then Inl invalid_duration else Inr (int x)))"
    unfolding assms [symmetric] neg_def t_def ParseDuration_def Let_def by (rule refl)
  then consider "d = 0" | x where "parse_units F 0 t = Inr x" "d = - int x"
    | x where "\<not> 2 ^ 63 - 1 < x" "d = int x"
    by (cases "parse_units F 0 t"; cases neg) (auto split: if_splits)
  then show ?thesis
  proof cases
    case 2
    then have "int x \<le> 2 ^ 63" using parse_units_le [OF 2(1)] by simp
    with 2 show ?thesis by (simp add: in_int64_def)
  next
    case 3
    then have "int x \<le> 2 ^ 63 - 1" by simp
    with 3 show ?thesis by (simp add: in_int64_def)
  qed (simp add: in_int64_def)
qed

end
