(* ===== verification/Go_Flag.thy ===== *)
theory Go_Flag
  imports Prelude
begin

text \<open>
  What the program uses of Go's package \<^verbatim>\<open>flag\<close>: the set of flags that are defined, with
  their values; the definition of a flag, which panics when there is one of that name; setting a flag
  by name; and \<^verbatim>\<open>Parse\<close>, which reads the command line and ends the process when it does not
  understand it.  The command lines that \<^verbatim>\<open>Parse\<close> accepts are characterised by a grammar: a
  list of settings, each in one of the ways a setting can be written, followed by what is not a flag.
\<close>

section \<open>Values\<close>

text \<open>
  A string flag, a boolean flag, or a flag of another library: whether that is boolean, which texts it
  accepts, and the text it was set to.
\<close>

datatype FlagValue =
    StringValue string
  | BoolValue bool
  | OtherValue bool "string \<Rightarrow> bool" string

definition ParseBool :: "string \<Rightarrow> bool option" where
  "ParseBool s =
     (if s \<in> set [''1'', ''t'', ''T'', ''true'', ''TRUE'', ''True''] then Some True
      else if s \<in> set [''0'', ''f'', ''F'', ''false'', ''FALSE'', ''False''] then Some False
      else None)"

fun IsBoolFlag :: "FlagValue \<Rightarrow> bool" where
  "IsBoolFlag (StringValue s) = False"
| "IsBoolFlag (BoolValue b) = True"
| "IsBoolFlag (OtherValue b accepts s) = b"

fun set_value :: "FlagValue \<Rightarrow> string \<Rightarrow> FlagValue option" where
  \<comment> \<open>the method \<open>Set\<close> of a flag's value; no value means that it returned an error\<close>
  "set_value (StringValue old) s = Some (StringValue s)"
| "set_value (BoolValue old) s = map_option BoolValue (ParseBool s)"
| "set_value (OtherValue b accepts old) s = (if accepts s then Some (OtherValue b accepts s) else None)"

text \<open>A set of flags; \<^verbatim>\<open>flag.CommandLine\<close> is one.\<close>

type_synonym formal = "string \<rightharpoonup> FlagValue"

definition string_var :: "formal \<Rightarrow> string \<Rightarrow> string" where
  \<comment> \<open>what the pointer that \<open>flag.String\<close> returned points to\<close>
  "string_var fs n = (case fs n of Some (StringValue s) \<Rightarrow> s | _ \<Rightarrow> [])"

definition bool_var :: "formal \<Rightarrow> string \<Rightarrow> bool" where
  \<comment> \<open>what the pointer that \<open>flag.Bool\<close> returned points to\<close>
  "bool_var fs n = (case fs n of Some (BoolValue b) \<Rightarrow> b | _ \<Rightarrow> False)"

section \<open>Defining and setting flags\<close>

definition proper_name :: "string \<Rightarrow> bool" where
  "proper_name n \<longleftrightarrow> n \<noteq> [] \<and> hd n \<noteq> CHR ''-'' \<and> CHR ''='' \<notin> set n"

definition Var :: "string \<Rightarrow> FlagValue \<Rightarrow> formal \<Rightarrow> formal outcome" where
  \<comment> \<open>\<open>flag.String\<close>, \<open>flag.Bool\<close> and the others define a flag through it\<close>
  "Var n v fs =
     (if n \<noteq> [] \<and> hd n = CHR ''-'' then Panic (PanicError (Plain ''flag begins with -''))
      else if CHR ''='' \<in> set n then Panic (PanicError (Plain ''flag contains =''))
      else if fs n \<noteq> None then Panic (PanicError (Plain ''flag redefined''))
      else Return (fs(n \<mapsto> v)))"

fun define_flags :: "(string \<times> FlagValue) list \<Rightarrow> formal \<Rightarrow> formal outcome" where
  "define_flags [] fs = Return fs"
| "define_flags ((n, v) # defs) fs = bind_outcome (Var n v fs) (define_flags defs)"

definition flag_Set :: "string \<Rightarrow> string \<Rightarrow> formal \<Rightarrow> err option \<times> formal" where
  "flag_Set n s fs =
     (case fs n of
        None \<Rightarrow> (Some (Plain ''no such flag''), fs)
      | Some v \<Rightarrow>
          (case set_value v s of
             None \<Rightarrow> (Some (Plain ''invalid value''), fs)
           | Some v' \<Rightarrow> (None, fs(n \<mapsto> v'))))"

section \<open>Parse\<close>

datatype flag_error = BadSyntax string | NotDefined string | ErrHelp | NeedsArgument string | InvalidValue string

datatype seen = Seen | Stop | Failed flag_error

fun cut_at_equals :: "string \<Rightarrow> string \<Rightarrow> string \<times> string option" where
  \<comment> \<open>the loop that looks for the equals sign, after the first character\<close>
  "cut_at_equals acc [] = (acc, None)"
| "cut_at_equals acc (c # cs) = (if c = CHR ''='' then (acc, Some cs) else cut_at_equals (acc @ [c]) cs)"

definition store_value :: "formal \<Rightarrow> string \<Rightarrow> FlagValue \<Rightarrow> string \<Rightarrow> string list \<Rightarrow> seen \<times> formal \<times> string list" where
  "store_value fs n v s rest =
     (case set_value v s of
        None \<Rightarrow> (Failed (InvalidValue n), fs, rest)
      | Some v' \<Rightarrow> (Seen, fs(n \<mapsto> v'), rest))"

definition parse_named :: "formal \<Rightarrow> string \<Rightarrow> string option \<Rightarrow> string list \<Rightarrow> seen \<times> formal \<times> string list" where
  \<comment> \<open>the name is known; \<open>rest\<close> are the arguments after this one\<close>
  "parse_named fs n given rest =
     (case fs n of
        None \<Rightarrow> (Failed (if n = ''help'' \<or> n = ''h'' then ErrHelp else NotDefined n), fs, rest)
      | Some v \<Rightarrow>
          (if IsBoolFlag v
           then store_value fs n v (case given of None \<Rightarrow> ''true'' | Some s \<Rightarrow> s) rest
           else case given of
                  Some s \<Rightarrow> store_value fs n v s rest
                | None \<Rightarrow>
                    (case rest of
                       [] \<Rightarrow> (Failed (NeedsArgument n), fs, rest)
                     | s # rest' \<Rightarrow> store_value fs n v s rest')))"

definition parseOne :: "formal \<Rightarrow> string list \<Rightarrow> seen \<times> formal \<times> string list" where
  "parseOne fs args =
     (case args of
        [] \<Rightarrow> (Stop, fs, [])
      | s # rest \<Rightarrow>
          (if length s < 2 \<or> s ! 0 \<noteq> CHR ''-'' then (Stop, fs, args)
           else if s = ''--'' then (Stop, fs, rest)
           else
             let name = drop (if s ! 1 = CHR ''-'' then 2 else 1) s in
             if name = [] \<or> hd name = CHR ''-'' \<or> hd name = CHR ''='' then (Failed (BadSyntax s), fs, args)
             else let (n, given) = cut_at_equals [hd name] (tl name) in parse_named fs n given rest))"

lemma store_value_rest: "store_value fs n v s rest = (r, fs', rest') \<Longrightarrow> rest' = rest"
  by (auto simp: store_value_def split: option.splits)

lemma parse_named_rest: "parse_named fs n given rest = (r, fs', rest') \<Longrightarrow> length rest' \<le> length rest"
  by (auto simp: parse_named_def dest!: store_value_rest split: option.splits if_splits list.splits)

lemma parseOne_Seen: "parseOne fs args = (Seen, fs', args') \<Longrightarrow> length args' < length args"
  by (auto simp: parseOne_def Let_def dest!: parse_named_rest split: list.splits if_splits prod.splits)

function parse_loop :: "formal \<Rightarrow> string list \<Rightarrow> flag_error option \<times> formal \<times> string list" where
  "parse_loop fs args =
     (case parseOne fs args of
        (Seen, fs', args') \<Rightarrow> parse_loop fs' args'
      | (Stop, fs', args') \<Rightarrow> (None, fs', args')
      | (Failed e, fs', args') \<Rightarrow> (Some e, fs', args'))"
  by pat_completeness auto
termination
  by (relation "measure (\<lambda>(fs, args). length args)") (auto dest: parseOne_Seen [OF sym])

declare parse_loop.simps [simp del]

lemma parse_loop_Seen: "parseOne fs args = (Seen, fs', args') \<Longrightarrow> parse_loop fs args = parse_loop fs' args'"
  by (simp add: parse_loop.simps [of fs args])

text \<open>
  \<^verbatim>\<open>Parse\<close> on the command line, which exits on an error: with zero when help was asked for,
  otherwise with two.
\<close>

datatype 'a run = Running 'a | Exited int | Crashed go_panic

fun bind_run :: "'a run \<Rightarrow> ('a \<Rightarrow> 'b run) \<Rightarrow> 'b run" where
  "bind_run (Running a) f = f a"
| "bind_run (Exited c) f = Exited c"
| "bind_run (Crashed p) f = Crashed p"

fun run_of :: "'a outcome \<Rightarrow> 'a run" where
  \<comment> \<open>a panic in the main goroutine ends the process\<close>
  "run_of (Return a) = Running a"
| "run_of (Panic p) = Crashed p"

lemma bind_run_Running_iff [simp]:
  "bind_run r f = Running b \<longleftrightarrow> (\<exists>a. r = Running a \<and> f a = Running b)"
  by (cases r) auto

lemma run_of_Running_iff [simp]: "run_of r = Running a \<longleftrightarrow> r = Return a"
  by (cases r) auto

definition Parse :: "formal \<Rightarrow> string list \<Rightarrow> formal run" where
  "Parse fs args =
     (case parse_loop fs args of
        (None, fs', rest) \<Rightarrow> Running fs'
      | (Some e, fs', rest) \<Rightarrow> Exited (if e = ErrHelp then 0 else 2))"

section \<open>The grammar of a command line\<close>

text \<open>
  A setting is written with one or two dashes: the name and the value joined by an equals sign, the
  value apart as the next argument, or the bare name.
\<close>

datatype form = Joined | Apart | Bare

record setting =
  form :: form
  two_dashes :: bool
  flagName :: string
  flagText :: string

definition dashes :: "setting \<Rightarrow> string" where
  "dashes st = (if two_dashes st then ''--'' else ''-'')"

definition spell :: "setting \<Rightarrow> string list" where
  "spell st =
     (case form st of
        Joined \<Rightarrow> [dashes st @ flagName st @ CHR ''='' # flagText st]
      | Apart \<Rightarrow> [dashes st @ flagName st, flagText st]
      | Bare \<Rightarrow> [dashes st @ flagName st])"

text \<open>
  The forms a flag takes: only a boolean flag can be bare, which sets it to true, and only another
  flag takes its value from the next argument.
\<close>

definition form_fits :: "bool \<Rightarrow> setting \<Rightarrow> bool" where
  "form_fits isbool st \<longleftrightarrow>
     (case form st of Joined \<Rightarrow> True | Apart \<Rightarrow> \<not> isbool | Bare \<Rightarrow> isbool \<and> flagText st = ''true'')"

definition fits :: "formal \<Rightarrow> setting \<Rightarrow> bool" where
  "fits fs st \<longleftrightarrow> proper_name (flagName st) \<and>
     (case fs (flagName st) of
        None \<Rightarrow> False
      | Some v \<Rightarrow> form_fits (IsBoolFlag v) st \<and> set_value v (flagText st) \<noteq> None)"

definition apply_setting :: "setting \<Rightarrow> formal \<Rightarrow> formal" where
  "apply_setting st fs = snd (flag_Set (flagName st) (flagText st) fs)"

definition ends_flags :: "string list \<Rightarrow> bool" where
  \<comment> \<open>there is no further flag\<close>
  "ends_flags rest \<longleftrightarrow>
     (case rest of [] \<Rightarrow> True | s # _ \<Rightarrow> length s < 2 \<or> s ! 0 \<noteq> CHR ''-'' \<or> s = ''--'')"

abbreviation command_line :: "setting list \<Rightarrow> string list" where
  "command_line sts \<equiv> concat (map spell sts)"

section \<open>The parser and the grammar\<close>

lemma cut_at_equals_name:
  assumes "CHR ''='' \<notin> set n"
  shows "cut_at_equals acc n = (acc @ n, None)" "cut_at_equals acc (n @ CHR ''='' # s) = (acc @ n, Some s)"
  using assms by (induction n arbitrary: acc) auto

lemma cut_at_equals_result:
  "cut_at_equals acc cs = (n, given) \<Longrightarrow> CHR ''='' \<notin> set acc \<Longrightarrow>
    CHR ''='' \<notin> set n \<and> acc @ cs = n @ (case given of None \<Rightarrow> [] | Some s \<Rightarrow> CHR ''='' # s) \<and> (\<exists>m. n = acc @ m)"
proof (induction acc cs rule: cut_at_equals.induct)
  case (2 acc c cs)
  then show ?case by (auto split: if_splits)
qed simp

lemma parseOne_flag:
  assumes "proper_name n" and "dd = ''-'' \<or> dd = ''--''"
  shows "parseOne fs ((dd @ n) # rest) = parse_named fs n None rest"
    and "parseOne fs ((dd @ n @ CHR ''='' # s) # rest) = parse_named fs n (Some s) rest"
proof -
  obtain c m where n: "n = c # m" "c \<noteq> CHR ''-''" "c \<noteq> CHR ''=''" "CHR ''='' \<notin> set m"
    using assms(1) by (cases n) (auto simp: proper_name_def)
  show "parseOne fs ((dd @ n) # rest) = parse_named fs n None rest"
    "parseOne fs ((dd @ n @ CHR ''='' # s) # rest) = parse_named fs n (Some s) rest"
    using assms(2) n cut_at_equals_name [OF n(4), of "[c]"] by (auto simp: parseOne_def)
qed

lemma parseOne_not_flag: "ends_flags args \<Longrightarrow> \<exists>rest. parseOne fs args = (Stop, fs, rest)"
  by (auto simp: ends_flags_def parseOne_def split: list.splits)

lemma dashes_cases: "dashes st = ''-'' \<or> dashes st = ''--''"
  by (simp add: dashes_def)

lemma parseOne_setting:
  assumes "fits fs st"
  shows "parseOne fs (spell st @ rest) = (Seen, apply_setting st fs, rest)"
proof -
  obtain v v' where v: "fs (flagName st) = Some v" "form_fits (IsBoolFlag v) st"
      "set_value v (flagText st) = Some v'" "proper_name (flagName st)"
    using assms by (auto simp: fits_def split: option.splits)
  show ?thesis
    using v parseOne_flag [OF v(4) dashes_cases [of st]]
    by (cases "form st")
      (auto simp: spell_def form_fits_def parse_named_def store_value_def apply_setting_def flag_Set_def)
qed

lemma set_value_same: "set_value v s = Some v' \<Longrightarrow> IsBoolFlag v' = IsBoolFlag v \<and> set_value v' t = set_value v t"
  by (cases v) (auto split: if_splits)

lemma fits_apply [simp]: "fits (apply_setting st fs) = fits fs"
  by (auto simp: fun_eq_iff fits_def apply_setting_def flag_Set_def set_value_same split: option.split)

lemma fits_applies [simp]: "fits (fold apply_setting sts fs) = fits fs"
  by (induction sts arbitrary: fs) simp_all

lemma apply_settings_None [simp]: "fold apply_setting sts fs n = None \<longleftrightarrow> fs n = None"
proof (induction sts arbitrary: fs)
  case (Cons st sts)
  then show ?case by (simp add: apply_setting_def flag_Set_def split: option.split)
qed simp

lemma parse_loop_settings:
  assumes "list_all (fits fs) sts"
  shows "parse_loop fs (command_line sts @ rest) = parse_loop (fold apply_setting sts fs) rest"
  using assms
proof (induction sts arbitrary: fs)
  case (Cons st sts)
  then show ?case
    by (simp add: parse_loop_Seen [OF parseOne_setting])
qed simp

lemma parse_loop_end: "ends_flags rest \<Longrightarrow> \<exists>rest'. parse_loop fs rest = (None, fs, rest')"
  using parseOne_not_flag [of rest fs] by (auto simp: parse_loop.simps [of fs rest])

lemma Parse_settings:
  assumes "list_all (fits fs) sts" and "ends_flags rest"
  shows "Parse fs (command_line sts @ rest) = Running (fold apply_setting sts fs)"
  using parse_loop_end [OF assms(2), of "fold apply_setting sts fs"]
  by (auto simp: Parse_def parse_loop_settings [OF assms(1)])

text \<open>Conversely, a flag that is read was written in one of the forms.\<close>

lemma store_value_Seen:
  "store_value fs n v s rest = (Seen, fs', rest') \<longleftrightarrow>
    (\<exists>v'. set_value v s = Some v' \<and> fs' = fs(n \<mapsto> v') \<and> rest' = rest)"
  by (auto simp: store_value_def split: option.splits)

lemma parse_named_Seen:
  assumes "parse_named fs n given rest = (Seen, fs', rest')" and "proper_name n"
  obtains st where "fits fs st" "fs' = apply_setting st fs" "flagName st = n" "two_dashes st = td"
    "spell st @ rest' = (dashes st @ n @ (case given of None \<Rightarrow> [] | Some s \<Rightarrow> CHR ''='' # s)) # rest"
proof -
  obtain v where v: "fs n = Some v"
    using assms(1) by (auto simp: parse_named_def split: option.splits if_splits)
  note defs = fits_def form_fits_def apply_setting_def flag_Set_def spell_def dashes_def
  show ?thesis
  proof (cases given)
    case (Some s)
    with assms v that [of "\<lparr>form = Joined, two_dashes = td, flagName = n, flagText = s\<rparr>"] show ?thesis
      by (auto simp: parse_named_def store_value_Seen defs split: if_splits)
  next
    case None
    show ?thesis
    proof (cases "IsBoolFlag v")
      case True
      with None assms v that [of "\<lparr>form = Bare, two_dashes = td, flagName = n, flagText = ''true''\<rparr>"] show ?thesis
        by (auto simp: parse_named_def store_value_Seen defs)
    next
      case False
      then obtain s where "rest = s # rest'" "store_value fs n v s rest' = (Seen, fs', rest')"
        using None assms(1) v by (auto simp: parse_named_def store_value_Seen split: list.splits)
      with False None assms v that [of "\<lparr>form = Apart, two_dashes = td, flagName = n, flagText = s\<rparr>"] show ?thesis
        by (auto simp: store_value_Seen defs)
    qed
  qed
qed

lemma parseOne_Seen_setting:
  assumes "parseOne fs args = (Seen, fs', args')"
  obtains st where "fits fs st" "fs' = apply_setting st fs" "args = spell st @ args'"
proof -
  obtain s rest where args: "args = s # rest" "2 \<le> length s" "s ! 0 = CHR ''-''"
    using assms by (auto simp: parseOne_def split: list.splits if_splits)
  define two where "two = (s ! 1 = CHR ''-'')"
  define name where "name = drop (if two then 2 else 1) s"
  obtain n given where c: "cut_at_equals [hd name] (tl name) = (n, given)" by fastforce
  have name: "name \<noteq> []" "hd name \<noteq> CHR ''-''" "hd name \<noteq> CHR ''=''" "parse_named fs n given rest = (Seen, fs', args')"
    using assms args c by (auto simp: parseOne_def Let_def name_def two_def split: if_splits)
  obtain m where m: "CHR ''='' \<notin> set n" "n = [hd name] @ m"
      "[hd name] @ tl name = n @ (case given of None \<Rightarrow> [] | Some s \<Rightarrow> CHR ''='' # s)"
    using cut_at_equals_result [OF c] name(3) by (metis empty_set list.set(1) list.set(2) singletonD)
  then have n: "proper_name n" "name = n @ (case given of None \<Rightarrow> [] | Some s \<Rightarrow> CHR ''='' # s)"
    using name(1,2) by (simp_all add: proper_name_def)
  have "s = (if two then ''--'' else ''-'') @ name"
    using args by (cases s rule: list.exhaust; cases "tl s") (auto simp: name_def two_def)
  with args n(2) name(4) that show ?thesis
    by (elim parse_named_Seen [OF _ n(1), where td = two]) (auto simp: dashes_def)
qed

theorem Parse_iff:
  "Parse fs args = Running fs' \<longleftrightarrow>
    (\<exists>sts rest. args = command_line sts @ rest \<and> list_all (fits fs) sts \<and> ends_flags rest \<and>
       fs' = fold apply_setting sts fs)"
proof
  assume "Parse fs args = Running fs'"
  then obtain rest' where "parse_loop fs args = (None, fs', rest')"
    by (auto simp: Parse_def split: prod.splits option.splits)
  then show "\<exists>sts rest. args = command_line sts @ rest \<and> list_all (fits fs) sts \<and> ends_flags rest \<and>
      fs' = fold apply_setting sts fs"
  proof (induction fs args rule: parse_loop.induct)
    case (1 fs args)
    obtain r fs1 args1 where p: "parseOne fs args = (r, fs1, args1)" by (metis prod.exhaust)
    show ?case
    proof (cases r)
      case Seen
      then obtain st where st: "fits fs st" "fs1 = apply_setting st fs" "args = spell st @ args1"
        using p parseOne_Seen_setting by metis
      then obtain sts rest where "args1 = command_line sts @ rest" "list_all (fits fs1) sts" "ends_flags rest"
          "fs' = fold apply_setting sts fs1"
        using 1 p Seen by (metis parse_loop_Seen)
      with st show ?thesis by (intro exI [of _ "st # sts"] exI [of _ rest]) simp
    next
      case Stop
      then have "ends_flags args" "fs' = fs"
        using 1(2) p
        by (auto simp: parse_loop.simps [of fs args] parseOne_def ends_flags_def Let_def parse_named_def store_value_def
            split: list.splits if_splits prod.splits option.splits)
      then show ?thesis by (intro exI [of _ "[]"] exI [of _ args]) simp
    qed (use 1(2) p in \<open>simp add: parse_loop.simps [of fs args]\<close>)
  qed
qed (auto simp: Parse_settings)

text \<open>A flag that is not defined ends the process, whatever was read before it.\<close>

theorem undefined_flag_exits:
  assumes "list_all (fits fs) sts" and "proper_name (flagName st)" and "fs (flagName st) = None"
    and "flagName st \<noteq> ''help''" and "flagName st \<noteq> ''h''"
  shows "Parse fs (command_line sts @ spell st @ rest) = Exited 2"
proof -
  have none: "fold apply_setting sts fs (flagName st) = None"
    using assms(3) by simp
  then have "\<exists>rest'. parseOne (fold apply_setting sts fs) (spell st @ rest) =
      (Failed (NotDefined (flagName st)), fold apply_setting sts fs, rest')"
    using assms(4,5) parseOne_flag [OF assms(2) dashes_cases [of st]]
    by (cases "form st") (auto simp: spell_def parse_named_def simp del: apply_settings_None)
  then show ?thesis
    by (auto simp: Parse_def parse_loop_settings [OF assms(1)] parse_loop.simps [of "fold apply_setting sts fs" "spell st @ rest"])
qed

section \<open>Parsing again\<close>

text \<open>
  The value of a flag after the command line was read is the one of its last setting; so reading the
  same command line again, after further flags were defined, changes nothing.
\<close>

definition last_text :: "setting list \<Rightarrow> string \<rightharpoonup> string" where
  "last_text sts = map_of (rev (map (\<lambda>st. (flagName st, flagText st)) sts))"

lemma apply_setting_eq:
  "fs (flagName st) = Some v \<Longrightarrow> set_value v (flagText st) = Some v' \<Longrightarrow>
    apply_setting st fs = fs(flagName st \<mapsto> v')"
  by (simp add: apply_setting_def flag_Set_def)

lemma applies_lookup:
  assumes "fs n = Some v"
  shows "\<exists>v'. fold apply_setting sts fs n = Some v' \<and> (\<forall>t. set_value v' t = set_value v t)"
  using assms
proof (induction sts arbitrary: fs v)
  case (Cons st sts)
  have "\<exists>v'. apply_setting st fs n = Some v' \<and> (\<forall>t. set_value v' t = set_value v t)"
    using Cons.prems by (auto simp: apply_setting_def flag_Set_def set_value_same split: option.split)
  then obtain v' where v': "apply_setting st fs n = Some v'" "\<And>t. set_value v' t = set_value v t" by blast
  show ?case
    using Cons.IH [of "apply_setting st fs" v'] v' by simp
qed simp

lemma applies_eq:
  assumes "list_all (fits fs) sts"
  shows "fold apply_setting sts fs n = (case last_text sts n of None \<Rightarrow> fs n | Some s \<Rightarrow> set_value (the (fs n)) s)"
  using assms
proof (induction sts rule: rev_induct)
  case (snoc st sts)
  then obtain v v' where v: "fs (flagName st) = Some v" "set_value v (flagText st) = Some v'"
    by (auto simp: fits_def split: option.splits)
  obtain w where "fold apply_setting sts fs (flagName st) = Some w" "set_value w (flagText st) = Some v'"
    using applies_lookup [of fs "flagName st" v sts] v by auto
  with v snoc show ?case
    by (simp add: apply_setting_eq last_text_def)
qed (simp add: last_text_def)

lemma fits_extend: "fits fs st \<Longrightarrow> fs n = None \<Longrightarrow> fits (fs(n \<mapsto> v)) st"
  by (auto simp: fits_def split: option.splits)

theorem Parse_again:
  assumes "Parse fs args = Running fs'" and "fs n = None"
  shows "Parse (fs'(n \<mapsto> v)) args = Running (fs'(n \<mapsto> v))"
proof -
  obtain sts rest where sts: "args = command_line sts @ rest" "list_all (fits fs) sts" "ends_flags rest"
      "fs' = fold apply_setting sts fs"
    using assms(1) by (auto simp: Parse_iff)
  have none: "fs' n = None"
    using assms(2) sts(4) by simp
  have fit: "list_all (fits (fs'(n \<mapsto> v))) sts"
    using sts(2,4) none by (auto simp: list_all_iff intro: fits_extend)
  have "last_text sts n = None"
    using sts(2) assms(2)
    by (auto simp: last_text_def map_of_eq_None_iff list_all_iff fits_def split: option.splits)
  moreover have "fs' m = set_value (the (fs' m)) s" if "last_text sts m = Some s" for m s
  proof -
    have "m \<in> flagName ` set sts"
      using that by (force simp: last_text_def dest: map_of_SomeD)
    then obtain w where w: "fs m = Some w"
      using sts(2) by (auto simp: list_all_iff fits_def split: option.splits)
    with applies_lookup [of fs m w sts] applies_eq [OF sts(2), of m] that sts(4) show ?thesis by auto
  qed
  ultimately have "fold apply_setting sts (fs'(n \<mapsto> v)) m = (fs'(n \<mapsto> v)) m" for m
    by (auto simp: applies_eq [OF fit] split: option.split)
  then show ?thesis
    using Parse_settings [OF fit sts(3)] sts(1) by (metis ext)
qed

end
