(* ===== verification/Command_Line.thy ===== *)
theory Command_Line
  imports Go_Flag Cron
begin

text \<open>
  The command line of the program: the flags that \<^verbatim>\<open>main\<close> defines, with their defaults, those
  of the logging library \<^verbatim>\<open>klog\<close>, which are an argument, and what the command line makes of them.
\<close>

section \<open>The flags\<close>

record Flags =
  keyFlag :: string
  certFlag :: string
  caCertFlag :: string
  zmsURL :: string
  updateCronFlag :: string
  contactCm :: AthenzContactTimeConfigMap
  resyncCronFlag :: string
  queueDelayInterval :: string
  adminDomainFlag :: string
  systemNamespacesFlag :: string
  disableKeepAlives :: bool
  identityKeyDir :: string
  useNToken :: bool
  serviceName :: string
  serviceDomain :: string
  secretNameFlag :: string
  authHeader :: string
  nTokenExpireTime :: string
  excludeNamespacesFlag :: string
  excludeMSDRulesFlag :: bool
  logLoc :: string
  logMode :: string

definition main_vars :: "(string \<times> FlagValue) list" where
  \<comment> \<open>the flags in the order in which they are defined\<close>
  "main_vars =
     [(''key'', StringValue ''/var/run/athenz/service.key.pem''),
      (''cert'', StringValue ''/var/run/athenz/service.cert.pem''),
      (''cacert'', StringValue []),
      (''zms-url'', StringValue []),
      (''update-cron'', StringValue ''1m0s''),
      (''athenz-contact-time-cm-ns'', StringValue ''kube-yahoo''),
      (''athenz-contact-time-cm-name'', StringValue ''athenzcall-config''),
      (''athenz-contact-time-cm-key'', StringValue ''latest_contact''),
      (''resync-cron'', StringValue ''1h0m0s''),
      (''queue-delay-interval'', StringValue ''250ms''),
      (''admin-domain'', StringValue []),
      (''system-namespaces'', StringValue []),
      (''disable-keep-alives'', BoolValue True),
      (''log-location'', StringValue ''/var/log/k8s-athenz-syncer/k8s-athenz-syncer.log''),
      (''log-mode'', StringValue ''info''),
      (''identity-key'', StringValue ''/var/run/keys/identity''),
      (''use-ntoken'', BoolValue False),
      (''service-name'', StringValue ''k8s-athenz-syncer''),
      (''service-domain'', StringValue []),
      (''secret-name'', StringValue ''k8s-athenz-syncer''),
      (''auth-header'', StringValue []),
      (''ntoken-expiry'', StringValue ''1h0m0s''),
      (''exclude-namespaces'', StringValue []),
      (''exclude-msd-rules'', BoolValue False)]"

definition flags_of :: "formal \<Rightarrow> Flags" where
  \<comment> \<open>what the variables of \<open>main\<close> point to\<close>
  "flags_of fs =
     \<lparr>keyFlag = string_var fs ''key'', certFlag = string_var fs ''cert'', caCertFlag = string_var fs ''cacert'',
      zmsURL = string_var fs ''zms-url'', updateCronFlag = string_var fs ''update-cron'',
      contactCm = \<lparr>cmNamespace = string_var fs ''athenz-contact-time-cm-ns'',
                   cmMapName = string_var fs ''athenz-contact-time-cm-name'',
                   cmKey = string_var fs ''athenz-contact-time-cm-key''\<rparr>,
      resyncCronFlag = string_var fs ''resync-cron'', queueDelayInterval = string_var fs ''queue-delay-interval'',
      adminDomainFlag = string_var fs ''admin-domain'', systemNamespacesFlag = string_var fs ''system-namespaces'',
      disableKeepAlives = bool_var fs ''disable-keep-alives'', identityKeyDir = string_var fs ''identity-key'',
      useNToken = bool_var fs ''use-ntoken'', serviceName = string_var fs ''service-name'',
      serviceDomain = string_var fs ''service-domain'', secretNameFlag = string_var fs ''secret-name'',
      authHeader = string_var fs ''auth-header'', nTokenExpireTime = string_var fs ''ntoken-expiry'',
      excludeNamespacesFlag = string_var fs ''exclude-namespaces'',
      excludeMSDRulesFlag = bool_var fs ''exclude-msd-rules'',
      logLoc = string_var fs ''log-location'', logMode = string_var fs ''log-mode''\<rparr>"

definition main_flags :: "(string \<times> FlagValue) list \<Rightarrow> string list \<Rightarrow> formal run" where
  \<comment> \<open>\<open>main\<close> up to the first \<open>flag.Parse\<close>; the errors of \<open>flag.Set\<close> are not looked at\<close>
  "main_flags klog args =
     bind_run (run_of (define_flags main_vars Map.empty)) (\<lambda>fs.
     bind_run (run_of (define_flags klog fs)) (\<lambda>fs.
     let (_, fs) = flag_Set ''logtostderr'' ''false'' fs;
         (_, fs) = flag_Set ''logtostdout'' ''false'' fs
     in Parse fs args))"

text \<open>What the README says of the parameters: their defaults, and what setting one of them changes.\<close>

definition default_flags :: Flags where
  "default_flags =
     \<lparr>keyFlag = ''/var/run/athenz/service.key.pem'', certFlag = ''/var/run/athenz/service.cert.pem'',
      caCertFlag = [], zmsURL = [], updateCronFlag = ''1m0s'',
      contactCm = \<lparr>cmNamespace = ''kube-yahoo'', cmMapName = ''athenzcall-config'', cmKey = ''latest_contact''\<rparr>,
      resyncCronFlag = ''1h0m0s'', queueDelayInterval = ''250ms'', adminDomainFlag = [],
      systemNamespacesFlag = [], disableKeepAlives = True, identityKeyDir = ''/var/run/keys/identity'',
      useNToken = False, serviceName = ''k8s-athenz-syncer'', serviceDomain = [],
      secretNameFlag = ''k8s-athenz-syncer'', authHeader = [], nTokenExpireTime = ''1h0m0s'',
      excludeNamespacesFlag = [], excludeMSDRulesFlag = False,
      logLoc = ''/var/log/k8s-athenz-syncer/k8s-athenz-syncer.log'', logMode = ''info''\<rparr>"

definition is_true :: "string \<Rightarrow> bool" where
  "is_true s \<longleftrightarrow> ParseBool s = Some True"

definition set_flag :: "string \<Rightarrow> string \<Rightarrow> Flags \<Rightarrow> Flags" where
  "set_flag n s fl =
     (if n = ''key'' then fl\<lparr>keyFlag := s\<rparr>
      else if n = ''cert'' then fl\<lparr>certFlag := s\<rparr>
      else if n = ''cacert'' then fl\<lparr>caCertFlag := s\<rparr>
      else if n = ''zms-url'' then fl\<lparr>zmsURL := s\<rparr>
      else if n = ''update-cron'' then fl\<lparr>updateCronFlag := s\<rparr>
      else if n = ''athenz-contact-time-cm-ns'' then fl\<lparr>contactCm := (contactCm fl)\<lparr>cmNamespace := s\<rparr>\<rparr>
      else if n = ''athenz-contact-time-cm-name'' then fl\<lparr>contactCm := (contactCm fl)\<lparr>cmMapName := s\<rparr>\<rparr>
      else if n = ''athenz-contact-time-cm-key'' then fl\<lparr>contactCm := (contactCm fl)\<lparr>cmKey := s\<rparr>\<rparr>
      else if n = ''resync-cron'' then fl\<lparr>resyncCronFlag := s\<rparr>
      else if n = ''queue-delay-interval'' then fl\<lparr>queueDelayInterval := s\<rparr>
      else if n = ''admin-domain'' then fl\<lparr>adminDomainFlag := s\<rparr>
      else if n = ''system-namespaces'' then fl\<lparr>systemNamespacesFlag := s\<rparr>
      else if n = ''disable-keep-alives'' then fl\<lparr>disableKeepAlives := is_true s\<rparr>
      else if n = ''log-location'' then fl\<lparr>logLoc := s\<rparr>
      else if n = ''log-mode'' then fl\<lparr>logMode := s\<rparr>
      else if n = ''identity-key'' then fl\<lparr>identityKeyDir := s\<rparr>
      else if n = ''use-ntoken'' then fl\<lparr>useNToken := is_true s\<rparr>
      else if n = ''service-name'' then fl\<lparr>serviceName := s\<rparr>
      else if n = ''service-domain'' then fl\<lparr>serviceDomain := s\<rparr>
      else if n = ''secret-name'' then fl\<lparr>secretNameFlag := s\<rparr>
      else if n = ''auth-header'' then fl\<lparr>authHeader := s\<rparr>
      else if n = ''ntoken-expiry'' then fl\<lparr>nTokenExpireTime := s\<rparr>
      else if n = ''exclude-namespaces'' then fl\<lparr>excludeNamespacesFlag := s\<rparr>
      else if n = ''exclude-msd-rules'' then fl\<lparr>excludeMSDRulesFlag := is_true s\<rparr>
      else fl)"

definition given_flags :: "setting list \<Rightarrow> Flags" where
  "given_flags sts = fold (\<lambda>st. set_flag (flagName st) (flagText st)) sts default_flags"

section \<open>The flags are defined\<close>

text \<open>
  The flags of \<^verbatim>\<open>klog\<close> have names of their own, neither those of \<^verbatim>\<open>main\<close> nor
  those of the two flags that are defined later.
\<close>

definition klog_apart :: "(string \<times> FlagValue) list \<Rightarrow> bool" where
  "klog_apart klog \<longleftrightarrow> distinct (map fst klog) \<and>
     list_all (\<lambda>n. proper_name n \<and> n \<notin> set (map fst main_vars) \<and> n \<notin> {''inClusterConfig'', ''kubeconfig''})
       (map fst klog)"

lemma define_flags_distinct:
  assumes "distinct (map fst defs)" "list_all proper_name (map fst defs)" "set (map fst defs) \<inter> dom fs = {}"
  shows "define_flags defs fs = Return (fs ++ map_of defs)"
  using assms
proof (induction defs arbitrary: fs)
  case (Cons d defs)
  obtain n v where d: "d = (n, v)" by fastforce
  with Cons.prems have v: "Var n v fs = Return (fs(n \<mapsto> v))"
    by (auto simp: Var_def proper_name_def)
  have "define_flags defs (fs(n \<mapsto> v)) = Return (fs(n \<mapsto> v) ++ map_of defs)"
    using Cons.prems d by (intro Cons.IH) (force split: if_splits)+
  moreover have "fs(n \<mapsto> v) ++ map_of defs = fs ++ map_of ((n, v) # defs)"
    using Cons.prems d by (simp add: map_add_upd_left dom_map_of_conv_image_fst)
  ultimately show ?case
    using d v by (metis bind_outcome.simps(1) define_flags.simps(2))
qed simp

lemma main_vars_names: "distinct (map fst main_vars)" "list_all proper_name (map fst main_vars)"
  by (simp_all add: main_vars_def proper_name_def)

definition main_formal :: "(string \<times> FlagValue) list \<Rightarrow> formal" where
  \<comment> \<open>the flags when the command line is parsed for the first time\<close>
  "main_formal klog =
     snd (flag_Set ''logtostdout'' ''false'' (snd (flag_Set ''logtostderr'' ''false'' (map_of main_vars ++ map_of klog))))"

lemma main_flags_eq:
  assumes "klog_apart klog"
  shows "main_flags klog args = Parse (main_formal klog) args"
proof -
  have "define_flags main_vars Map.empty = Return (map_of main_vars)"
    using define_flags_distinct [OF main_vars_names, of Map.empty] by simp
  moreover have "define_flags klog (map_of main_vars) = Return (map_of main_vars ++ map_of klog)"
    using assms by (intro define_flags_distinct) (auto simp: klog_apart_def list_all_iff dom_map_of_conv_image_fst)
  ultimately show ?thesis
    by (simp add: main_flags_def main_formal_def split_beta)
qed

section \<open>The command line sets the variables\<close>

fun same_kind :: "FlagValue \<Rightarrow> FlagValue \<Rightarrow> bool" where
  "same_kind (StringValue s) (StringValue t) = True"
| "same_kind (BoolValue s) (BoolValue t) = True"
| "same_kind v w = False"

definition main_typed :: "formal \<Rightarrow> bool" where
  \<comment> \<open>the flags of \<open>main\<close> are defined, each with the type of its variable\<close>
  "main_typed fs \<longleftrightarrow> list_all (\<lambda>(n, v). case fs n of None \<Rightarrow> False | Some v' \<Rightarrow> same_kind v v') main_vars"

lemma same_kind_set: "set_value v s = Some v' \<Longrightarrow> same_kind w v \<Longrightarrow> same_kind w v'"
  by (cases w; cases v) auto

lemma main_typed_apply: "main_typed fs \<Longrightarrow> main_typed (apply_setting st fs)"
  by (fastforce simp: main_typed_def apply_setting_def flag_Set_def list_all_iff
      intro: same_kind_set split: option.splits if_splits)

lemma main_formal_lookup:
  assumes "klog_apart klog" and "n \<in> set (map fst main_vars)"
  shows "main_formal klog n = map_of main_vars n"
proof -
  have "map_of klog n = None"
    using assms by (force simp: klog_apart_def list_all_iff map_of_eq_None_iff)
  moreover have "n \<noteq> ''logtostderr''" "n \<noteq> ''logtostdout''"
    using assms(2) by (auto simp: main_vars_def)
  ultimately show ?thesis
    by (simp add: main_formal_def flag_Set_def map_add_def split: option.split)
qed

lemma main_formal_typed: "klog_apart klog \<Longrightarrow> main_typed (main_formal klog)"
  by (simp add: main_typed_def main_vars_def main_formal_lookup)

lemma flags_of_main_formal: "klog_apart klog \<Longrightarrow> flags_of (main_formal klog) = default_flags"
  by (simp add: flags_of_def string_var_def bool_var_def main_formal_lookup default_flags_def main_vars_def)

lemma string_var_upd [simp]:
  "string_var (fs(n \<mapsto> v)) m = (if m = n then (case v of StringValue s \<Rightarrow> s | _ \<Rightarrow> []) else string_var fs m)"
  "bool_var (fs(n \<mapsto> v)) m = (if m = n then (case v of BoolValue b \<Rightarrow> b | _ \<Rightarrow> False) else bool_var fs m)"
  by (simp_all add: string_var_def bool_var_def)

lemma flags_of_string:
  assumes "(n, StringValue old) \<in> set main_vars"
  shows "flags_of (fs(n \<mapsto> StringValue s)) = set_flag n s (flags_of fs)"
proof -
  have "n \<in> {''key'', ''cert'', ''cacert'', ''zms-url'', ''update-cron'', ''athenz-contact-time-cm-ns'',
      ''athenz-contact-time-cm-name'', ''athenz-contact-time-cm-key'', ''resync-cron'', ''queue-delay-interval'',
      ''admin-domain'', ''system-namespaces'', ''log-location'', ''log-mode'', ''identity-key'', ''service-name'',
      ''service-domain'', ''secret-name'', ''auth-header'', ''ntoken-expiry'', ''exclude-namespaces''}"
    using assms unfolding main_vars_def by auto
  then show ?thesis
    by (elim insertE emptyE; simp add: flags_of_def set_flag_def)
qed

lemma flags_of_bool:
  assumes "(n, BoolValue old) \<in> set main_vars" and "ParseBool s = Some b"
  shows "flags_of (fs(n \<mapsto> BoolValue b)) = set_flag n s (flags_of fs)"
proof -
  have "n \<in> {''disable-keep-alives'', ''use-ntoken'', ''exclude-msd-rules''}"
    using assms(1) unfolding main_vars_def by auto
  then show ?thesis
    using assms(2) by (elim insertE emptyE; simp add: flags_of_def set_flag_def is_true_def)
qed

lemma flags_of_other:
  assumes "n \<notin> set (map fst main_vars)"
  shows "flags_of (fs(n \<mapsto> v)) = flags_of fs" "set_flag n s fl = fl"
proof -
  have "(n = m) = False \<and> (m = n) = False" if "list_ex (\<lambda>(k, v). k = m) main_vars" for m
    using assms that by (force simp: list_ex_iff)
  then have ne: "\<And>m. list_ex (\<lambda>(k, v). k = m) main_vars \<Longrightarrow> (n = m) = False"
    "\<And>m. list_ex (\<lambda>(k, v). k = m) main_vars \<Longrightarrow> (m = n) = False" by blast+
  note ne = ne [unfolded main_vars_def list_ex_Nil_iff list_ex_Cons_iff prod.case]
  show "flags_of (fs(n \<mapsto> v)) = flags_of fs" "set_flag n s fl = fl"
    by (simp_all add: flags_of_def set_flag_def ne)
qed

lemma flags_of_setting:
  assumes "main_typed fs" and "fits fs st"
  shows "flags_of (apply_setting st fs) = set_flag (flagName st) (flagText st) (flags_of fs)"
proof -
  obtain n s where st: "flagName st = n" "flagText st = s" by blast
  obtain v v' where v: "fs n = Some v" "set_value v s = Some v'" "apply_setting st fs = fs(n \<mapsto> v')"
    using assms(2) st by (auto simp: fits_def apply_setting_def flag_Set_def split: option.splits)
  show ?thesis
  proof (cases "n \<in> set (map fst main_vars)")
    case True
    then obtain w where w: "(n, w) \<in> set main_vars" by auto
    then have "same_kind w v"
      using assms(1) v by (auto simp: main_typed_def list_all_iff split: option.splits)
    with w st v show ?thesis
      by (cases v; cases w) (auto simp: flags_of_string flags_of_bool)
  qed (use st v flags_of_other in simp)
qed

lemma flags_of_settings:
  assumes "main_typed fs" and "list_all (fits fs) sts"
  shows "flags_of (fold apply_setting sts fs) = fold (\<lambda>st. set_flag (flagName st) (flagText st)) sts (flags_of fs)"
  using assms
proof (induction sts arbitrary: fs)
  case (Cons st sts)
  then show ?case by (simp add: flags_of_setting main_typed_apply)
qed simp

lemma late_flags_undefined:
  assumes "klog_apart klog" and "n = ''inClusterConfig'' \<or> n = ''kubeconfig''"
  shows "main_formal klog n = None"
proof -
  have "map_of klog n = None"
    using assms by (force simp: klog_apart_def list_all_iff map_of_eq_None_iff)
  moreover have "map_of main_vars n = None"
    using assms(2) by (elim disjE) (simp_all add: main_vars_def)
  moreover have "n \<noteq> ''logtostderr''" "n \<noteq> ''logtostdout''"
    using assms(2) by auto
  ultimately show ?thesis
    by (simp add: main_formal_def flag_Set_def map_add_def split: option.split)
qed

lemma main_flags_again:
  assumes "klog_apart klog" and "main_flags klog args = Running fs" and "n = ''inClusterConfig'' \<or> n = ''kubeconfig''"
  shows "fs n = None \<and> Parse (fs(n \<mapsto> v)) args = Running (fs(n \<mapsto> v))"
proof -
  note none = late_flags_undefined [OF assms(1,3)]
  have p: "Parse (main_formal klog) args = Running fs"
    using assms(2) by (simp add: main_flags_eq [OF assms(1)])
  then obtain sts where "fs = fold apply_setting sts (main_formal klog)"
    unfolding Parse_iff by blast
  with none Parse_again [OF p none] show ?thesis by simp
qed

lemma given_settings:
  assumes "klog_apart klog" and "list_all (fits (main_formal klog)) sts"
  shows "flags_of (fold apply_setting sts (main_formal klog)) = given_flags sts"
  using flags_of_settings [OF main_formal_typed [OF assms(1)] assms(2)]
  by (simp add: given_flags_def flags_of_main_formal [OF assms(1)])

lemma settings_given:
  assumes "klog_apart klog" and "main_flags klog args = Running fs"
  shows "\<exists>sts rest. args = command_line sts @ rest \<and> list_all (fits (main_formal klog)) sts \<and> ends_flags rest \<and>
    flags_of fs = given_flags sts"
proof -
  obtain sts rest where "args = command_line sts @ rest" "list_all (fits (main_formal klog)) sts" "ends_flags rest"
      "fs = fold apply_setting sts (main_formal klog)"
    using assms(2) by (auto simp: main_flags_eq [OF assms(1)] Parse_iff)
  then show ?thesis
    using given_settings [OF assms(1)] by blast
qed

section \<open>Properties\<close>

text \<open>
  C14.  The command line and the configuration correspond: \<^verbatim>\<open>main\<close> gets past its flags exactly on the
  command lines that are a list of settings of defined flags, each written with one or two dashes and
  in a form that its flag takes, followed by nothing, by an argument that is not a flag or by two
  dashes; and then its variables have the documented defaults, changed by these settings in their
  order.
\<close>

theorem command_line_sets_flags:
  assumes "klog_apart klog"
  shows "(\<exists>fs. main_flags klog args = Running fs \<and> flags_of fs = fl) \<longleftrightarrow>
    (\<exists>sts rest. args = command_line sts @ rest \<and> list_all (fits (main_formal klog)) sts \<and> ends_flags rest \<and>
       fl = given_flags sts)"
  using settings_given [OF assms] given_settings [OF assms]
  by (fastforce simp: main_flags_eq [OF assms] Parse_settings)

text \<open>Flags of \<^verbatim>\<open>klog\<close>; those that are neither boolean nor take any text read a number.\<close>

definition demo_klog :: "(string \<times> FlagValue) list" where
  "demo_klog =
     [(''log_dir'', OtherValue False (\<lambda>s. True) []), (''log_file'', OtherValue False (\<lambda>s. True) []),
      (''logtostderr'', OtherValue True (\<lambda>s. ParseBool s \<noteq> None) ''true''),
      (''alsologtostderr'', OtherValue True (\<lambda>s. ParseBool s \<noteq> None) ''false''),
      (''v'', OtherValue False (list_all (\<lambda>c. c \<in> set ''0123456789'')) ''0''),
      (''vmodule'', OtherValue False (\<lambda>s. True) [])]"

lemma demo_klog_apart: "klog_apart demo_klog"
  by (simp add: klog_apart_def demo_klog_def main_vars_def proper_name_def)

definition demo_settings :: "setting list" where
  "demo_settings =
     [\<lparr>form = Joined, two_dashes = True, flagName = ''zms-url'', flagText = ''https://zms/v1''\<rparr>,
      \<lparr>form = Bare, two_dashes = False, flagName = ''use-ntoken'', flagText = ''true''\<rparr>,
      \<lparr>form = Apart, two_dashes = False, flagName = ''admin-domain'', flagText = ''k8s.admin''\<rparr>]"

lemma demo_settings_fit: "list_all (fits (main_formal demo_klog)) demo_settings"
  by (simp add: demo_settings_def fits_def form_fits_def proper_name_def main_formal_lookup [OF demo_klog_apart]
      main_vars_def ParseBool_def)

lemma command_line_sets_flags_witness:
  "\<exists>fs. main_flags demo_klog [''--zms-url=https://zms/v1'', ''-use-ntoken'', ''-admin-domain'', ''k8s.admin'', ''--'', ''x''] =
     Running fs \<and>
   flags_of fs = default_flags\<lparr>zmsURL := ''https://zms/v1'', useNToken := True, adminDomainFlag := ''k8s.admin''\<rparr>"
proof -
  have c: "[''--zms-url=https://zms/v1'', ''-use-ntoken'', ''-admin-domain'', ''k8s.admin'', ''--'', ''x''] =
      command_line demo_settings @ [''--'', ''x'']"
    by (simp add: demo_settings_def spell_def dashes_def)
  have g: "given_flags demo_settings =
      default_flags\<lparr>zmsURL := ''https://zms/v1'', useNToken := True, adminDomainFlag := ''k8s.admin''\<rparr>"
    by (simp add: given_flags_def demo_settings_def set_flag_def is_true_def ParseBool_def)
  have "ends_flags [''--'', ''x'']"
    by (simp add: ends_flags_def)
  then show ?thesis
    using command_line_sets_flags [OF demo_klog_apart] c g demo_settings_fit by metis
qed

text \<open>
  C15.  The flags \<^verbatim>\<open>inClusterConfig\<close> and \<^verbatim>\<open>kubeconfig\<close>, which the README documents, cannot be
  given: they are defined only after the command line has been parsed, so one that mentions them,
  in any form and after any other settings, ends the process with exit code two.
\<close>

theorem documented_flags_exit:
  assumes "klog_apart klog" and "list_all (fits (main_formal klog)) sts"
    and "flagName st = ''inClusterConfig'' \<or> flagName st = ''kubeconfig''"
  shows "main_flags klog (command_line sts @ spell st @ rest) = Exited 2"
  using assms undefined_flag_exits [OF assms(2) _ late_flags_undefined [OF assms(1,3)]]
  by (auto simp: main_flags_eq proper_name_def)

lemma documented_flags_exit_witness:
  "main_flags demo_klog [''--inClusterConfig=false'', ''--kubeconfig=/root/.kube/config''] = Exited 2"
  using documented_flags_exit [OF demo_klog_apart, of "[]"
      "\<lparr>form = Joined, two_dashes = True, flagName = ''inClusterConfig'', flagText = ''false''\<rparr>"
      "[''--kubeconfig=/root/.kube/config'']"]
  by (simp add: spell_def dashes_def)

end
