(* ===== verification/Startup.thy ===== *)
theory Startup
  imports Controller Identity Reloader Logging Informers Go_Duration Command_Line
begin

text \<open>
  The start of the program: \<^verbatim>\<open>main.go\<close>, which reads the command line, creates the clients
  and the authentication to ZMS, and puts the controller together, and
  \<^verbatim>\<open>NewController\<close>.  What comes from outside the repository (the Kubernetes client
  library, the environment variables, the file system, the
  token library) is a record of functions.
\<close>

section \<open>The controller object\<close>

record ('h, 'i) CRUtil =
  crClient :: "'h AthenzV1Client option"
  CrIndexInformer :: 'i

definition NewCRUtil :: "('h, 'd) Clientset option \<Rightarrow> 'i \<Rightarrow> ('h, 'i) CRUtil outcome" where
  "NewCRUtil cs crIndexInformer =
     bind_outcome (AthenzV1 cs) (\<lambda>v1. Return \<lparr>crClient = v1, CrIndexInformer = crIndexInformer\<rparr>)"

text \<open>
  The cache library: an informer of all namespaces, the registration of handlers and of index
  functions with an informer, and the two key functions.
\<close>

record ('w, 'x, 'i, 'j) controller_lib =
  informerLib :: "('w, 'x, 'i) informer_lib"
  NewNamespaceInformer :: "string \<Rightarrow> int \<Rightarrow> 'j" \<comment> \<open>of a resource in all namespaces, with a resync period\<close>
  AddNsEventHandler :: "('x event \<Rightarrow> 'w \<Rightarrow> 'w) \<Rightarrow> 'j \<Rightarrow> 'j"
  AddCrEventHandler :: "('x event \<Rightarrow> 'w \<Rightarrow> 'w) \<Rightarrow> 'i \<Rightarrow> 'i"
  AddCrIndexers :: "(string \<Rightarrow> ('x obj \<Rightarrow> (string list \<times> err option) outcome) option) \<Rightarrow> 'i \<Rightarrow> 'i"
  MetaNamespaceKeyFunc :: "'x keyFunc"
  DeletionHandlingKeyFunc :: "'x keyFunc"

record ('h, 'i, 'j) Controller =
  nsIndexInformer :: 'j
  ctlUtil :: Util
  ctlLimiter :: RateLimiter \<comment> \<open>of the queue\<close>
  ctlCR :: "('h, 'i) CRUtil"
  ctlCron :: Cron

definition NewController ::
    "('w, 'x, 'i, 'j) controller_lib \<Rightarrow> ('w, 'x) env \<Rightarrow> ('h, 'd) Clientset option \<Rightarrow> int \<Rightarrow> int \<Rightarrow> int \<Rightarrow> int \<Rightarrow>
      Util \<Rightarrow> AthenzContactTimeConfigMap \<Rightarrow> ('h, 'i, 'j) Controller outcome" where
  \<comment> \<open>\<open>now\<close> is the clock when the rate limiter of the queue is created; the client of the informer and
      the queue of the handlers are those of the environment \<open>E\<close>\<close>
  "NewController K E cs now updateCron resyncCron delay u cm =
     (let keyf = MetaNamespaceKeyFunc K; delf = DeletionHandlingKeyFunc K;
          nsInformer = NewNamespaceInformer K ''namespaces'' (3600 * 10 ^ 9);
          limiter = NewRateLimiter now delay;
          nsInformer = AddNsEventHandler K (ns_handler E u keyf delf) nsInformer;
          crInformer = NewAthenzDomainInformer (informerLib K) E 0 Map.empty;
          crInformer = AddCrEventHandler K (cr_handler E keyf delf) crInformer;
          crInformer = AddCrIndexers K (Map.empty(trustDomainIndexKey \<mapsto> TrustDomainIndexFunc)) crInformer
      in bind_outcome (NewCRUtil cs crInformer) (\<lambda>cr.
         Return \<lparr>nsIndexInformer = nsInformer, ctlUtil = u, ctlLimiter = limiter, ctlCR = cr,
                 ctlCron = NewCron updateCron resyncCron [] cm\<rparr>))"

section \<open>Lists in the flags\<close>

fun processList :: "string list \<Rightarrow> string list \<Rightarrow> string list" where
  \<comment> \<open>the loop over the system namespaces\<close>
  "processList [] acc = acc"
| "processList (item # rest) acc = processList rest (if item \<noteq> [] then acc @ [item] else acc)"

fun exclusionList :: "string list \<Rightarrow> string list \<Rightarrow> string list" where
  \<comment> \<open>the loop over the excluded namespaces, which trims blanks\<close>
  "exclusionList [] acc = acc"
| "exclusionList (raw # rest) acc =
     (let item = TrimSpace raw in exclusionList rest (if item \<noteq> [] then acc @ [item] else acc))"

definition main_util :: "Flags \<Rightarrow> Util" where
  "main_util fl =
     (let systemNSList = Split (systemNamespacesFlag fl) CHR '','';
          excludeNSList = Split (excludeNamespacesFlag fl) CHR '',''
      in NewUtil (adminDomainFlag fl) (processList systemNSList []) (exclusionList excludeNSList [])
           (excludeMSDRulesFlag fl))"

section \<open>The clients\<close>

record ('l, 'n, 'h, 'd) kube_lib =
  getenv :: "string \<Rightarrow> string"
  BuildConfigFromFlags :: "string \<Rightarrow> err + ('l, 'n) rest_config"
  kubernetes_NewForConfig :: "('l, 'n) rest_config \<Rightarrow> err option"
  clientLib :: "('l, 'n, 'h, 'd) client_lib"

definition getClients ::
    "('l, 'n, 'h, 'd) kube_lib \<Rightarrow> string list \<Rightarrow> formal \<Rightarrow> (formal \<times> (err + ('h, 'd) Clientset)) run" where
  \<comment> \<open>of the two clients that are made, the one for the custom resources is returned; the flags
      with one more are part of the result, and the argument of the Go function points to the flag
      \<open>inClusterConfig\<close>\<close>
  "getClients K args fs =
     (let home = HomeDir (getenv K);
          def = (if home \<noteq> [] then Clean (home @ ''/.kube/config'') else [])
      in bind_run (run_of (Var ''kubeconfig'' (StringValue def) fs)) (\<lambda>fs.
         bind_run (Parse fs args) (\<lambda>fs.
         let kubeconfig = string_var fs ''kubeconfig'';
             kubeconfig = (if bool_var fs ''inClusterConfig'' then [] else kubeconfig)
         in case BuildConfigFromFlags K kubeconfig of
              Inl e \<Rightarrow> Crashed (LogPanic ''BuildConfigFromFlags'')
            | Inr cfg \<Rightarrow>
                (case kubernetes_NewForConfig K cfg of
                   Some e \<Rightarrow> Running (fs, Inl (Wrapped ''Failed to create k8s client from config. Error'' e))
                 | None \<Rightarrow>
                     bind_run (run_of (NewForConfig (clientLib K) (Some cfg))) (\<lambda>r.
                       case r of
                         Inl e \<Rightarrow> Running (fs, Inl (Wrapped ''Failed to create versiond client from config. Error'' e))
                       | Inr cs \<Rightarrow> Running (fs, Inr cs))))))"

record 'c transport =
  getClientCertificate :: "'c CertReloader \<Rightarrow> 'c option" \<comment> \<open>called at each handshake\<close>
  rootCAs :: "string option" \<comment> \<open>the bytes of the pool; the system pool if not set\<close>
  keepAlivesDisabled :: bool

record 'c zms_client =
  clientURL :: string
  clientTransport :: "'c transport option" \<comment> \<open>the default transport if nil\<close>

definition createZMSClient ::
    "('w, 'c) filesystem \<Rightarrow> 'w \<Rightarrow> string \<Rightarrow> string \<Rightarrow> bool \<Rightarrow> err + 'c zms_client" where
  "createZMSClient F w url caCert disable =
     (let transport = \<lparr>getClientCertificate = GetLatestCertificate, rootCAs = None, keepAlivesDisabled = disable\<rparr>
      in if caCert \<noteq> []
         then (case ReadFile F w caCert of
                 Inl e \<Rightarrow> Inl e
               | Inr c \<Rightarrow> Inr \<lparr>clientURL = url, clientTransport = Some (transport\<lparr>rootCAs := Some c\<rparr>)\<rparr>)
         else Inr \<lparr>clientURL = url, clientTransport = Some transport\<rparr>)"

section \<open>The start\<close>

record ('lv, 'lw, 'la, 'l, 'n, 'h, 'd, 'w, 'c, 'v, 'r, 'e, 'q, 'x, 'i, 'j) main_env =
  klogFlags :: "(string \<times> FlagValue) list" \<comment> \<open>what \<open>klog.InitFlags\<close> defines\<close>
  logLib :: "('lv, 'lw, 'la) log_lib"
  logWorld :: 'lw
  kubeLib :: "('l, 'n, 'h, 'd) kube_lib"
  floatScale :: scaling \<comment> \<open>the floating point arithmetic of \<open>time.ParseDuration\<close>\<close>
  diskLib :: "('w, 'c) filesystem"
  disk :: 'w
  fsnotifyErr :: "err option"
  fsnotifyAdd :: "string \<Rightarrow> err option"
  tokenEnv :: "PrivateKeySource \<Rightarrow> ('v, 'r, 'e) token_env"
  tokenWorld :: 'v
  startTime :: int
  controllerLib :: "('q, 'x, 'i, 'j) controller_lib"
  controllerEnv :: "('q, 'x) env"

text \<open>
  The authentication that the start leaves behind, with what its goroutines run on: the client, the key
  source, the provider, the interval of its refresh loop and the world after the first call; or the
  client, the reloader and its file watcher.
\<close>

datatype ('c, 'v) auth =
    NToken "'c zms_client" PrivateKeySource TokenProvider int 'v
  | Certs "'c zms_client" "'c CertReloader" watcher

definition duration where
  \<comment> \<open>parse a duration or panic with a message\<close>
  "duration M msg s = (case ParseDuration (floatScale M) s of Inl e \<Rightarrow> Panic (LogPanic msg) | Inr d \<Rightarrow> Return d)"

definition main_log :: "('lv, 'lw, 'la) log_lib \<Rightarrow> Flags \<Rightarrow> 'lw \<Rightarrow> 'lv Logger option \<times> 'lw" where
  \<comment> \<open>the first thing after the flags are read\<close>
  "main_log L fl w = InitLogger L (logLoc fl) (logMode fl) w"

definition main_auth where
  "main_auth M fl =
     (if useNToken fl
      then let client = \<lparr>clientURL = zmsURL fl, clientTransport = None\<rparr> in
           bind_outcome (duration M ''NToken expiry duration input is invalid'' (nTokenExpireTime fl)) (\<lambda>period.
           let pks = NewPrivateKeySource (identityKeyDir fl) (secretNameFlag fl);
               cfg = \<lparr>Header = authHeader fl, Domain = serviceDomain fl, Service = serviceName fl,
                      TokenExpiry = period\<rparr>
           in case NewTokenProvider (tokenEnv M pks) cfg (tokenWorld M) of
                (Inl e, v) \<Rightarrow> Panic (LogPanic ''Could not create new Token Provider'')
              | (Inr (tp, interval), v) \<Rightarrow> Return (NToken client pks tp interval v))
      else case NewCertReloader (diskLib M) (fsnotifyErr M) (fsnotifyAdd M)
                  \<lparr>CertFile = certFlag fl, KeyFile = keyFlag fl\<rparr> zeroTime (disk M, disk M, disk M, disk M) of
             (r, Some e, _) \<Rightarrow> Panic (LogPanic ''Error occurred when creating new reloader'')
           | (None, None, _) \<Rightarrow> Panic NilDereference
           | (Some r, None, wt) \<Rightarrow>
               (case createZMSClient (diskLib M) (disk M) (zmsURL fl) (caCertFlag fl) (disableKeepAlives fl) of
                  Inl e \<Rightarrow> Panic (LogPanic ''Error occurred when creating zms client'')
                | Inr client \<Rightarrow> Return (Certs client r wt)))"

definition main_controller where
  \<comment> \<open>the second half of the start, with the clients at hand\<close>
  "main_controller M fl cs =
     bind_outcome (main_auth M fl) (\<lambda>auth.
     let u = main_util fl in
     bind_outcome (duration M ''Update Cron interval input is invalid'' (updateCronFlag fl)) (\<lambda>upd.
     bind_outcome (duration M ''Full Resync Cron interval input is invalid'' (resyncCronFlag fl)) (\<lambda>res.
     bind_outcome (duration M ''Queue delay input is invalid'' (queueDelayInterval fl)) (\<lambda>delay.
     bind_outcome (NewController (controllerLib M) (controllerEnv M) (Some cs) (startTime M) upd res delay u
       (contactCm fl)) (\<lambda>ctl.
     Return (auth, ctl))))))"

definition main_setup where
  \<comment> \<open>\<open>main\<close> up to the start of the controller, on the arguments of the command line\<close>
  "main_setup M args =
     bind_run (main_flags (klogFlags M) args) (\<lambda>fs.
     let (logger, lw) = main_log (logLib M) (flags_of fs) (logWorld M) in
     bind_run (run_of (Var ''inClusterConfig'' (BoolValue True) fs)) (\<lambda>fs.
     bind_run (getClients (kubeLib M) args fs) (\<lambda>(fs, cl).
       case cl of
         Inl e \<Rightarrow> Crashed (LogPanic ''Error occurred when creating clients'')
       | Inr cs \<Rightarrow>
           bind_run (run_of (main_controller M (flags_of fs) cs)) (\<lambda>(auth, ctl).
           Running (logger, cs, auth, ctl)))))"

section \<open>The lists\<close>

lemma processList_eq: "processList xs acc = acc @ filter (\<lambda>i. i \<noteq> []) xs"
  by (induction xs acc rule: processList.induct) auto

lemma exclusionList_eq: "exclusionList xs acc = acc @ filter (\<lambda>i. i \<noteq> []) (map TrimSpace xs)"
  by (induction xs acc rule: exclusionList.induct) (auto simp: Let_def)

lemma main_util_simps:
  "adminDomain (main_util fl) = adminDomainFlag fl"
  "systemNamespaces (main_util fl) = filter (\<lambda>i. i \<noteq> []) (Split (systemNamespacesFlag fl) CHR '','')"
  "excludeMSDRules (main_util fl) = excludeMSDRulesFlag fl"
  by (simp_all add: main_util_def processList_eq Let_def)

section \<open>The authentication\<close>

lemma quot_small: "d < 10 \<Longrightarrow> quot d refreshIntervalFactor \<le> 0"
  by (cases "d < 0") (auto simp: quot_def refreshIntervalFactor_def div_nonneg_neg_le0 sgn_if)

text \<open>What the flags ask for.\<close>

definition token_client :: "Flags \<Rightarrow> 'c zms_client \<Rightarrow> PrivateKeySource \<Rightarrow> Config \<Rightarrow> int \<Rightarrow> bool" where
  \<comment> \<open>\<open>d\<close> is the parsed expiry; zero stands for an hour\<close>
  "token_client fl client pks cfg d \<longleftrightarrow>
     client = \<lparr>clientURL = zmsURL fl, clientTransport = None\<rparr> \<and>
     pks = NewPrivateKeySource (identityKeyDir fl) (secretNameFlag fl) \<and>
     cfg = \<lparr>Header = authHeader fl, Domain = serviceDomain fl, Service = serviceName fl,
            TokenExpiry = (if d = 0 then 3600 * 10 ^ 9 else d)\<rparr>"

definition certs_client :: "('w, 'c) filesystem \<Rightarrow> 'w \<Rightarrow> Flags \<Rightarrow> 'c zms_client \<Rightarrow> bool" where
  "certs_client F w fl client \<longleftrightarrow>
     clientURL client = zmsURL fl \<and>
     (\<exists>t. clientTransport client = Some t \<and> getClientCertificate t = GetLatestCertificate \<and>
        keepAlivesDisabled t = disableKeepAlives fl \<and>
        (if caCertFlag fl = [] then rootCAs t = None else map_sum id Some (ReadFile F w (caCertFlag fl)) = Inr (rootCAs t)))"

definition loads_pair :: "('w, 'c) filesystem \<Rightarrow> 'w \<Rightarrow> Flags \<Rightarrow> 'c CertReloader \<Rightarrow> bool" where
  \<comment> \<open>the reloader is idle, for the files of the flags, and has the pair that they hold\<close>
  "loads_pair F w fl r \<longleftrightarrow>
     certFile r = certFlag fl \<and> keyFile r = keyFlag fl \<and> \<not> cond r \<and>
     (\<exists>t. os_Stat F w (certFlag fl) = Inr t \<and>
        (zeroTime < t \<longrightarrow> mtime r = t \<and>
           (\<exists>c. GetLatestCertificate r = Some c \<and>
              pair_on_disk F w (certFlag fl) (keyFlag fl) c (certPEM r) (keyPEM r))))"

definition authenticates where
  "authenticates M fl auth \<longleftrightarrow>
     (case auth of
        NToken client pks tp interval v \<Rightarrow>
          useNToken fl \<and> (\<exists>d. ParseDuration (floatScale M) (nTokenExpireTime fl) = Inr d \<and>
            token_client fl client pks (config tp) d \<and>
            interval = quot (TokenExpiry (config tp)) refreshIntervalFactor)
      | Certs client r wt \<Rightarrow>
          \<not> useNToken fl \<and> certs_client (diskLib M) (disk M) fl client \<and> loads_pair (diskLib M) (disk M) fl r \<and>
          Run None (fsnotifyAdd M) (NewWatcher [certFlag fl, keyFlag fl]) = (None, wt))"

lemma duration_Return: "duration M msg s = Return d \<Longrightarrow> ParseDuration (floatScale M) s = Inr d"
  by (simp add: duration_def split: sum.splits)

lemma createZMSClient_certs:
  assumes "createZMSClient F w (zmsURL fl) (caCertFlag fl) (disableKeepAlives fl) = Inr client"
  shows "certs_client F w fl client"
  using assms by (auto simp: createZMSClient_def certs_client_def Let_def split: if_splits sum.splits)

lemma NewCertReloader_started:
  fixes F :: "('w, 'c) filesystem"
  assumes "NewCertReloader F err add \<lparr>CertFile = certFlag fl, KeyFile = keyFlag fl\<rparr> zeroTime (w, w, w, w) = (Some r, None, wt)"
  shows "loads_pair F w fl r \<and> err = None \<and> Run None add (NewWatcher [certFlag fl, keyFlag fl]) = (None, wt)"
proof -
  define r0 :: "'c CertReloader" where "r0 = \<lparr>certFile = certFlag fl, keyFile = keyFlag fl, cert = None, certPEM = [],
    keyPEM = [], mtime = zeroTime, cond = False\<rparr>"
  have run: "Run err add (NewWatcher [certFlag fl, keyFlag fl]) = (None, wt)" and m: "maybeReload F (w, w, w, w) r0 = (None, r)"
    using assms by (auto simp: NewCertReloader_def r0_def Let_def split: prod.splits option.splits)
  have "err = None"
    using run by (simp add: Run_def split: option.splits)
  moreover have "certFile r = certFlag fl" "keyFile r = keyFlag fl" "\<not> cond r"
    using maybeReload_files [of F "(w, w, w, w)" r0] unfolding m by (simp_all add: r0_def)
  moreover obtain t where "os_Stat F w (certFlag fl) = Inr t"
      "zeroTime < t \<longrightarrow> mtime r = t \<and> (\<exists>c. GetLatestCertificate r = Some c \<and>
         pair_on_disk F w (certFlag fl) (keyFlag fl) c (certPEM r) (keyPEM r))"
    using maybeReload_correct [OF m] by (auto simp: r0_def GetLatestKeyAndCert_def split: if_splits)
  ultimately show ?thesis
    using run by (simp add: loads_pair_def)
qed

lemma main_auth_authenticates:
  assumes "main_auth M fl = Return auth"
  shows "authenticates M fl auth"
proof (cases "useNToken fl")
  case True
  then obtain period where p:
    "duration M ''NToken expiry duration input is invalid'' (nTokenExpireTime fl) = Return period"
    using assms by (auto simp: main_auth_def)
  let ?pks = "NewPrivateKeySource (identityKeyDir fl) (secretNameFlag fl)"
  let ?cfg = "\<lparr>Header = authHeader fl, Domain = serviceDomain fl, Service = serviceName fl, TokenExpiry = period\<rparr>"
  obtain tp i v where tp: "NewTokenProvider (tokenEnv M ?pks) ?cfg (tokenWorld M) = (Inr (tp, i), v)"
      "auth = NToken \<lparr>clientURL = zmsURL fl, clientTransport = None\<rparr> ?pks tp i v"
    using assms True p by (auto simp: main_auth_def Let_def split: prod.splits sum.splits)
  with True duration_Return [OF p] NewTokenProvider_config [OF tp(1)] show ?thesis
    by (auto simp: authenticates_def token_client_def)
next
  case False
  then obtain client r wt where c: "auth = Certs client r wt"
      "NewCertReloader (diskLib M) (fsnotifyErr M) (fsnotifyAdd M) \<lparr>CertFile = certFlag fl, KeyFile = keyFlag fl\<rparr>
         zeroTime (disk M, disk M, disk M, disk M) = (Some r, None, wt)"
      "createZMSClient (diskLib M) (disk M) (zmsURL fl) (caCertFlag fl) (disableKeepAlives fl) = Inr client"
    using assms by (auto simp: main_auth_def split: prod.splits option.splits sum.splits)
  with False NewCertReloader_started [OF c(2)] createZMSClient_certs [OF c(3)] show ?thesis
    by (simp add: authenticates_def)
qed

lemma NewForConfig_client:
  assumes "NewForConfig L (Some cfg) = Return (Inr cs)"
  shows "\<exists>r. RESTClient (athenzV1 cs) = Some r"
  using assms
  by (auto simp: NewForConfig_def v1_NewForConfig_eq RESTClient_def map_sum_def Let_def
      split: if_splits sum.splits)

lemma getClients_in_cluster:
  assumes "getClients K args fs = Running (fs', Inr cs)" and "Parse fs args = Running fs"
    and "bool_var fs ''inClusterConfig''"
  shows "(\<exists>cfg. BuildConfigFromFlags K [] = Inr cfg \<and> NewForConfig (clientLib K) (Some cfg) = Return (Inr cs)) \<and>
    flags_of fs' = flags_of fs"
proof -
  define def where "def = (if HomeDir (getenv K) \<noteq> [] then Clean (HomeDir (getenv K) @ ''/.kube/config'') else [])"
  have v: "Var ''kubeconfig'' (StringValue def) fs = Return (fs(''kubeconfig'' \<mapsto> StringValue def))"
      "fs ''kubeconfig'' = None"
    using assms(1) by (auto simp: getClients_def def_def Let_def Var_def split: if_splits)
  have p: "Parse (fs(''kubeconfig'' \<mapsto> StringValue def)) args = Running (fs(''kubeconfig'' \<mapsto> StringValue def))"
    using Parse_again [OF assms(2) v(2)] .
  have "flags_of (fs(''kubeconfig'' \<mapsto> StringValue def)) = flags_of fs"
    by (rule flags_of_other) (simp add: main_vars_def)
  with assms(1,3) v(1) p show ?thesis
    by (auto simp: getClients_def def_def [symmetric] Let_def split: sum.splits option.splits; metis sum.exhaust)
qed

lemma main_setup_Running:
  assumes "klog_apart (klogFlags M)" and "main_setup M args = Running (logger, cs, auth, ctl)"
  obtains fs cfg where "main_flags (klogFlags M) args = Running fs"
    "fst (main_log (logLib M) (flags_of fs) (logWorld M)) = logger"
    "BuildConfigFromFlags (kubeLib M) [] = Inr cfg" "NewForConfig (clientLib (kubeLib M)) (Some cfg) = Return (Inr cs)"
    "main_controller M (flags_of fs) cs = Return (auth, ctl)"
proof -
  let ?in = "\<lambda>fs. fs(''inClusterConfig'' \<mapsto> BoolValue True)"
  obtain fs where fs: "main_flags (klogFlags M) args = Running fs"
    using assms(2) by (auto simp: main_setup_def)
  obtain lg lw where lg: "main_log (logLib M) (flags_of fs) (logWorld M) = (lg, lw)" by fastforce
  note late = main_flags_again [OF assms(1) fs, of "''inClusterConfig''"]
  obtain fs' cl where g: "getClients (kubeLib M) args (?in fs) = Running (fs', cl)"
    using assms(2) fs lg late by (auto simp: main_setup_def Var_def)
  then have f: "lg = logger" "cl = Inr cs" "main_controller M (flags_of fs') cs = Return (auth, ctl)"
    using assms(2) fs lg late by (cases cl; auto simp: main_setup_def Var_def)+
  have "Parse (?in fs) args = Running (?in fs)"
    using late by blast
  moreover have "flags_of (?in fs) = flags_of fs"
    by (rule flags_of_other) (simp add: main_vars_def)
  ultimately show ?thesis
    using getClients_in_cluster [OF g [unfolded f(2)]] fs lg f that by (auto simp: bool_var_def)
qed

lemma main_setup_starts:
  assumes "klog_apart (klogFlags M)" and "main_flags (klogFlags M) args = Running fs"
    and "BuildConfigFromFlags (kubeLib M) [] = Inr cfg" and "kubernetes_NewForConfig (kubeLib M) cfg = None"
    and "NewForConfig (clientLib (kubeLib M)) (Some cfg) = Return (Inr cs)"
    and "main_controller M (flags_of fs) cs = Return (auth, ctl)"
  shows "main_setup M args = Running (fst (main_log (logLib M) (flags_of fs) (logWorld M)), cs, auth, ctl)"
proof -
  let ?in = "fs(''inClusterConfig'' \<mapsto> BoolValue True)"
  have late: "fs ''inClusterConfig'' = None" "fs ''kubeconfig'' = None"
    using main_flags_again [OF assms(1,2)] by blast+
  have p: "Parse ?in args = Running ?in"
    using main_flags_again [OF assms(1,2)] by blast
  have q: "Parse (?in(''kubeconfig'' \<mapsto> v)) args = Running (?in(''kubeconfig'' \<mapsto> v))" for v
    using Parse_again [OF p, of "''kubeconfig''"] late by simp
  have "flags_of (?in(''kubeconfig'' \<mapsto> v)) = flags_of fs" for v
    by (simp add: flags_of_other main_vars_def)
  with assms(2-6) late q show ?thesis
    by (simp add: main_setup_def getClients_def Var_def Let_def split_beta bool_var_def)
qed

section \<open>Properties\<close>

text \<open>
  The namespaces that are excluded are the non-empty items of the comma-separated flag with
  the blanks around them removed; the system namespaces are the non-empty items of their flag as
  they stand, blanks included.
\<close>

theorem flag_lists_read:
  "(IsNamespaceExcluded (main_util fl) ns \<longleftrightarrow>
      ns \<noteq> [] \<and> ns \<in> TrimSpace ` set (Split (excludeNamespacesFlag fl) CHR '','')) \<and>
   (isSystemNamespace (main_util fl) ns \<longleftrightarrow>
      ns \<noteq> [] \<and> ns \<in> set (Split (systemNamespacesFlag fl) CHR '',''))"
proof -
  have "IsNamespaceExcluded (main_util fl) ns \<longleftrightarrow>
      ns \<in> set (exclusionList (Split (excludeNamespacesFlag fl) CHR '','') [])"
    by (simp add: main_util_def IsNamespaceExcluded_NewUtil Let_def)
  then show ?thesis
    by (auto simp: exclusionList_eq main_util_simps)
qed

text \<open>
  A token expiry below ten nanoseconds, in particular a negative one, is accepted by the start; but
  the refresh loop that is then running panics at once, since its interval is not positive.
\<close>

theorem small_expiry_panics:
  fixes fl :: Flags
  assumes "main_auth M fl = Return (NToken client pks tp interval v)"
    and "ParseDuration (floatScale M) (nTokenExpireTime fl) = Inr d" and "d < 10" and "d \<noteq> 0"
  shows "refreshLoop T interval es s = Panic (LogPanic ''non-positive interval for NewTicker'')"
  using main_auth_authenticates [OF assms(1)] assms(2-4)
  by (auto simp: authenticates_def token_client_def refreshLoop_def quot_small)

lemma main_controller_configures:
  assumes "main_controller M fl cs = Return (auth, ctl)"
  shows "crClient (ctlCR ctl) = athenzV1 cs"
    and "CrIndexInformer (ctlCR ctl) = AddCrIndexers (controllerLib M) (Map.empty(trustDomainIndexKey \<mapsto> TrustDomainIndexFunc))
      (AddCrEventHandler (controllerLib M)
        (cr_handler (controllerEnv M) (MetaNamespaceKeyFunc (controllerLib M)) (DeletionHandlingKeyFunc (controllerLib M)))
        (NewSharedIndexInformer (informerLib (controllerLib M))
          \<lparr>ListFunc = client_List (controllerEnv M), WatchFunc = client_Watch (controllerEnv M)\<rparr>
          TAthenzDomain 0 Map.empty))"
    and "ctlUtil ctl = main_util fl" and "etag (ctlCron ctl) = []"
    and "contactTimeCm (ctlCron ctl) = contactCm fl"
    and "ParseDuration (floatScale M) (updateCronFlag fl) = Inr (checkInterval (ctlCron ctl))"
    and "ParseDuration (floatScale M) (resyncCronFlag fl) = Inr (syncInterval (ctlCron ctl))"
    and "ParseDuration (floatScale M) (queueDelayInterval fl) = Inr (delayInterval (ctlLimiter ctl))"
    and "authenticates M fl auth"
    and "nsIndexInformer ctl = AddNsEventHandler (controllerLib M)
      (ns_handler (controllerEnv M) (main_util fl) (MetaNamespaceKeyFunc (controllerLib M))
        (DeletionHandlingKeyFunc (controllerLib M)))
      (NewNamespaceInformer (controllerLib M) ''namespaces'' (3600 * 10 ^ 9))"
proof -
  obtain upd res delay where
    a: "main_auth M fl = Return auth"
    and d: "duration M ''Update Cron interval input is invalid'' (updateCronFlag fl) = Return upd"
      "duration M ''Full Resync Cron interval input is invalid'' (resyncCronFlag fl) = Return res"
      "duration M ''Queue delay input is invalid'' (queueDelayInterval fl) = Return delay"
    and c: "NewController (controllerLib M) (controllerEnv M) (Some cs) (startTime M) upd res delay (main_util fl)
      (contactCm fl) = Return ctl"
    using assms by (auto simp: main_controller_def Let_def)
  show "authenticates M fl auth"
    using a by (rule main_auth_authenticates)
  note defs = NewController_def NewCRUtil_def AthenzV1_def NewCron_def NewRateLimiter_def tweaked_def
    NewAthenzDomainInformer_def NewFilteredAthenzDomainInformer_def
  show "crClient (ctlCR ctl) = athenzV1 cs" "ctlUtil ctl = main_util fl" "etag (ctlCron ctl) = []"
    "contactTimeCm (ctlCron ctl) = contactCm fl"
    "ParseDuration (floatScale M) (updateCronFlag fl) = Inr (checkInterval (ctlCron ctl))"
    "ParseDuration (floatScale M) (resyncCronFlag fl) = Inr (syncInterval (ctlCron ctl))"
    "ParseDuration (floatScale M) (queueDelayInterval fl) = Inr (delayInterval (ctlLimiter ctl))"
    using c d [THEN duration_Return] by (auto simp: defs Let_def)
  show "CrIndexInformer (ctlCR ctl) = AddCrIndexers (controllerLib M) (Map.empty(trustDomainIndexKey \<mapsto> TrustDomainIndexFunc))
      (AddCrEventHandler (controllerLib M)
        (cr_handler (controllerEnv M) (MetaNamespaceKeyFunc (controllerLib M)) (DeletionHandlingKeyFunc (controllerLib M)))
        (NewSharedIndexInformer (informerLib (controllerLib M))
          \<lparr>ListFunc = client_List (controllerEnv M), WatchFunc = client_Watch (controllerEnv M)\<rparr>
          TAthenzDomain 0 Map.empty))"
    using c by (auto simp: defs Let_def)
  show "nsIndexInformer ctl = AddNsEventHandler (controllerLib M)
      (ns_handler (controllerEnv M) (main_util fl) (MetaNamespaceKeyFunc (controllerLib M))
        (DeletionHandlingKeyFunc (controllerLib M)))
      (NewNamespaceInformer (controllerLib M) ''namespaces'' (3600 * 10 ^ 9))"
    using c by (auto simp: defs Let_def)
qed

text \<open>
  C18.  From the command line to the controller: if the start succeeds, the command line was a list of
  settings of flags, and with the configuration they give, the clients were made from the
  in-cluster configuration and talk to the API group of the custom resources, the logger is the
  configured one, the controller's utility object and contact ConfigMap are read from the flags, its
  etag is empty, and its intervals and the queue's delay are the parsed durations.  Its informer of the
  custom resources lists and watches without a filter and never resyncs, and has the trust domain index
  and the handlers of the controller; its informer of the namespaces resyncs every hour and has the
  handlers of the controller with the names of the utility object.  The authentication is by token
  exactly when that was asked for.  Then the client talks to the URL of the flags through the default
  transport, the provider has the header, domain, service, key source and expiry of the flags, zero
  standing for an hour, and its loop runs at a tenth of the expiry.  Otherwise the client talks to that
  URL with the latest certificate of the reloader, the CA file and the keep-alive setting of the flags,
  the reloader is idle and has the pair in the two files of the flags, and these are watched.
\<close>

theorem main_setup_configures:
  assumes "klog_apart (klogFlags M)" and "main_setup M args = Running (logger, cs, auth, ctl)"
  shows "\<exists>sts rest fl. args = command_line sts @ rest \<and> list_all (fits (main_formal (klogFlags M))) sts \<and>
    ends_flags rest \<and> fl = given_flags sts \<and>
    (\<exists>cfg r. BuildConfigFromFlags (kubeLib M) [] = Inr cfg \<and>
       NewForConfig (clientLib (kubeLib M)) (Some cfg) = Return (Inr cs) \<and> RESTClient (athenzV1 cs) = Some r) \<and>
    logger = fst (InitLogger (logLib M) (logLoc fl) (logMode fl) (logWorld M)) \<and>
    crClient (ctlCR ctl) = athenzV1 cs \<and>
    CrIndexInformer (ctlCR ctl) = AddCrIndexers (controllerLib M) (Map.empty(trustDomainIndexKey \<mapsto> TrustDomainIndexFunc))
      (AddCrEventHandler (controllerLib M)
        (cr_handler (controllerEnv M) (MetaNamespaceKeyFunc (controllerLib M)) (DeletionHandlingKeyFunc (controllerLib M)))
        (NewSharedIndexInformer (informerLib (controllerLib M))
          \<lparr>ListFunc = client_List (controllerEnv M), WatchFunc = client_Watch (controllerEnv M)\<rparr>
          TAthenzDomain 0 Map.empty)) \<and>
    ctlUtil ctl = main_util fl \<and> etag (ctlCron ctl) = [] \<and>
    contactTimeCm (ctlCron ctl) = contactCm fl \<and>
    ParseDuration (floatScale M) (updateCronFlag fl) = Inr (checkInterval (ctlCron ctl)) \<and>
    ParseDuration (floatScale M) (resyncCronFlag fl) = Inr (syncInterval (ctlCron ctl)) \<and>
    ParseDuration (floatScale M) (queueDelayInterval fl) = Inr (delayInterval (ctlLimiter ctl)) \<and>
    authenticates M fl auth \<and>
    nsIndexInformer ctl = AddNsEventHandler (controllerLib M)
      (ns_handler (controllerEnv M) (main_util fl) (MetaNamespaceKeyFunc (controllerLib M))
        (DeletionHandlingKeyFunc (controllerLib M)))
      (NewNamespaceInformer (controllerLib M) ''namespaces'' (3600 * 10 ^ 9))"
proof -
  obtain fs cfg where f: "main_flags (klogFlags M) args = Running fs"
      "fst (main_log (logLib M) (flags_of fs) (logWorld M)) = logger"
      "BuildConfigFromFlags (kubeLib M) [] = Inr cfg" "NewForConfig (clientLib (kubeLib M)) (Some cfg) = Return (Inr cs)"
      "main_controller M (flags_of fs) cs = Return (auth, ctl)"
    using main_setup_Running [OF assms] .
  obtain r where r: "RESTClient (athenzV1 cs) = Some r"
    using NewForConfig_client [OF f(4)] by blast
  obtain sts rest where sts: "args = command_line sts @ rest" "list_all (fits (main_formal (klogFlags M))) sts"
      "ends_flags rest" "flags_of fs = given_flags sts"
    using settings_given [OF assms(1) f(1)] by blast
  have logger: "logger = fst (InitLogger (logLib M) (logLoc (given_flags sts)) (logMode (given_flags sts)) (logWorld M))"
    using f(2) sts(4) by (simp add: main_log_def)
  note main_controller_configures [OF f(5) [unfolded sts(4)]]
  with f(3,4) r sts(1-3) logger show ?thesis by blast
qed

definition demo_main ::
    "(string, string list, string, rat \<times> int, unit, string, string, int, int, session_world, string, string,
      unit cluster, unit, int, int) main_env" where
  "demo_main =
     \<lparr>klogFlags = demo_klog, logLib = line_log, logWorld = [],
      kubeLib = \<lparr>getenv = (\<lambda>v. ''/root''), BuildConfigFromFlags = (\<lambda>k. Inr demo_config),
                 kubernetes_NewForConfig = (\<lambda>k. None), clientLib = demo_client_lib\<rparr>,
      floatScale = (\<lambda>f unit k. f * unit div 10 ^ k),
      diskLib = demo_fs, disk = 2, fsnotifyErr = None, fsnotifyAdd = (\<lambda>d. None),
      tokenEnv = (\<lambda>pks. demo_session), tokenWorld = \<lparr>wallClock = 5, clientHeaders = Map.empty\<rparr>,
      startTime = 0,
      controllerLib = \<lparr>informerLib = demo_informer_lib, NewNamespaceInformer = (\<lambda>r p. p), AddNsEventHandler = (\<lambda>h i. i),
         AddCrEventHandler = (\<lambda>h i. i), AddCrIndexers = (\<lambda>ix i. i), MetaNamespaceKeyFunc = (\<lambda>ob. ([], None)),
         DeletionHandlingKeyFunc = (\<lambda>ob. ([], None))\<rparr>,
      controllerEnv = demo_env\<rparr>"

lemma default_durations [simp]:
  "ParseDuration F ''1m0s'' = Inr (60 * 10 ^ 9)" "ParseDuration F ''1h0m0s'' = Inr (3600 * 10 ^ 9)"
  "ParseDuration F ''250ms'' = Inr (250 * 10 ^ 6)"
proof -
  have w: "written [(1, ''m''), (0, ''s'')] = ''1m0s''" "written [(250, ''ms'')] = ''250ms''"
    "written [(1, ''h''), (0, ''m''), (0, ''s'')] = ''1h0m0s''"
    by code_simp+
  have u: "unitMap ''h'' = Some (3600 * 10 ^ 9)" "unitMap ''m'' = Some (60 * 10 ^ 9)" "unitMap ''s'' = Some (10 ^ 9)"
    "unitMap ''ms'' = Some (10 ^ 6)"
    by (simp_all add: unitMap_def)
  show "ParseDuration F ''1m0s'' = Inr (60 * 10 ^ 9)" "ParseDuration F ''1h0m0s'' = Inr (3600 * 10 ^ 9)"
    "ParseDuration F ''250ms'' = Inr (250 * 10 ^ 6)"
    using ParseDuration_whole [of "[(1, ''m''), (0, ''s'')]" F] ParseDuration_whole [of "[(250, ''ms'')]" F]
      ParseDuration_whole [of "[(1, ''h''), (0, ''m''), (0, ''s'')]" F]
    by (simp_all add: w u nanoseconds_def del: One_nat_def)
qed

lemma demo_NewForConfig: "\<exists>cs. NewForConfig demo_client_lib (Some demo_config) = Return (Inr cs)"
  by (simp add: NewForConfig_def v1_NewForConfig_eq demo_client_lib_def demo_config_def Let_def)

lemma demo_main_controller:
  assumes "\<not> useNToken fl" "caCertFlag fl = []" "updateCronFlag fl = ''1m0s''" "resyncCronFlag fl = ''1h0m0s''"
    "queueDelayInterval fl = ''250ms''"
  shows "\<exists>auth ctl. main_controller demo_main fl cs = Return (auth, ctl)"
  using assms
  by (simp add: main_controller_def main_auth_def duration_def demo_main_def
      NewCertReloader_def Run_def NewWatcher_def createZMSClient_def maybeReload_def reloadKeyCert_def
      demo_fs_def zeroTime_def NewController_def NewCRUtil_def AthenzV1_def Let_def split_beta)

lemma demo_main_starts: "\<exists>logger cs auth ctl. main_setup demo_main [] = Running (logger, cs, auth, ctl)"
proof -
  obtain cs where cs: "NewForConfig demo_client_lib (Some demo_config) = Return (Inr cs)"
    using demo_NewForConfig by blast
  obtain auth ctl where ctl: "main_controller demo_main default_flags cs = Return (auth, ctl)"
    using demo_main_controller [of default_flags cs] by (auto simp: default_flags_def)
  have "main_flags demo_klog [] = Running (main_formal demo_klog)"
    using Parse_settings [of "main_formal demo_klog" "[]" "[]"]
    by (simp add: main_flags_eq [OF demo_klog_apart] ends_flags_def)
  with cs ctl show ?thesis
    using main_setup_starts [of demo_main "[]" "main_formal demo_klog" demo_config cs auth ctl] demo_klog_apart
    by (auto simp: demo_main_def flags_of_main_formal)
qed

lemma main_setup_configures_witness:
  "\<exists>logger cs auth ctl. main_setup demo_main [] = Running (logger, cs, auth, ctl) \<and>
     checkInterval (ctlCron ctl) = 60 * 10 ^ 9 \<and> syncInterval (ctlCron ctl) = 3600 * 10 ^ 9 \<and>
     delayInterval (ctlLimiter ctl) = 250 * 10 ^ 6 \<and>
     (\<exists>client r wt. auth = Certs client r wt \<and> certFile r = ''/var/run/athenz/service.cert.pem'' \<and>
        GetLatestCertificate r = Some 2)"
proof -
  obtain logger cs auth ctl where m: "main_setup demo_main [] = Running (logger, cs, auth, ctl)"
    using demo_main_starts by blast
  have k: "klog_apart (klogFlags demo_main)"
    by (simp add: demo_main_def demo_klog_apart)
  obtain sts where "[] = command_line sts" and "ParseDuration (floatScale demo_main) (updateCronFlag (given_flags sts)) = Inr (checkInterval (ctlCron ctl))"
      "ParseDuration (floatScale demo_main) (resyncCronFlag (given_flags sts)) = Inr (syncInterval (ctlCron ctl))"
      "ParseDuration (floatScale demo_main) (queueDelayInterval (given_flags sts)) = Inr (delayInterval (ctlLimiter ctl))"
      "authenticates demo_main (given_flags sts) auth"
    using main_setup_configures [OF k m] by auto
  moreover from this(1) have "sts = []"
    by (cases sts) (auto simp: spell_def split: form.splits)
  moreover have "certFile r = ''/var/run/athenz/service.cert.pem'' \<and> GetLatestCertificate r = Some 2"
    if "loads_pair (diskLib demo_main) (disk demo_main) default_flags r" for r
    using that by (auto simp: loads_pair_def default_flags_def demo_main_def demo_fs_def zeroTime_def pair_on_disk_def)
  ultimately show ?thesis
    using m by (auto simp: given_flags_def default_flags_def authenticates_def split: auth.splits)
qed

end
