(* ===== verification/Process.thy ===== *)
theory Process
  imports Startup Well_Formed
begin

text \<open>
  The life of the process, from the command line to its end.  After the start, \<^verbatim>\<open>main\<close> runs
  the controller as a goroutine and waits for a signal; the deferred call then closes the stop
  channel, and the return of \<^verbatim>\<open>main\<close> ends the process with all its goroutines.  A panic
  in one of the goroutines ends it too, with exit code two.  The goroutines are those of the controller,
  as in the theory \<^verbatim>\<open>System\<close> but with the phases of \<^verbatim>\<open>Run\<close> and with their panics,
  and those of the authentication: the refresh loop of the token provider, or the file watcher and the
  reloads of the certificates.
\<close>

section \<open>The goroutines of the controller\<close>

text \<open>
  \<^verbatim>\<open>Run\<close> waits for the caches, or was told that they do not synchronise, or works, or has ended; the
  crons are started when it begins to work.  When the caches move, the informer of the custom resources
  calls the index function on the objects that it puts into its store, in its own goroutine.
\<close>

fun index_all :: "'x obj list \<Rightarrow> unit outcome" where
  \<comment> \<open>the index function on the objects of the store; those that were there before returned before\<close>
  "index_all [] = Return ()"
| "index_all (ob # obs) = bind_outcome (TrustDomainIndexFunc ob) (\<lambda>vs. index_all obs)"

datatype run_phase = Starting | Aborted | Working | Finished

type_synonym 'w goroutines = "run_phase \<times> Cron \<times> 'w"

inductive controller_go ::
    "('w, 'x) env \<Rightarrow> Util \<Rightarrow> 'x keyFunc \<Rightarrow> 'x keyFunc \<Rightarrow> (Cron, 'w) retrier \<Rightarrow> BackOff \<Rightarrow>
      ('w \<Rightarrow> 'w \<Rightarrow> bool) \<Rightarrow> bool \<Rightarrow> 'w goroutines \<Rightarrow> 'w goroutines outcome \<Rightarrow> bool"
  for E u keyf delf retry b outside stopped where
  world_moves: "outside w w' \<Longrightarrow>
    controller_go E u keyf delf retry b outside stopped (ph, c, w)
      (bind_outcome (index_all (cr_List E w')) (\<lambda>x. Return (ph, c, w')))"
| namespace_event:
    "controller_go E u keyf delf retry b outside stopped (ph, c, w) (Return (ph, c, ns_handler E u keyf delf ev w))"
| domain_event:
    "controller_go E u keyf delf retry b outside stopped (ph, c, w) (Return (ph, c, cr_handler E keyf delf ev w))"
| start: "Run_start E u synced (c, w) = (r, c', w') \<Longrightarrow>
    controller_go E u keyf delf retry b outside stopped (Starting, c, w)
      (bind_outcome r (\<lambda>ok. Return (if ok then Working else Aborted, c', w')))"
| worker: "processNextItem E u w = (r, w') \<Longrightarrow>
    controller_go E u keyf delf retry b outside stopped (Working, c, w)
      (bind_outcome r (\<lambda>again. Return
         (if \<not> again \<and> stopped then (Finished, c, q_ShutDown E w') else (Working, c, w'))))"
| update_cron: "ph \<in> {Working, Finished} \<Longrightarrow> retry (getExponentialBackoff b c) (requestCall E u) (c, w) = (r, c', w') \<Longrightarrow>
    controller_go E u keyf delf retry b outside stopped (ph, c, w) (bind_outcome r (\<lambda>x. Return (ph, c', w')))"
| full_resync: "ph \<in> {Working, Finished} \<Longrightarrow> resync_once E u w = (r, w') \<Longrightarrow>
    controller_go E u keyf delf retry b outside stopped (ph, c, w) (bind_outcome r (\<lambda>x. Return (ph, c, w')))"

section \<open>The goroutines of the authentication\<close>

text \<open>
  \<^verbatim>\<open>refreshLoop\<close> has not begun, waits for its ticker or the stop channel, or has returned.
\<close>

datatype loop_phase = NotYet | Looping | Returned

inductive token_go ::
    "('v, 'r, 'e) token_env \<Rightarrow> int \<Rightarrow> bool \<Rightarrow> loop_phase \<times> TokenProvider \<times> 'v \<Rightarrow>
      (loop_phase \<times> TokenProvider \<times> 'v) outcome \<Rightarrow> bool"
  for T interval stopped where
  make_ticker: "token_go T interval stopped (NotYet, s)
    (bind_outcome (refreshLoop T interval [] s) (\<lambda>s. Return (Looping, s)))"
| tick: "token_go T interval stopped (Looping, s) (Return (Looping, refresh_run T [Tick f] s))"
| stop: "stopped \<Longrightarrow> token_go T interval stopped (Looping, s) (Return (Returned, s))"

text \<open>
  The watcher waits for an event, an error or the stop channel, or has returned.  Its events start
  goroutines of the reloader, which take their steps beside it, as do the writers of the files.
\<close>

inductive cert_go ::
    "('d, 'c) filesystem \<Rightarrow> watcher \<Rightarrow> bool \<Rightarrow> bool \<times> ('d, 'c) reload_state \<Rightarrow> bool \<times> ('d, 'c) reload_state \<Rightarrow> bool"
  for F wt stopped where
  event: "cert_go F wt stopped (True, s) (True, watch_loop reloader_notifier wt [Event ev] s)"
| watch_error: "cert_go F wt stopped (True, s) (False, watch_loop reloader_notifier wt [Error e] s)"
| stop: "stopped \<Longrightarrow> cert_go F wt stopped (True, s) (False, watch_loop reloader_notifier wt [Stopped] s)"
| reload: "fileUpdate F UNIV s s' \<Longrightarrow> length (Reloader.goroutines s') \<le> length (Reloader.goroutines s) \<Longrightarrow>
    cert_go F wt stopped (watching, s) (watching, s')"

datatype ('d, 'c, 'v) auth_goroutines =
    TokenGo loop_phase PrivateKeySource int TokenProvider 'v
  | CertGo bool watcher "('d, 'c) reload_state"

fun auth_started :: "'d \<Rightarrow> ('c, 'v) auth \<Rightarrow> ('d, 'c, 'v) auth_goroutines" where
  \<comment> \<open>on the disk \<open>d\<close>\<close>
  "auth_started d (NToken client pks tp interval v) = TokenGo NotYet pks interval tp v"
| "auth_started d (Certs client r wt) = CertGo True wt \<lparr>fsys = d, reloader = r, goroutines = []\<rparr>"

section \<open>The goroutines of the program\<close>

inductive program_go ::
    "('lv, 'lw, 'la, 'l, 'n, 'h, 'd, 'f, 'c, 'v, 'r, 'e, 'w, 'x, 'i, 'j) main_env \<Rightarrow>
      Util \<Rightarrow> 'x keyFunc \<Rightarrow> 'x keyFunc \<Rightarrow> (Cron, 'w) retrier \<Rightarrow> BackOff \<Rightarrow> ('w \<Rightarrow> 'w \<Rightarrow> bool) \<Rightarrow> bool \<Rightarrow>
      'w goroutines \<times> ('f, 'c, 'v) auth_goroutines \<Rightarrow>
      ('w goroutines \<times> ('f, 'c, 'v) auth_goroutines) outcome \<Rightarrow> bool"
  for M u keyf delf retry b outside stopped where
  controller: "controller_go (controllerEnv M) u keyf delf retry b outside stopped g r \<Longrightarrow>
    program_go M u keyf delf retry b outside stopped (g, a) (bind_outcome r (\<lambda>g. Return (g, a)))"
| token: "token_go (tokenEnv M pks) interval stopped (ph, tp, v) r \<Longrightarrow>
    program_go M u keyf delf retry b outside stopped (g, TokenGo ph pks interval tp v)
      (bind_outcome r (\<lambda>(ph, tp, v). Return (g, TokenGo ph pks interval tp v)))"
| certificates: "cert_go (diskLib M) wt stopped (watching, s) (watching', s') \<Longrightarrow>
    program_go M u keyf delf retry b outside stopped (g, CertGo watching wt s) (Return (g, CertGo watching' wt s'))"

section \<open>The process\<close>

datatype signal = SIGTERM | SIGINT

datatype main_phase = Waiting | Returning | Ended int

record 'g process =
  mainPhase :: main_phase
  sigTerm :: "signal option" \<comment> \<open>the channel of the signals, with room for one\<close>
  stopClosed :: bool
  goroutines :: 'g

datatype label = Signal signal | Goroutine | Receive | Exit | Crash

inductive main_step :: "(bool \<Rightarrow> 'g \<Rightarrow> 'g outcome \<Rightarrow> bool) \<Rightarrow> 'g process \<Rightarrow> label \<Rightarrow> 'g process \<Rightarrow> bool"
  for go where
  signal: "\<forall>code. mainPhase p \<noteq> Ended code \<Longrightarrow>
    main_step go p (Signal s) (p\<lparr>sigTerm := (case sigTerm p of None \<Rightarrow> Some s | Some old \<Rightarrow> Some old)\<rparr>)"
| goroutine: "\<forall>code. mainPhase p \<noteq> Ended code \<Longrightarrow> go (stopClosed p) (goroutines p) (Return g) \<Longrightarrow>
    main_step go p Goroutine (p\<lparr>goroutines := g\<rparr>)"
| crash: "\<forall>code. mainPhase p \<noteq> Ended code \<Longrightarrow> go (stopClosed p) (goroutines p) (Panic q) \<Longrightarrow>
    main_step go p Crash (p\<lparr>mainPhase := Ended 2\<rparr>)"
| receive: "mainPhase p = Waiting \<Longrightarrow> sigTerm p = Some s \<Longrightarrow>
    main_step go p Receive (p\<lparr>mainPhase := Returning, sigTerm := None, stopClosed := True\<rparr>)"
| exit: "mainPhase p = Returning \<Longrightarrow> main_step go p Exit (p\<lparr>mainPhase := Ended 0\<rparr>)"

inductive main_run :: "(bool \<Rightarrow> 'g \<Rightarrow> 'g outcome \<Rightarrow> bool) \<Rightarrow> 'g process \<Rightarrow> label list \<Rightarrow> 'g process \<Rightarrow> bool"
  for go p where
  stay: "main_run go p [] p"
| move: "main_run go p ls p' \<Longrightarrow> main_step go p' l p'' \<Longrightarrow> main_run go p (ls @ [l]) p''"

definition main_start where
  \<comment> \<open>\<open>main\<close> until it waits for a signal, in the world \<open>w\<close> of the controller; the first component
      of the result is the utility object that the goroutines use\<close>
  "main_start M w args =
     bind_run (main_setup M args) (\<lambda>(logger, cs, auth, ctl).
     Running (ctlUtil ctl,
       \<lparr>mainPhase = Waiting, sigTerm = None, stopClosed = False,
        goroutines = ((Starting, ctlCron ctl, w), auth_started (disk M) auth)\<rparr>))"

definition api_world :: "('w goroutines \<times> 'a) process \<Rightarrow> 'w" where
  "api_world p = snd (snd (fst (goroutines p)))"

fun refresh_interval :: "('d, 'c, 'v) auth_goroutines \<Rightarrow> int option" where
  "refresh_interval (TokenGo ph pks interval tp v) = Some interval"
| "refresh_interval (CertGo watching wt s) = None"

section \<open>How the process ends\<close>

definition waits :: "label list \<Rightarrow> 'g process \<Rightarrow> bool" where
  "waits ls p \<longleftrightarrow>
     (case mainPhase p of
        Waiting \<Rightarrow> \<not> stopClosed p \<and> (sigTerm p \<noteq> None \<longleftrightarrow> (\<exists>s. Signal s \<in> set ls))
      | Returning \<Rightarrow> stopClosed p \<and> (\<exists>s. Signal s \<in> set ls)
      | Ended code \<Rightarrow> (stopClosed p \<longrightarrow> (\<exists>s. Signal s \<in> set ls)) \<and>
          (code = 2 \<and> Crash \<in> set ls \<or> code = 0 \<and> (\<exists>s. Signal s \<in> set ls)))"

lemma waits_step:
  assumes "main_step go p l p'" and "waits ls p"
  shows "waits (ls @ [l]) p'"
  using assms by cases (auto simp: waits_def split: main_phase.splits option.splits)

lemma waits_run:
  assumes "main_run go p ls p'" and "mainPhase p = Waiting" and "sigTerm p = None" and "\<not> stopClosed p"
  shows "waits ls p'"
  using assms(1)
proof (induction rule: main_run.induct)
  case stay
  with assms(2-4) show ?case by (simp add: waits_def)
qed (rule waits_step)

lemma receive_and_exit:
  assumes "mainPhase p = Waiting" and "sigTerm p = Some s"
  shows "main_run go p [Receive, Exit] (p\<lparr>sigTerm := None, stopClosed := True, mainPhase := Ended 0\<rparr>)"
proof -
  let ?p = "p\<lparr>mainPhase := Returning, sigTerm := None, stopClosed := True\<rparr>"
  have "main_run go p ([] @ [Receive]) ?p"
    by (rule main_run.move [OF main_run.stay]) (rule main_step.receive [OF assms])
  moreover have "main_step go ?p Exit (?p\<lparr>mainPhase := Ended 0\<rparr>)"
    by (rule main_step.exit) simp
  ultimately show ?thesis
    using main_run.move [of go p "[Receive]" ?p Exit] by simp
qed

section \<open>The goroutines are the system\<close>

text \<open>
  What the goroutines of the controller do is a step of the system, but for the start of
  \<^verbatim>\<open>Run\<close> and the shutdown of the queue, which leave the custom resources alone.
\<close>

locale program_server = worker_server E crs
  for E :: "('w, 'x) env" and crs +
  assumes shutdown_frame: "crs (q_ShutDown E w) = crs w"
begin

lemma Run_start_frame: "Run_start E u synced (c, w) = (r, c', w') \<Longrightarrow> crs w' = crs w"
  by (auto simp: Run_start_def AddAdminSystemDomains_eq add_all_frame shutdown_frame simp del: filter.simps
      split: if_splits outcome.splits)

end

lemma controller_go_simulates:
  assumes "program_server E crs"
    and "controller_go E u keyf delf retry b outside stopped (ph, c, w) (Return (ph', c', w'))"
  shows "crs w' = crs w \<or> (\<exists>w1. system_step E u keyf delf retry b outside (c, w) (c', w1) \<and> crs w' = crs w1)"
  using assms(2)
proof cases
  case (world_moves w1)
  then have "outside w w'" "c' = c"
    by (cases "index_all (cr_List E w1)"; simp)+
  then show ?thesis
    using system_step.outside_moves by fastforce
next
  case (start synced r c1 w1)
  with program_server.Run_start_frame [OF assms(1) start(3)] show ?thesis by (cases r) auto
next
  case (worker r w1)
  have "system_step E u keyf delf retry b outside (c, w) (c, w1)"
    using worker(3) by (rule system_step.worker)
  with worker program_server.shutdown_frame [OF assms(1), of w1] show ?thesis
    by (cases r) (auto split: if_splits)
next
  case (update_cron r c1 w1)
  have "system_step E u keyf delf retry b outside (c, w) (c1, w1)"
    using update_cron(3) by (rule system_step.update_cron)
  with update_cron show ?thesis by (cases r) auto
next
  case (full_resync r w1)
  have "system_step E u keyf delf retry b outside (c, w) (c, w1)"
    using full_resync(3) by (rule system_step.full_resync)
  with full_resync show ?thesis by (cases r) auto
qed (auto intro: system_step.intros)

lemma controller_go_consistent:
  assumes "program_server E crs" and "retry_notify retry" and "\<And>w w'. outside w w' \<Longrightarrow> crs w' = crs w"
    and "controller_go E u keyf delf retry b outside stopped (ph, c, w) (Return (ph', c', w'))"
    and "all_consistent u (crs w)"
  shows "all_consistent u (crs w')"
proof -
  note server = program_server.axioms(1) [OF assms(1)]
  consider "crs w' = crs w"
    | w1 where "system_step E u keyf delf retry b outside (c, w) (c', w1)" "crs w' = crs w1"
    using controller_go_simulates [OF assms(1,4)] by blast
  then show ?thesis
  proof cases
    case 2
    have "crs w1 = crs w \<or> (\<exists>d w2 r w3. crs w2 = crs w \<and> sync E u d w2 = (r, w3) \<and> crs w1 = crs w3)"
      using step_effect [OF server assms(2,3) 2(1)] by auto
    with 2(2) assms(5) sync_consistent [OF worker_server.axioms(1) [OF server]] show ?thesis by metis
  qed (use assms(5) in simp)
qed

lemma program_go_cases:
  assumes "program_go M u keyf delf retry b outside stopped (g, a) r"
  obtains (controller) rg where "controller_go (controllerEnv M) u keyf delf retry b outside stopped g rg"
      "r = bind_outcome rg (\<lambda>g. Return (g, a))"
  | (auth) a' where "r = Return (g, a')" "refresh_interval a' = refresh_interval a"
  | (panic) q i where "r = Panic q" "refresh_interval a = Some i" "i \<le> 0"
  using assms
proof cases
  case (token pks interval ph tp v rt)
  show ?thesis
  proof (cases rt)
    case (Return x)
    then show ?thesis
      using token by (intro auth [of "TokenGo (fst x) pks interval (fst (snd x)) (snd (snd x))"]) (simp_all add: split_beta)
  next
    case (Panic q)
    from token(3) [unfolded Panic] have "interval \<le> 0"
      by cases (auto simp: refreshLoop_def split: if_splits)
    with token Panic show ?thesis by (intro panic) simp_all
  qed
qed (use controller auth in auto)

lemma consistent_run:
  assumes "program_server (controllerEnv M) crs" and "retry_notify retry" and "\<And>w w'. outside w w' \<Longrightarrow> crs w' = crs w"
    and "main_run (program_go M u keyf delf retry b outside) p ls p'"
    and "all_consistent u (crs (api_world p))"
  shows "all_consistent u (crs (api_world p'))"
  using assms(4)
proof (induction rule: main_run.induct)
  case (move ls p1 l p2)
  from move(2) show ?case
  proof cases
    case (goroutine g)
    obtain ph c w a where p1: "goroutines p1 = ((ph, c, w), a)" by (metis prod.exhaust)
    from goroutine(4) [unfolded p1] show ?thesis
    proof (cases rule: program_go_cases)
      case (controller rg)
      then obtain ph' c' w' where g: "g = ((ph', c', w'), a)" "rg = Return (ph', c', w')" by (cases rg) auto
      have "all_consistent u (crs w')"
        by (rule controller_go_consistent [OF assms(1-3)])
          (use controller move.IH p1 g in \<open>simp_all add: api_world_def\<close>)
      with goroutine g show ?thesis by (simp add: api_world_def)
    qed (use move.IH goroutine p1 in \<open>auto simp: api_world_def\<close>)
  qed (use move.IH in \<open>auto simp: api_world_def\<close>)
qed (use assms(5) in simp)

interpretation cluster: program_server "cluster_env z" cluster_crs for z
  by unfold_locales (simp add: cluster_env_def)

section \<open>Goroutines that do not panic\<close>

text \<open>
  The index function needs the pointers to the roles.  The worker writes only what ZMS answers, so the
  custom resources keep them set when the answers do.
\<close>

definition whole :: "(string \<Rightarrow> 'x AthenzDomain option) \<Rightarrow> bool" where
  "whole m \<longleftrightarrow> (\<forall>n c. m n = Some c \<longrightarrow> roles_set (signedDomain (spec c)))"

lemma indexable_returns:
  assumes "indexable ob"
  obtains vs where "TrustDomainIndexFunc ob = Return vs"
proof -
  obtain c where c: "ob = ObjAthenzDomain (Some c)"
      "\<forall>d. domain (signedDomain (spec c)) = Some d \<longrightarrow> None \<notin> set (elems (roles d))"
    using assms by (auto simp: indexable_def)
  then show ?thesis
    by (cases "domain (signedDomain (spec c))")
      (use that in \<open>simp_all add: TrustDomainIndexFunc_def trusts_of_def collect_trusts_eq\<close>)
qed

lemma index_all_returns: "list_all indexable obs \<Longrightarrow> index_all obs = Return ()"
  by (induction obs) (auto elim: indexable_returns)

lemma sync_whole:
  assumes "domain_server E crs" and "sync E u d w = (r, w')" and "whole (crs w)"
    and "\<forall>s \<in> answered E u d w. roles_set s"
  shows "whole (crs w')"
  using domain_server.sync_effect [OF assms(1,2)] assms(3,4)
  by (auto simp: may_store_def whole_def split: if_splits)

text \<open>The listing of the cache and the shutdown of the queue are used by \<^verbatim>\<open>Run\<close> alone.\<close>

locale typed_program = typed_system E u typed + program_server E crs
  for E :: "('w, 'x) env" and crs u typed +
  assumes listed_typed: "typed w \<Longrightarrow> list_all typed_object (cr_List E w)"
    and shutdown_typed: "typed w \<Longrightarrow> typed (q_ShutDown E w)"
    and zms_roles: "typed w \<Longrightarrow> zms_GetSignedDomains E d [] [] False False [] w = ((Some sds, tag, None), w') \<Longrightarrow>
      Some s \<in> set (elems (domains sds)) \<Longrightarrow> roles_set s"
begin

lemma answered_whole: "typed w \<Longrightarrow> s \<in> answered E u d w \<Longrightarrow> roles_set s"
  by (erule answered_roles_set) (rule zms_roles)

lemma scan_latest_returns:
  "list_all typed_object obs \<Longrightarrow> \<exists>r. scan_latest obs latest = Return (Some r)"
proof (induction obs arbitrary: latest)
  case (Cons ob obs)
  then obtain c d where "ob = ObjAthenzDomain (Some c)" "domain (signedDomain (spec c)) = Some d"
    by (auto simp: typed_object_def comparable_def split: obj.splits option.splits)
  with Cons show ?case by simp
qed simp

lemma GetLatestTimestamp_returns: "typed w \<Longrightarrow> \<exists>s. GetLatestTimestamp E w = Return s"
  using scan_latest_returns [OF listed_typed, of w 0] by (auto simp: GetLatestTimestamp_def Let_def)

lemma Run_start_safe:
  assumes "typed w" and "Run_start E u synced (c, w) = (r, c', w')"
  shows "returns r \<and> typed w'"
  using assms GetLatestTimestamp_returns [OF assms(1)]
  by (auto simp: Run_start_def AddAdminSystemDomains_eq add_all_typed shutdown_typed simp del: filter.simps
      split: if_splits)

end

text \<open>What the outside has to keep: it moves the caches only to objects with set pointers.\<close>

definition outside_whole ::
    "('w, 'x) env \<Rightarrow> ('w \<Rightarrow> string \<Rightarrow> 'x AthenzDomain option) \<Rightarrow> ('w \<Rightarrow> bool) \<Rightarrow> ('w \<Rightarrow> 'w \<Rightarrow> bool) \<Rightarrow> bool" where
  "outside_whole E crs typed outside \<longleftrightarrow>
     (\<forall>w w'. outside w w' \<and> typed w \<and> whole (crs w) \<longrightarrow>
        typed w' \<and> whole (crs w') \<and> list_all indexable (cr_List E w'))"

lemma outside_wholeD:
  assumes "outside_whole E crs typed outside" and "outside w w'" and "typed w" and "whole (crs w)"
  shows "typed w'" "whole (crs w')" "index_all (cr_List E w') = Return ()"
  using assms index_all_returns unfolding outside_whole_def by blast+

lemma controller_go_returns:
  assumes "typed_program E crs u typed" and "retry_notify retry" and "outside_whole E crs typed outside"
    and "controller_go E u keyf delf retry b outside stopped (ph, c, w) r" and "typed w" and "whole (crs w)"
  shows "\<exists>ph' c' w'. r = Return (ph', c', w') \<and> typed w'"
proof -
  note sys = typed_program.axioms(1) [OF assms(1)]
  note world = typed_system.axioms(1) [OF sys]
  show ?thesis
    using assms(4)
  proof cases
    case (world_moves w')
    with outside_wholeD [OF assms(3) world_moves(2) assms(5,6)] show ?thesis by simp
  next
    case (start synced r0 c' w')
    from typed_program.Run_start_safe [OF assms(1,5) start(3)] obtain ok where "r0 = Return ok" "typed w'"
      by (auto simp: returns_iff)
    with start(2) show ?thesis by simp
  next
    case (worker r0 w')
    with typed_world.processNextItem_safe [OF world assms(5)] obtain again where "r0 = Return again" "typed w'"
      by (auto simp: typed_world.safe_def [OF world])
    with worker(2) typed_program.shutdown_typed [OF assms(1), of w'] show ?thesis
      by (cases "\<not> again \<and> stopped") auto
  next
    case (update_cron r0 c' w')
    note safe = typed_system.requestCall_safe [OF sys]
    have "typed (snd (c', w'))"
      by (rule retry_notify.retry_invariant [OF assms(2), where I = "\<lambda>cw. typed (snd cw)", OF _ _ update_cron(3)])
        (use assms(5) safe in auto)
    moreover have "returns (fst (retry (getExponentialBackoff b c) (requestCall E u) (c, w)))"
      by (rule retry_notify.retry_returns [OF assms(2), where I = "\<lambda>cw. typed (snd cw)"])
        (use assms(5) safe in auto)
    ultimately show ?thesis
      using update_cron by (auto simp: returns_iff)
  next
    case (full_resync r0 w')
    with typed_system.resync_safe [OF sys assms(5)] show ?thesis
      by (auto simp: typed_world.safe_def [OF world])
  qed (use assms(5) typed_system.handler_typed [OF sys] in auto)
qed

lemma controller_go_alone:
  assumes "controller_go E u keyf delf retry b outside stopped s r"
  shows "(\<exists>ph c w w'. s = (ph, c, w) \<and> outside w w' \<and>
      r = bind_outcome (index_all (cr_List E w')) (\<lambda>x. Return (ph, c, w'))) \<or>
    controller_go E u keyf delf retry b (\<lambda>w w'. False) stopped s r"
  using assms by (induction rule: controller_go.induct) (blast intro: controller_go.intros)+

lemma controller_go_whole:
  assumes "typed_program E crs u typed" and "retry_notify retry" and "outside_whole E crs typed outside"
    and "controller_go E u keyf delf retry b outside stopped (ph, c, w) (Return (ph', c', w'))"
    and "typed w" and "whole (crs w)"
  shows "whole (crs w')"
proof -
  note server = typed_program.axioms(2) [OF assms(1)]
  note worker = program_server.axioms(1) [OF server]
  from controller_go_alone [OF assms(4)] show ?thesis
  proof
    assume "\<exists>ph1 c1 w1 w2. (ph, c, w) = (ph1, c1, w1) \<and> outside w1 w2 \<and>
      Return (ph', c', w') = bind_outcome (index_all (cr_List E w2)) (\<lambda>x. Return (ph1, c1, w2))"
    then obtain w2 where w2: "outside w w2"
        "Return (ph', c', w') = bind_outcome (index_all (cr_List E w2)) (\<lambda>x. Return (ph, c, w2))"
      by blast
    with outside_wholeD [OF assms(3) w2(1) assms(5,6)] show ?thesis by simp
  next
    assume alone: "controller_go E u keyf delf retry b (\<lambda>w w'. False) stopped (ph, c, w) (Return (ph', c', w'))"
    consider "crs w' = crs w"
      | w1 where "system_step E u keyf delf retry b (\<lambda>w w'. False) (c, w) (c', w1)" "crs w' = crs w1"
      using controller_go_simulates [OF server alone] by blast
    then show ?thesis
    proof cases
      case 2
      have "crs w1 = crs w \<or> (\<exists>d w2 r w3. q_Get E w = ((KeyString d, False), w2) \<and> crs w2 = crs w \<and>
          sync E u d w2 = (r, w3) \<and> crs w1 = crs w3)"
        using step_effect [OF worker assms(2) _ 2(1)] by auto
      then show ?thesis
      proof (elim disjE exE conjE)
        fix d w2 r w3
        assume get: "q_Get E w = ((KeyString d, False), w2)" and w2: "crs w2 = crs w" "sync E u d w2 = (r, w3)"
          and w3: "crs w1 = crs w3"
        have "typed w2"
          using typed_world.get_typed [OF typed_system.axioms(1) [OF typed_program.axioms(1) [OF assms(1)]] assms(5)] get by simp
        then have "\<forall>s \<in> answered E u d w2. roles_set s"
          using typed_program.answered_whole [OF assms(1)] by blast
        with sync_whole [OF worker_server.axioms(1) [OF worker] w2(2)] w2(1) w3 2(2) assms(6) show ?thesis by simp
      qed (use 2(2) assms(6) in simp)
    qed (use assms(6) in simp)
  qed
qed

lemma program_go_safe:
  assumes "typed_program (controllerEnv M) crs u typed" and "retry_notify retry"
    and "outside_whole (controllerEnv M) crs typed outside"
    and "program_go M u keyf delf retry b outside stopped ((ph, c, w), a) r" and "typed w" and "whole (crs w)"
    and "\<And>i. refresh_interval a = Some i \<Longrightarrow> 0 < i"
  shows "\<exists>g a'. r = Return (g, a') \<and> typed (snd (snd g)) \<and> whole (crs (snd (snd g))) \<and>
    refresh_interval a' = refresh_interval a"
  using assms(4)
proof (cases rule: program_go_cases)
  case (controller rg)
  obtain ph' c' w' where rg: "rg = Return (ph', c', w')" "typed w'"
    using controller_go_returns [OF assms(1-3) controller(1) assms(5,6)] by blast
  have "whole (crs w')"
    by (rule controller_go_whole [OF assms(1-3) controller(1) [unfolded rg(1)] assms(5,6)])
  with rg controller(2) show ?thesis by simp
next
  case (panic q i)
  with assms(7) [OF panic(2)] show ?thesis by simp
qed (use assms(5,6) in simp)

lemma safe_run:
  assumes "typed_program (controllerEnv M) crs u typed" and "retry_notify retry"
    and "outside_whole (controllerEnv M) crs typed outside"
    and "main_run (program_go M u keyf delf retry b outside) p ls p'"
    and "typed (api_world p)" and "whole (crs (api_world p))"
    and "\<And>i. refresh_interval (snd (goroutines p)) = Some i \<Longrightarrow> 0 < i"
  shows "Crash \<notin> set ls \<and> typed (api_world p') \<and> whole (crs (api_world p')) \<and>
    refresh_interval (snd (goroutines p')) = refresh_interval (snd (goroutines p))"
  using assms(4)
proof (induction rule: main_run.induct)
  case (move ls p1 l p2)
  obtain ph c w a where p1: "goroutines p1 = ((ph, c, w), a)" by (metis prod.exhaust)
  have w: "typed w" "whole (crs w)" and a: "refresh_interval a = refresh_interval (snd (goroutines p))"
    using move.IH p1 by (simp_all add: api_world_def)
  note go = program_go_safe [OF assms(1-3) _ w assms(7) [folded a]]
  from move(2) have "l \<noteq> Crash \<and> typed (api_world p2) \<and> whole (crs (api_world p2)) \<and>
      refresh_interval (snd (goroutines p2)) = refresh_interval a"
  proof cases
    case (goroutine g)
    from go [OF goroutine(4) [unfolded p1]] goroutine(1,2) show ?thesis by (auto simp: api_world_def)
  next
    case (crash q)
    from go [OF crash(4) [unfolded p1]] show ?thesis by simp
  qed (use w p1 in \<open>simp_all add: api_world_def\<close>)
  with move.IH a show ?case by auto
qed (simp add: assms(5,6))

text \<open>A refresh loop whose interval is not positive ends the process when it begins.\<close>

lemma refresh_crash:
  assumes "i \<le> 0" and "mainPhase p = Waiting" and "goroutines p = (g, TokenGo NotYet pks i tp v)"
  shows "\<exists>p'. main_run (program_go M u keyf delf retry b outside) p [Crash] p' \<and> mainPhase p' = Ended 2"
proof -
  let ?q = "LogPanic ''non-positive interval for NewTicker''"
  have "token_go (tokenEnv M pks) i (stopClosed p) (NotYet, tp, v) (Panic ?q)"
    using token_go.make_ticker [of "tokenEnv M pks" i "stopClosed p" "(tp, v)"] assms(1) by (simp add: refreshLoop_def)
  from program_go.token [OF this] have "program_go M u keyf delf retry b outside (stopClosed p) (goroutines p) (Panic ?q)"
    using assms(3) by simp
  then have "main_step (program_go M u keyf delf retry b outside) p Crash (p\<lparr>mainPhase := Ended 2\<rparr>)"
    by (intro main_step.crash) (simp_all add: assms(2))
  from main_run.move [OF main_run.stay this] show ?thesis by force
qed

interpretation cluster: typed_program "cluster_env z" cluster_crs u "cluster_typed u" for z u
proof (unfold_locales, goal_cases)
  case (1 w)
  then show ?case by (auto simp: cluster_env_def cluster_typed_def list_all_iff)
next
  case (2 w)
  then show ?case by (simp add: cluster_env_def cluster_typed_def)
next
  case (3 w d sds tag w' s)
  from 3(2) have "zmsTable w d = (Some sds, tag, None)" by auto
  with 3(1,3) cluster_typed_answer [of u w d] show ?case by (auto simp: table_typed_def)
qed

section \<open>Properties\<close>

definition short_expiry where
  \<comment> \<open>the command line asks for tokens, with an expiry of which a tenth is not positive\<close>
  "short_expiry M args \<longleftrightarrow>
     (\<exists>fs d. main_flags (klogFlags M) args = Running fs \<and> useNToken (flags_of fs) \<and>
        ParseDuration (floatScale M) (nTokenExpireTime (flags_of fs)) = Inr d \<and> d \<noteq> 0 \<and> d < 10)"

lemma quot_positive: "10 \<le> d \<Longrightarrow> 0 < quot d refreshIntervalFactor"
  by (simp add: refreshIntervalFactor_def quot_nonneg)

lemma main_start_cases:
  assumes "klog_apart (klogFlags M)" and "main_start M w args = Running (u, p0)"
  obtains c a where "p0 = \<lparr>mainPhase = Waiting, sigTerm = None, stopClosed = False, goroutines = ((Starting, c, w), a)\<rparr>"
    "short_expiry M args \<longleftrightarrow> (\<exists>i. refresh_interval a = Some i \<and> i \<le> 0)"
    "\<And>i. refresh_interval a = Some i \<Longrightarrow> \<exists>pks tp v. a = TokenGo NotYet pks i tp v"
proof -
  obtain logger cs auth ctl where m: "main_setup M args = Running (logger, cs, auth, ctl)"
      "p0 = \<lparr>mainPhase = Waiting, sigTerm = None, stopClosed = False,
         goroutines = ((Starting, ctlCron ctl, w), auth_started (disk M) auth)\<rparr>"
    using assms(2) by (auto simp: main_start_def)
  obtain fs where fs: "main_flags (klogFlags M) args = Running fs" "main_controller M (flags_of fs) cs = Return (auth, ctl)"
    using main_setup_Running [OF assms(1) m(1)] by metis
  have auth: "authenticates M (flags_of fs) auth"
    by (rule main_controller_configures(9) [OF fs(2)])
  show ?thesis
  proof (cases auth)
    case (NToken client pks tp interval v)
    then obtain d where d: "useNToken (flags_of fs)" "ParseDuration (floatScale M) (nTokenExpireTime (flags_of fs)) = Inr d"
        "interval = quot (if d = 0 then 3600 * 10 ^ 9 else d) refreshIntervalFactor"
      using auth by (auto simp: authenticates_def token_client_def)
    have "interval \<le> 0 \<longleftrightarrow> d \<noteq> 0 \<and> d < 10"
      using d(3) quot_small [of d] quot_positive [of d] quot_positive [of "3600 * 10 ^ 9"]
      by (cases "d = 0"; cases "d < 10") auto
    with m(2) NToken d(1,2) fs(1) show ?thesis
      by (intro that) (auto simp: short_expiry_def)
  next
    case (Certs client r wt)
    with m(2) auth fs(1) show ?thesis
      by (intro that) (auto simp: short_expiry_def authenticates_def)
  qed
qed

text \<open>
  C13.  The life of the whole program, from its command line on.  Suppose that the caches hold
  AthenzDomains whose pointers are set, that ZMS answers with such data, with a 404, with an error that is
  no resource error, or with another resource error only for domains that are not cached, and that the
  outside keeps it so.  Then the process that \<^verbatim>\<open>main\<close> starts ends, whatever the
  interleaving of the signals and of the goroutines of the controller, the informers, the token provider,
  the file watcher and the reloader, only because a signal arrived, and then with exit code zero, or
  because the command line asks for tokens with an expiry that is negative or below ten nanoseconds, and
  then with exit code two.  In the latter case the refresh loop can end it at once.  Once a signal has
  arrived, \<^verbatim>\<open>main\<close> can close the stop channel and end the process in two steps of its own;
  it waits for none of the goroutines, which are abandoned where they are.
\<close>

theorem process_ends_by_signal:
  assumes "klog_apart (klogFlags M)" and "main_start M w args = Running (u, p0)"
    and "typed_program (controllerEnv M) crs u typed" and "typed w" and "whole (crs w)" and "retry_notify retry"
    and "outside_whole (controllerEnv M) crs typed outside"
    and "main_run (program_go M u keyf delf retry b outside) p0 ls p"
  shows "(\<forall>code. mainPhase p = Ended code \<longrightarrow>
      code = 0 \<and> (\<exists>s. Signal s \<in> set ls) \<or> code = 2 \<and> short_expiry M args) \<and>
    (stopClosed p \<longrightarrow> (\<exists>s. Signal s \<in> set ls)) \<and>
    (mainPhase p = Waiting \<and> (\<exists>s. Signal s \<in> set ls) \<longrightarrow>
      (\<exists>p'. main_run (program_go M u keyf delf retry b outside) p [Receive, Exit] p' \<and>
        mainPhase p' = Ended 0 \<and> goroutines p' = goroutines p)) \<and>
    (short_expiry M args \<longrightarrow>
      (\<exists>p'. main_run (program_go M u keyf delf retry b outside) p0 [Crash] p' \<and> mainPhase p' = Ended 2))"
proof (rule main_start_cases [OF assms(1,2)])
  fix c a
  let ?go = "program_go M u keyf delf retry b outside"
  assume p0: "p0 = \<lparr>mainPhase = Waiting, sigTerm = None, stopClosed = False, goroutines = ((Starting, c, w), a)\<rparr>"
    and short: "short_expiry M args \<longleftrightarrow> (\<exists>i. refresh_interval a = Some i \<and> i \<le> 0)"
    and begun: "\<And>i. refresh_interval a = Some i \<Longrightarrow> \<exists>pks tp v. a = TokenGo NotYet pks i tp v"
  have w: "waits ls p"
    using waits_run [OF assms(8)] p0 by simp
  have "Crash \<notin> set ls" if "\<not> short_expiry M args"
    using safe_run [OF assms(3,6,7,8)] assms(4,5) p0 short that by (fastforce simp: api_world_def)
  with w have "\<forall>code. mainPhase p = Ended code \<longrightarrow>
        code = 0 \<and> (\<exists>s. Signal s \<in> set ls) \<or> code = 2 \<and> short_expiry M args"
      "stopClosed p \<longrightarrow> (\<exists>s. Signal s \<in> set ls)"
    by (auto simp: waits_def split: main_phase.splits)
  moreover have "\<exists>p'. main_run ?go p [Receive, Exit] p' \<and> mainPhase p' = Ended 0 \<and> goroutines p' = goroutines p"
    if "mainPhase p = Waiting" "\<exists>s. Signal s \<in> set ls"
  proof -
    have "sigTerm p \<noteq> None"
      using w that by (simp add: waits_def)
    then obtain s where "sigTerm p = Some s" by blast
    from receive_and_exit [OF that(1) this] show ?thesis by fastforce
  qed
  moreover have "\<exists>p'. main_run ?go p0 [Crash] p' \<and> mainPhase p' = Ended 2" if expiry: "short_expiry M args"
  proof -
    obtain i where i: "refresh_interval a = Some i" "i \<le> 0"
      using expiry short by blast
    from begun [OF i(1)] obtain pks tp v where "a = TokenGo NotYet pks i tp v" by blast
    with p0 show ?thesis by (intro refresh_crash [OF i(2)]) simp_all
  qed
  ultimately show ?thesis by blast
qed

text \<open>The process of the default command line, where a signal arrives while an item waits in the queue.\<close>

lemma demo_world_typed: "cluster_typed u demo_world"
  by (simp add: cluster_typed_def table_typed_def demo_zms_def well_formed_def demo_data_def filterable_def roles_set_def)

lemma process_ends_by_signal_witness:
  "\<exists>u p0 p p'. main_start demo_main demo_world [] = Running (u, p0) \<and>
     main_run (program_go demo_main u demo_keyf demo_keyf (retry_upto 3) demo_backoff (\<lambda>w w'. False))
       p0 [Signal SIGTERM] p \<and>
     main_run (program_go demo_main u demo_keyf demo_keyf (retry_upto 3) demo_backoff (\<lambda>w w'. False))
       p [Receive, Exit] p' \<and> mainPhase p' = Ended 0 \<and> goroutines p' = goroutines p"
proof -
  obtain logger cs auth ctl where "main_setup demo_main [] = Running (logger, cs, auth, ctl)"
    using demo_main_starts by blast
  then obtain u p0 where m: "main_start demo_main demo_world [] = Running (u, p0)" "mainPhase p0 = Waiting"
    by (simp add: main_start_def)
  have e: "controllerEnv demo_main = demo_env" and k: "klog_apart (klogFlags demo_main)"
    by (simp_all add: demo_main_def demo_klog_apart)
  let ?go = "program_go demo_main u demo_keyf demo_keyf (retry_upto 3) demo_backoff (\<lambda>w w'. False)"
  let ?p = "p0\<lparr>sigTerm := (case sigTerm p0 of None \<Rightarrow> Some SIGTERM | Some old \<Rightarrow> Some old)\<rparr>"
  have r: "main_run ?go p0 ([] @ [Signal SIGTERM]) ?p"
    by (rule main_run.move [OF main_run.stay main_step.signal]) (simp add: m(2))
  have t: "typed_program (controllerEnv demo_main) cluster_crs u (cluster_typed u)"
    unfolding e by (rule cluster.typed_program_axioms)
  have whole: "whole (cluster_crs demo_world)" "outside_whole (controllerEnv demo_main) cluster_crs (cluster_typed u) (\<lambda>w w'. False)"
    by (simp_all add: whole_def outside_whole_def)
  have "\<exists>p'. main_run ?go ?p [Receive, Exit] p' \<and> mainPhase p' = Ended 0 \<and> goroutines p' = goroutines ?p"
    using process_ends_by_signal [OF k m(1) t demo_world_typed whole(1) cluster.retry_notify_axioms whole(2) r] m(2)
    by simp
  then obtain p' where "main_run ?go ?p [Receive, Exit] p'" "mainPhase p' = Ended 0" "goroutines p' = goroutines ?p"
    by blast
  with m(1) r show ?thesis
    by (intro exI [of _ u] exI [of _ p0] exI [of _ ?p] exI [of _ p']) simp
qed

text \<open>
  C12.  Whatever the command line that \<^verbatim>\<open>main\<close> accepts, and through its whole life, the process
  keeps the custom resources consistent: in every state that the signals, the informers, the start of
  \<^verbatim>\<open>Run\<close>, the worker, the crons and the goroutines of the authentication reach, each carries the data of the domain it is
  named after, filtered as the command line asks, and an empty error message, as long as nobody
  else writes custom resources and they were so at the start.
\<close>

theorem program_keeps_resources:
  assumes "klog_apart (klogFlags M)" and "main_start M w args = Running (u, p0)"
    and "program_server (controllerEnv M) crs" and "retry_notify retry"
    and "\<And>w w'. outside w w' \<Longrightarrow> crs w' = crs w"
    and "main_run (program_go M u keyf delf retry b outside) p0 ls p"
    and "\<forall>n c. crs w n = Some c \<longrightarrow> consistent u n c"
  shows "\<exists>sts rest. args = command_line sts @ rest \<and> ends_flags rest \<and> u = main_util (given_flags sts) \<and>
    (\<forall>n c. crs (api_world p) n = Some c \<longrightarrow> consistent (main_util (given_flags sts)) n c)"
proof -
  obtain logger cs auth ctl where m: "main_setup M args = Running (logger, cs, auth, ctl)" "u = ctlUtil ctl"
      "api_world p0 = w"
    using assms(2) by (auto simp: main_start_def api_world_def)
  obtain fs where f: "main_flags (klogFlags M) args = Running fs" "main_controller M (flags_of fs) cs = Return (auth, ctl)"
    using main_setup_Running [OF assms(1) m(1)] by metis
  obtain sts rest where "args = command_line sts @ rest" "ends_flags rest" "flags_of fs = given_flags sts"
    using settings_given [OF assms(1) f(1)] by blast
  moreover from this have "u = main_util (given_flags sts)"
    using main_controller_configures(3) [OF f(2)] m(2) by simp
  moreover have "all_consistent u (crs (api_world p))"
  proof (rule consistent_run [OF assms(3,4) _ assms(6)])
    show "crs w' = crs w" if "outside w w'" for w w'
      using that by (rule assms(5))
    show "all_consistent u (crs (api_world p0))"
      unfolding m(3) by (rule assms(7))
  qed
  ultimately show ?thesis by metis
qed

text \<open>A command line that gives the utility object of the concrete environment.\<close>

definition demo_arguments :: "setting list" where
  "demo_arguments =
     [\<lparr>form = Joined, two_dashes = True, flagName = ''admin-domain'', flagText = ''admin.domain''\<rparr>,
      \<lparr>form = Apart, two_dashes = False, flagName = ''system-namespaces'', flagText = ''kube-system''\<rparr>,
      \<lparr>form = Joined, two_dashes = False, flagName = ''exclude-namespaces'', flagText = ''acceptance-test''\<rparr>]"

lemma demo_arguments_fit: "list_all (fits (main_formal demo_klog)) demo_arguments"
  by (simp add: demo_arguments_def fits_def form_fits_def proper_name_def main_formal_lookup [OF demo_klog_apart]
      main_vars_def)

lemma demo_given: "given_flags demo_arguments = default_flags\<lparr>adminDomainFlag := ''admin.domain'',
    systemNamespacesFlag := ''kube-system'', excludeNamespacesFlag := ''acceptance-test''\<rparr>"
  by (simp add: given_flags_def demo_arguments_def set_flag_def)

lemma demo_given_util: "main_util (given_flags demo_arguments) = demo_util"
proof -
  have "processList (Split ''kube-system'' CHR '','') [] = [''kube-system'']"
    "exclusionList (Split ''acceptance-test'' CHR '','') [] = [''acceptance-test'']"
    by code_simp+
  then show ?thesis
    by (simp add: demo_given main_util_def demo_util_def default_flags_def)
qed

lemma demo_process:
  "\<exists>c a. main_start demo_main demo_world (command_line demo_arguments) = Running (demo_util,
     \<lparr>mainPhase = Waiting, sigTerm = None, stopClosed = False, goroutines = ((Starting, c, demo_world), a)\<rparr>)"
proof -
  obtain cs where cs: "NewForConfig demo_client_lib (Some demo_config) = Return (Inr cs)"
    using demo_NewForConfig by blast
  obtain auth ctl where ctl: "main_controller demo_main (given_flags demo_arguments) cs = Return (auth, ctl)"
    using demo_main_controller [of "given_flags demo_arguments" cs] by (auto simp: demo_given default_flags_def)
  let ?fs = "fold apply_setting demo_arguments (main_formal demo_klog)"
  have f: "main_flags demo_klog (command_line demo_arguments) = Running ?fs"
    using Parse_settings [OF demo_arguments_fit, of "[]"]
    by (simp add: main_flags_eq [OF demo_klog_apart] ends_flags_def)
  note given = given_settings [OF demo_klog_apart demo_arguments_fit]
  have "\<exists>logger. main_setup demo_main (command_line demo_arguments) = Running (logger, cs, auth, ctl)"
    using main_setup_starts [of demo_main "command_line demo_arguments" ?fs demo_config cs auth ctl] cs ctl f
    by (simp add: demo_main_def demo_klog_apart given)
  then show ?thesis
    using main_controller_configures(3) [OF ctl] demo_given_util by (auto simp: main_start_def)
qed

lemma cluster_add_all:
  "\<exists>ks. ready (add_all (cluster_env z) ds w) = ready w @ ks"
  "objects (add_all (cluster_env z) ds w) = objects w" "crCache (add_all (cluster_env z) ds w) = crCache w"
  "namespaces (add_all (cluster_env z) ds w) = namespaces w" "zmsTable (add_all (cluster_env z) ds w) = zmsTable w"
proof -
  show "\<exists>ks. ready (add_all (cluster_env z) ds w) = ready w @ ks"
  proof (induction ds arbitrary: w)
    case (Cons d ds)
    from Cons.IH [of "cluster_add d w"] show ?case
      by (auto simp: cluster_add_def)
  qed simp
qed (induction ds arbitrary: w; simp add: cluster_add_def)+

lemma demo_working:
  "\<exists>c w. Run_start demo_env demo_util True (c0, demo_queued) = (Return True, c, w) \<and>
     (\<exists>ks. ready w = KeyString ''home.domain'' # ks) \<and> objects w = [] \<and> crCache w = [] \<and>
     namespaces w = [''home-domain''] \<and> zmsTable w = demo_zms"
proof -
  have "cr_List demo_env demo_queued = []"
    by (simp add: cluster_env_def demo_queued_simps)
  then show ?thesis
    using cluster_add_all [where w = demo_queued]
    by (simp add: Run_start_def GetLatestTimestamp_def AddAdminSystemDomains_eq demo_queued_ready demo_queued_simps
        del: filter.simps)
qed

lemma demo_first_item:
  assumes "ready w = KeyString ''home.domain'' # ks" "objects w = []" "crCache w = []" "namespaces w = [''home-domain'']"
    and "zmsTable w = demo_zms"
  shows "\<exists>w'. processNextItem demo_env demo_util w = (Return True, w') \<and> cluster_crs w' ''home.domain'' \<noteq> None"
proof -
  obtain w' where "sync demo_env demo_util ''home.domain'' (w\<lparr>ready := ks\<rparr>) = (Return None, w')"
      "cluster_crs w' ''home.domain'' \<noteq> None"
    using demo_sync [of "w\<lparr>ready := ks\<rparr>"] assms by auto
  then show ?thesis
    using assms(1) by (simp add: processNextItem_def process_key_def cluster_get_def)
qed

lemma program_keeps_resources_witness:
  "\<exists>p0 p c. main_start demo_main demo_world (command_line demo_arguments) = Running (demo_util, p0) \<and>
     main_run (program_go demo_main demo_util demo_keyf demo_keyf (retry_upto 3) demo_backoff (\<lambda>w w'. False))
       p0 [Goroutine, Goroutine, Goroutine] p \<and>
     cluster_crs (api_world p) ''home.domain'' = Some c \<and> consistent demo_util ''home.domain'' c"
proof -
  let ?cgo = "controller_go demo_env demo_util demo_keyf demo_keyf (retry_upto 3) demo_backoff (\<lambda>w w'. False)"
  let ?go = "program_go demo_main demo_util demo_keyf demo_keyf (retry_upto 3) demo_backoff (\<lambda>w w'. False)"
  have e: "controllerEnv demo_main = demo_env" and k: "klog_apart (klogFlags demo_main)"
    by (simp_all add: demo_main_def demo_klog_apart)
  obtain c0 a where m: "main_start demo_main demo_world (command_line demo_arguments) = Running (demo_util,
      \<lparr>mainPhase = Waiting, sigTerm = None, stopClosed = False, goroutines = ((Starting, c0, demo_world), a)\<rparr>)"
    using demo_process by blast
  define proc where "proc g = \<lparr>mainPhase = Waiting, sigTerm = None, stopClosed = False, goroutines = (g, a)\<rparr>"
    for g :: "unit cluster goroutines"
  have move: "main_run ?go p (ls @ [Goroutine]) (proc g')"
    if "main_run ?go p ls (proc g)" "?cgo False g (Return g')" for p ls g g'
    using main_run.move [OF that(1) main_step.goroutine [of "proc g" ?go "(g', a)"]]
      program_go.controller [of demo_main, unfolded e, OF that(2), of a] by (simp add: proc_def)
  obtain c w ks where w: "Run_start demo_env demo_util True (c0, demo_queued) = (Return True, c, w)"
      "ready w = KeyString ''home.domain'' # ks" "objects w = []" "crCache w = []" "namespaces w = [''home-domain'']"
      "zmsTable w = demo_zms"
    using demo_working by blast
  obtain w' cr where w': "processNextItem demo_env demo_util w = (Return True, w')" "cluster_crs w' ''home.domain'' = Some cr"
    using demo_first_item [OF w(2-6)] by auto
  have "?cgo False (Starting, c0, demo_world) (Return (Starting, c0, demo_queued))"
    unfolding demo_queued_def by (rule controller_go.namespace_event)
  from move [OF main_run.stay this]
  have "main_run ?go (proc (Starting, c0, demo_world)) [Goroutine] (proc (Starting, c0, demo_queued))" by simp
  moreover have "?cgo False (Starting, c0, demo_queued) (Return (Working, c, w))"
    using controller_go.start [OF w(1)] by simp
  ultimately have "main_run ?go (proc (Starting, c0, demo_world)) [Goroutine, Goroutine] (proc (Working, c, w))"
    using move by fastforce
  moreover have "?cgo False (Working, c, w) (Return (Working, c, w'))"
    using controller_go.worker [OF w'(1), where stopped = False] by simp
  ultimately have run: "main_run ?go (proc (Starting, c0, demo_world)) [Goroutine, Goroutine, Goroutine] (proc (Working, c, w'))"
    using move by fastforce
  have start: "\<forall>n c. cluster_crs demo_world n = Some c \<longrightarrow> consistent demo_util n c"
    by simp
  have server: "program_server (controllerEnv demo_main) cluster_crs"
    unfolding e by (rule cluster.program_server_axioms)
  note m' = m [folded proc_def]
  have "\<forall>n c. cluster_crs w' n = Some c \<longrightarrow> consistent demo_util n c"
    using program_keeps_resources [where crs = cluster_crs, OF k m' server cluster.retry_notify_axioms _ run start]
    by (fastforce simp: proc_def api_world_def)
  then have "consistent demo_util ''home.domain'' cr"
    using w'(2) by blast
  with m' run w'(2) show ?thesis
    by (intro exI [of _ "proc (Starting, c0, demo_world)"] exI [of _ "proc (Working, c, w')"] exI [of _ cr])
      (simp add: proc_def api_world_def)
qed

end
