(* ===== verification/Fake_Client.thy ===== *)
theory Fake_Client
  imports CR_Properties Clientset
begin

text \<open>
  The generated fake clientset that the tests of the controller run on:
  \<^verbatim>\<open>pkg/client/clientset/versioned/fake\<close> and
  \<^verbatim>\<open>typed/athenz/v1/fake\<close>.  It turns each call into an action and hands it to
  \<^verbatim>\<open>k8s.io/client-go/testing\<close>, which is a record of functions; its object tracker and its
  state are type parameters.
\<close>

section \<open>Actions\<close>

datatype 'x runtime_object =
  DomainObject "'x AthenzDomain" | DomainListObject "'x AthenzDomainList" | OtherObject

datatype 'x action =
    GetAction GroupVersionResource string
  | ListAction GroupVersionResource GroupVersionKind ListOptions
  | WatchAction GroupVersionResource ListOptions
  | CreateAction GroupVersionResource "'x AthenzDomain"
  | UpdateAction GroupVersionResource "'x AthenzDomain"
  | DeleteAction GroupVersionResource string
  | DeleteCollectionAction GroupVersionResource ListOptions
  | PatchAction GroupVersionResource string string string "string list"

fun action_resource :: "'x action \<Rightarrow> GroupVersionResource" where
  \<comment> \<open>\<open>action.GetResource()\<close>; all these actions are cluster-wide\<close>
  "action_resource (GetAction r n) = r"
| "action_resource (ListAction r k opts) = r"
| "action_resource (WatchAction r opts) = r"
| "action_resource (CreateAction r b) = r"
| "action_resource (UpdateAction r b) = r"
| "action_resource (DeleteAction r n) = r"
| "action_resource (DeleteCollectionAction r opts) = r"
| "action_resource (PatchAction r n pt data subs) = r"

text \<open>A reaction to a watch says whether it handled the action.\<close>

type_synonym 'x watch_reaction = "'x action \<Rightarrow> bool \<times> err option"

record ('s, 'tr, 'f, 'rx, 'l, 'x) testing_lib =
  NewObjectTracker :: "'s \<Rightarrow> 'tr"
  tracker_Add :: "'x runtime_object \<Rightarrow> 'tr \<Rightarrow> err option \<times> 'tr"
  tracker_Watch :: "'tr \<Rightarrow> GroupVersionResource \<Rightarrow> string \<Rightarrow> err option"
  ObjectReaction :: "'tr \<Rightarrow> 'rx"
  ZeroFake :: 'f
  AddReactor :: "string \<Rightarrow> string \<Rightarrow> 'rx \<Rightarrow> 'f \<Rightarrow> 'f"
  AddWatchReactor :: "string \<Rightarrow> 'x watch_reaction \<Rightarrow> 'f \<Rightarrow> 'f"
  Invokes :: "'x action \<Rightarrow> 'x runtime_object \<Rightarrow> 'f \<Rightarrow> ('x runtime_object option \<times> err option) \<times> 'f"
  InvokesWatch :: "'x action \<Rightarrow> 'f \<Rightarrow> err option \<times> 'f"
  ExtractLabel :: "ListOptions \<Rightarrow> 'l option" \<comment> \<open>the label selector of \<open>ExtractFromListOptions\<close>\<close>
  Everything :: 'l
  Matches :: "'l \<Rightarrow> ObjectMeta \<Rightarrow> bool" \<comment> \<open>the selector on the labels of an object\<close>

section \<open>The fake AthenzDomains\<close>

definition athenzdomainsResource :: GroupVersionResource where
  "athenzdomainsResource = \<lparr>gvrGroup = ''athenz'', gvrVersion = ''v1'', gvrResource = ''athenzdomains''\<rparr>"

definition athenzdomainsKind :: GroupVersionKind where
  "athenzdomainsKind = \<lparr>gvkGroup = ''athenz'', gvkVersion = ''v1'', gvkKind = ''AthenzDomain''\<rparr>"

definition zero_domain :: "'x AthenzDomain" where
  \<comment> \<open>\<open>AthenzDomain{}\<close>\<close>
  "zero_domain =
     \<lparr>typeMeta = ([], []), objectMeta = \<lparr>name = [], resourceVersion = [], metaRest = []\<rparr>,
      status = \<lparr>message = []\<rparr>, spec = \<lparr>signedDomain = \<lparr>domain = None, signature = [], keyId = []\<rparr>\<rparr>\<rparr>"

definition zero_list :: "'x AthenzDomainList" where
  "zero_list = \<lparr>listTypeMeta = ([], []), listMeta = [], items = None\<rparr>"

definition domain_result ::
    "('x runtime_object option \<times> err option) \<times> 'f \<Rightarrow> ('x AthenzDomain option \<times> err option) outcome \<times> 'f" where
  \<comment> \<open>the end of \<open>Get\<close>, \<open>Create\<close>, \<open>Update\<close> and \<open>Patch\<close>\<close>
  "domain_result r =
     (let ((obj, err), f) = r
      in (case obj of
            None \<Rightarrow> Return (None, err)
          | Some (DomainObject c) \<Rightarrow> Return (Some c, err)
          | Some _ \<Rightarrow> Panic BadTypeAssertion, f))"

definition fake_Get ::
    "('s, 'tr, 'f, 'rx, 'l, 'x) testing_lib \<Rightarrow> string \<Rightarrow> 'f \<Rightarrow> ('x AthenzDomain option \<times> err option) outcome \<times> 'f" where
  "fake_Get T nm f = domain_result (Invokes T (GetAction athenzdomainsResource nm) (DomainObject zero_domain) f)"

fun select_items ::
    "('s, 'tr, 'f, 'rx, 'l, 'x) testing_lib \<Rightarrow> 'l \<Rightarrow> 'x AthenzDomain list \<Rightarrow> 'x AthenzDomain slice \<Rightarrow> 'x AthenzDomain slice" where
  \<comment> \<open>the loop of \<open>List\<close>\<close>
  "select_items T label [] acc = acc"
| "select_items T label (item # rest) acc =
     (if Matches T label (objectMeta item) then select_items T label rest (append_slice acc item)
      else select_items T label rest acc)"

definition fake_List ::
    "('s, 'tr, 'f, 'rx, 'l, 'x) testing_lib \<Rightarrow> ListOptions \<Rightarrow> 'f \<Rightarrow>
      ('x AthenzDomainList option \<times> err option) outcome \<times> 'f" where
  "fake_List T opts f =
     (let ((obj, err), f) =
            Invokes T (ListAction athenzdomainsResource athenzdomainsKind opts) (DomainListObject zero_list) f
      in case obj of
           None \<Rightarrow> (Return (None, err), f)
         | Some ob \<Rightarrow>
             (let label = (case ExtractLabel T opts of None \<Rightarrow> Everything T | Some l \<Rightarrow> l)
              in case ob of
                   DomainListObject ls \<Rightarrow>
                     (Return (Some (zero_list\<lparr>listMeta := listMeta ls,
                                items := select_items T label (elems (items ls)) None\<rparr>), err), f)
                 | _ \<Rightarrow> (Panic BadTypeAssertion, f)))"

definition fake_Watch ::
    "('s, 'tr, 'f, 'rx, 'l, 'x) testing_lib \<Rightarrow> ListOptions \<Rightarrow> 'f \<Rightarrow> err option \<times> 'f" where
  "fake_Watch T opts f = InvokesWatch T (WatchAction athenzdomainsResource opts) f"

definition fake_Create ::
    "('s, 'tr, 'f, 'rx, 'l, 'x) testing_lib \<Rightarrow> 'x AthenzDomain \<Rightarrow> 'f \<Rightarrow>
      ('x AthenzDomain option \<times> err option) outcome \<times> 'f" where
  "fake_Create T athenzDomain f =
     domain_result (Invokes T (CreateAction athenzdomainsResource athenzDomain) (DomainObject zero_domain) f)"

definition fake_Update ::
    "('s, 'tr, 'f, 'rx, 'l, 'x) testing_lib \<Rightarrow> 'x AthenzDomain \<Rightarrow> 'f \<Rightarrow>
      ('x AthenzDomain option \<times> err option) outcome \<times> 'f" where
  "fake_Update T athenzDomain f =
     domain_result (Invokes T (UpdateAction athenzdomainsResource athenzDomain) (DomainObject zero_domain) f)"

definition fake_Delete ::
    "('s, 'tr, 'f, 'rx, 'l, 'x) testing_lib \<Rightarrow> string \<Rightarrow> 'f \<Rightarrow> err option \<times> 'f" where
  "fake_Delete T nm f =
     (let ((_, err), f) = Invokes T (DeleteAction athenzdomainsResource nm) (DomainObject zero_domain) f
      in (err, f))"

definition fake_DeleteCollection ::
    "('s, 'tr, 'f, 'rx, 'l, 'x) testing_lib \<Rightarrow> ListOptions \<Rightarrow> 'f \<Rightarrow> err option \<times> 'f" where
  "fake_DeleteCollection T listOpts f =
     (let action = DeleteCollectionAction athenzdomainsResource listOpts;
          ((_, err), f) = Invokes T action (DomainListObject zero_list) f
      in (err, f))"

definition fake_Patch ::
    "('s, 'tr, 'f, 'rx, 'l, 'x) testing_lib \<Rightarrow> string \<Rightarrow> string \<Rightarrow> string \<Rightarrow> string list \<Rightarrow> 'f \<Rightarrow>
      ('x AthenzDomain option \<times> err option) outcome \<times> 'f" where
  "fake_Patch T nm pt data subresources f =
     domain_result (Invokes T (PatchAction athenzdomainsResource nm pt data subresources)
       (DomainObject zero_domain) f)"

section \<open>The fake clientset\<close>

definition fake_init_scheme :: "'s scheme_lib \<Rightarrow> 's outcome" where
  "fake_init_scheme L =
     (let s = AddToGroupVersion L \<lparr>gvGroup = [], gvVersion = ''v1''\<rparr> (NewScheme L)
      in case build_scheme [v1_AddToScheme L] s of
           (Some e, s) \<Rightarrow> Panic (PanicError e)
         | (None, s) \<Rightarrow> Return s)"

record ('tr, 'f) fake_Clientset =
  csFake :: 'f
  csTracker :: 'tr

fun add_objects ::
    "('s, 'tr, 'f, 'rx, 'l, 'x) testing_lib \<Rightarrow> 'x runtime_object list \<Rightarrow> 'tr \<Rightarrow> 'tr outcome" where
  \<comment> \<open>the loop of \<open>NewSimpleClientset\<close>\<close>
  "add_objects T [] tr = Return tr"
| "add_objects T (obj # objs) tr =
     (case tracker_Add T obj tr of
        (Some e, tr) \<Rightarrow> Panic (PanicError e)
      | (None, tr) \<Rightarrow> add_objects T objs tr)"

definition watch_reactor ::
    "('s, 'tr, 'f, 'rx, 'l, 'x) testing_lib \<Rightarrow> 'tr \<Rightarrow> 'x watch_reaction" where
  "watch_reactor T tr action =
     (case tracker_Watch T tr (action_resource action) [] of
        Some e \<Rightarrow> (False, Some e)
      | None \<Rightarrow> (True, None))"

definition NewSimpleClientset ::
    "('s, 'tr, 'f, 'rx, 'l, 'x) testing_lib \<Rightarrow> 's \<Rightarrow> 'x runtime_object list \<Rightarrow> ('tr, 'f) fake_Clientset outcome" where
  "NewSimpleClientset T scheme objs =
     bind_outcome (add_objects T objs (NewObjectTracker T scheme)) (\<lambda>tr.
     let f = AddReactor T ''*'' ''*'' (ObjectReaction T tr) (ZeroFake T);
         f = AddWatchReactor T ''*'' (watch_reactor T tr) f
     in Return \<lparr>csFake = f, csTracker = tr\<rparr>)"

definition fake_Tracker :: "('tr, 'f) fake_Clientset \<Rightarrow> 'tr" where
  "fake_Tracker c = csTracker c"

text \<open>
  The fake client of the API group and the fake AthenzDomains hold a pointer to the fake of the
  clientset; here they are that fake.
\<close>

definition fake_AthenzV1 :: "('tr, 'f) fake_Clientset \<Rightarrow> 'f" where
  "fake_AthenzV1 c = csFake c"

definition fake_Discovery :: "('tr, 'f) fake_Clientset \<Rightarrow> 'f" where
  \<comment> \<open>the discovery client that \<open>NewSimpleClientset\<close> makes holds the same pointer\<close>
  "fake_Discovery c = csFake c"

definition fake_AthenzDomains :: "'f \<Rightarrow> 'f" where
  "fake_AthenzDomains c = c"

datatype 'r rest_interface = NilInterface | HoldsPointer "'r option"

definition fake_RESTClient :: "'r rest_interface" where
  \<comment> \<open>an interface that holds a nil pointer, which is not a nil interface\<close>
  "fake_RESTClient = HoldsPointer None"

section \<open>Listing\<close>

lemma select_items_eq:
  "select_items T label xs (slice_of acc) =
     slice_of (acc @ filter (\<lambda>i. Matches T label (objectMeta i)) xs)"
  by (induction xs arbitrary: acc) simp_all

lemma fake_List_selects:
  assumes "Invokes T (ListAction athenzdomainsResource athenzdomainsKind opts) (DomainListObject zero_list) f
    = ((Some (DomainListObject ls), err), f')" "ExtractLabel T opts = Some label"
  shows "\<exists>res. fake_List T opts f = (Return (Some res, err), f') \<and> listMeta res = listMeta ls \<and>
    elems (items res) = filter (\<lambda>i. Matches T label (objectMeta i)) (elems (items ls))"
  using assms select_items_eq [of T label _ "[]"] by (simp add: fake_List_def zero_list_def)

section \<open>The laws of the object tracker\<close>

text \<open>
  \<open>held\<close> reads the AthenzDomains of a tracker by resource and name, \<open>served\<close> those that a fake
  reacts with.  \<^verbatim>\<open>Add\<close> stores an object once for each group and version that the scheme of the
  tracker knows for its type, under a resource name guessed from its kind.  The reaction to a get
  looks the name up under the resource of the action, and the reaction to a create of a free name
  stores it there.
\<close>

locale object_tracker = scheme_registry L known
  for L :: "'s scheme_lib" and known +
  fixes T :: "('s, 'tr, 'f, 'rx, 'l, 'x) testing_lib"
    and plural :: "string \<Rightarrow> string"
    and scheme_of :: "'tr \<Rightarrow> 's"
    and held :: "'tr \<Rightarrow> GroupVersionResource \<times> string \<Rightarrow> 'x AthenzDomain option"
    and served :: "'f \<Rightarrow> GroupVersionResource \<times> string \<Rightarrow> 'x AthenzDomain option"
  assumes new_tracker: "scheme_of (NewObjectTracker T s) = s" "held (NewObjectTracker T s) rn = None"
    and add_held: "tracker_Add T (DomainObject b) tr = (None, tr') \<Longrightarrow>
      scheme_of tr' = scheme_of tr \<and>
      held tr' (r, n) =
        (if n = name (objectMeta b) \<and>
            r \<in> (\<lambda>gv. WithResource gv (plural ''AthenzDomain'')) ` known (scheme_of tr) TAthenzDomain
         then Some b else held tr (r, n))"
    and reacts: "served (AddWatchReactor T v wr (AddReactor T ''*'' ''*'' (ObjectReaction T tr) (ZeroFake T))) = held tr"
    and get_served: "fst (Invokes T (GetAction r n) dflt f) =
      (case served f (r, n) of None \<Rightarrow> (None, Some (Status NotFound)) | Some c \<Rightarrow> (Some (DomainObject c), None))"
    and create_served: "served f (r, name (objectMeta b)) = None \<Longrightarrow>
      \<exists>f'. Invokes T (CreateAction r b) dflt f = ((Some (DomainObject b), None), f') \<and>
        served f' = (served f)((r, name (objectMeta b)) \<mapsto> b)"
begin

lemma add_objects_held:
  assumes "add_objects T (map DomainObject bs) tr = Return tr'"
    "\<forall>gv \<in> known (scheme_of tr) TAthenzDomain. gvGroup gv \<noteq> gvrGroup r"
  shows "held tr' (r, n) = held tr (r, n)"
  using assms
proof (induction bs arbitrary: tr)
  case (Cons b bs)
  then obtain tr1 where tr1: "tracker_Add T (DomainObject b) tr = (None, tr1)"
      "add_objects T (map DomainObject bs) tr1 = Return tr'"
    by (auto split: prod.splits option.splits)
  have "r \<notin> (\<lambda>gv. WithResource gv (plural ''AthenzDomain'')) ` known (scheme_of tr) TAthenzDomain"
    using Cons.prems(2) by (auto simp: WithResource_def)
  then show ?case
    using add_held [OF tr1(1), of r n] Cons.IH [OF tr1(2)] Cons.prems(2) by auto
qed simp

lemma fake_Get_served:
  "fst (fake_Get T nm f) =
     (case served f (athenzdomainsResource, nm) of
        None \<Rightarrow> Return (None, Some (Status NotFound)) | Some c \<Rightarrow> Return (Some c, None))"
  using get_served [of athenzdomainsResource nm "DomainObject zero_domain" f]
  by (cases "Invokes T (GetAction athenzdomainsResource nm) (DomainObject zero_domain) f")
    (auto simp: fake_Get_def domain_result_def split: option.split)

lemma fake_Create_served:
  assumes "served f (athenzdomainsResource, name (objectMeta b)) = None"
  shows "\<exists>f'. fake_Create T b f = (Return (Some b, None), f') \<and>
    served f' = (served f)((athenzdomainsResource, name (objectMeta b)) \<mapsto> b)"
  using create_served [OF assms, of "DomainObject zero_domain"]
  by (auto simp: fake_Create_def domain_result_def)

lemma simple_clientset_empty:
  assumes "fake_init_scheme L = Return s" "NewSimpleClientset T s (map DomainObject bs) = Return cs"
  shows "served (fake_AthenzV1 cs) (athenzdomainsResource, n) = None"
proof -
  have "init_scheme L = Return s"
    using assms(1) by (simp add: fake_init_scheme_def init_scheme_def)
  then have "known s TAthenzDomain = {SchemeGroupVersion}"
    by (rule init_scheme_known) simp
  moreover obtain tr where "add_objects T (map DomainObject bs) (NewObjectTracker T s) = Return tr"
      "served (fake_AthenzV1 cs) = held tr"
    using assms(2) by (auto simp: NewSimpleClientset_def fake_AthenzV1_def Let_def reacts)
  ultimately show ?thesis
    using add_objects_held [of bs "NewObjectTracker T s" tr athenzdomainsResource n]
    by (simp add: new_tracker SchemeGroupVersion_def athenzdomainsResource_def)
qed

end

text \<open>A tracker as a scheme and a table; the fake reacts with the table.\<close>

definition table_testing ::
    "(go_type \<Rightarrow> GroupVersion set, (go_type \<Rightarrow> GroupVersion set) \<times> (GroupVersionResource \<times> string \<Rightarrow> 'x AthenzDomain option),
      GroupVersionResource \<times> string \<Rightarrow> 'x AthenzDomain option,
      GroupVersionResource \<times> string \<Rightarrow> 'x AthenzDomain option, unit, 'x) testing_lib" where
  "table_testing =
     \<lparr>NewObjectTracker = (\<lambda>s. (s, Map.empty)),
      tracker_Add = (\<lambda>ob (s, m). case ob of
         DomainObject b \<Rightarrow> (None, s, (\<lambda>(r, n). if n = name (objectMeta b) \<and>
            r \<in> (\<lambda>gv. WithResource gv ''athenzdomains'') ` s TAthenzDomain then Some b else m (r, n)))
       | _ \<Rightarrow> (Some (Plain ''no registered kinds''), s, m)),
      tracker_Watch = (\<lambda>tr r ns. None), ObjectReaction = snd, ZeroFake = Map.empty,
      AddReactor = (\<lambda>v r rx f. rx), AddWatchReactor = (\<lambda>r wr f. f),
      Invokes = (\<lambda>a dflt f. case a of
         GetAction r n \<Rightarrow> ((case f (r, n) of None \<Rightarrow> (None, Some (Status NotFound))
            | Some c \<Rightarrow> (Some (DomainObject c), None)), f)
       | CreateAction r b \<Rightarrow> (if f (r, name (objectMeta b)) = None
            then ((Some (DomainObject b), None), f((r, name (objectMeta b)) \<mapsto> b))
            else ((None, Some (Status AlreadyExists)), f))
       | UpdateAction r b \<Rightarrow> (if f (r, name (objectMeta b)) = None then ((None, Some (Status NotFound)), f)
            else ((Some (DomainObject b), None), f((r, name (objectMeta b)) \<mapsto> b)))
       | DeleteAction r n \<Rightarrow> (if f (r, n) = None then ((None, Some (Status NotFound)), f)
            else ((None, None), f((r, n) := None)))
       | _ \<Rightarrow> ((None, Some (Plain ''no reaction'')), f)),
      InvokesWatch = (\<lambda>a f. (None, f)), ExtractLabel = (\<lambda>opts. None), Everything = (), Matches = (\<lambda>l m. True)\<rparr>"

interpretation table: object_tracker map_scheme "\<lambda>s. s" table_testing "\<lambda>k. ''athenzdomains''" fst snd "\<lambda>f. f"
  by unfold_locales (auto simp: table_testing_def)

section \<open>Properties\<close>

text \<open>
  The fake clientset does not respond with the objects it is given.  A domain that is created
  through it is found afterwards; but the domains that are given to \<^verbatim>\<open>NewSimpleClientset\<close> are
  stored under the group \<^verbatim>\<open>athenz.io\<close> that the scheme registers, while the fake asks under
  the group \<^verbatim>\<open>athenz\<close>: none of them is found, and creating one of them again succeeds.
\<close>

theorem fake_misses_initial_objects:
  assumes "object_tracker L known T plural scheme_of held served"
    and "fake_init_scheme L = Return s" and "NewSimpleClientset T s (map DomainObject bs) = Return cs"
  shows "fst (fake_Get T nm (fake_AthenzDomains (fake_AthenzV1 cs))) = Return (None, Some (Status NotFound)) \<and>
    (\<exists>f. fake_Create T b (fake_AthenzDomains (fake_AthenzV1 cs)) = (Return (Some b, None), f) \<and>
       fst (fake_Get T (name (objectMeta b)) f) = Return (Some b, None))"
proof -
  note empty = object_tracker.simple_clientset_empty [OF assms]
  show ?thesis
    using object_tracker.fake_Create_served [OF assms(1) empty [of "name (objectMeta b)"]] empty
    by (auto simp: object_tracker.fake_Get_served [OF assms(1)] fake_AthenzDomains_def)
qed

lemma fake_misses_initial_objects_witness:
  "\<exists>s cs. fake_init_scheme map_scheme = Return s \<and>
     NewSimpleClientset table_testing s [DomainObject (new_cr ''home.domain'' demo_signed)] = Return cs \<and>
     fst (fake_Get table_testing ''home.domain'' (fake_AthenzDomains (fake_AthenzV1 cs))) = Return (None, Some (Status NotFound))"
proof -
  obtain s where s: "fake_init_scheme map_scheme = Return s"
    using map_scheme.init_scheme_returns by (auto simp: fake_init_scheme_def init_scheme_def)
  obtain cs where "NewSimpleClientset table_testing s (map DomainObject [new_cr ''home.domain'' demo_signed]) = Return cs"
    by (auto simp: NewSimpleClientset_def table_testing_def Let_def)
  with fake_misses_initial_objects [OF table.object_tracker_axioms s this] s show ?thesis by simp
qed

end
