(* ===== verification/Domain_Interface.thy ===== *)
theory Domain_Interface
  imports Fake_Client
begin

text \<open>
  The interface of the AthenzDomain clients, \<^verbatim>\<open>AthenzDomainInterface\<close>, with its two
  implementations: the generated client on top of the REST transport and the fake on top of the testing
  library.  Both meet one contract of a store, and clients of stores that meet it cannot tell them apart.
\<close>

section \<open>The interface\<close>

type_synonym ('s, 'x) domain_method = "'s \<Rightarrow> ('x AthenzDomain option \<times> err option) outcome \<times> 's"

record ('s, 'x) AthenzDomainInterface =
  Create :: "'x AthenzDomain \<Rightarrow> string \<Rightarrow> ('s, 'x) domain_method"
  Update :: "'x AthenzDomain \<Rightarrow> string \<Rightarrow> ('s, 'x) domain_method"
  Delete :: "string \<Rightarrow> string \<Rightarrow> 's \<Rightarrow> err option \<times> 's"
  DeleteCollection :: "string \<Rightarrow> ListOptions \<Rightarrow> 's \<Rightarrow> err option \<times> 's"
  Get :: "string \<Rightarrow> string \<Rightarrow> ('s, 'x) domain_method"
  List :: "ListOptions \<Rightarrow> 's \<Rightarrow> ('x AthenzDomainList option \<times> err option) outcome \<times> 's"
  Watch :: "ListOptions \<Rightarrow> 's \<Rightarrow> err option \<times> 's"
  Patch :: "string \<Rightarrow> string \<Rightarrow> string \<Rightarrow> string \<Rightarrow> string list \<Rightarrow> ('s, 'x) domain_method"

definition pointed :: "('a \<times> err option) \<times> 'w \<Rightarrow> ('a option \<times> err option) outcome \<times> 'w" where
  \<comment> \<open>the generated client returns a pointer to its result, also with an error\<close>
  "pointed r = (let ((res, err), w) = r in (Return (Some res, err), w))"

definition real_domains :: "('w, 'x) env \<Rightarrow> ('w, 'x) AthenzDomainInterface" where
  "real_domains E =
     \<lparr>Create = (\<lambda>b opts w. pointed (client_Create E b opts w)),
      Update = (\<lambda>b opts w. pointed (client_Update E b opts w)),
      Delete = client_Delete E,
      DeleteCollection = client_DeleteCollection E,
      Get = (\<lambda>n opts w. pointed (client_Get E n opts w)),
      List = (\<lambda>opts w. pointed (client_List E opts w)),
      Watch = client_Watch E,
      Patch = (\<lambda>n pt data opts subs w. pointed (client_Patch E n pt data opts subs w))\<rparr>"

definition fake_domains :: "('s, 'tr, 'f, 'rx, 'l, 'x) testing_lib \<Rightarrow> ('f, 'x) AthenzDomainInterface" where
  \<comment> \<open>the options of a write are not looked at\<close>
  "fake_domains T =
     \<lparr>Create = (\<lambda>b opts. fake_Create T b),
      Update = (\<lambda>b opts. fake_Update T b),
      Delete = (\<lambda>n opts. fake_Delete T n),
      DeleteCollection = (\<lambda>opts. fake_DeleteCollection T),
      Get = (\<lambda>n opts. fake_Get T n),
      List = fake_List T,
      Watch = fake_Watch T,
      Patch = (\<lambda>n pt data opts subs. fake_Patch T n pt data subs)\<rparr>"

section \<open>Clients\<close>

text \<open>
  A client makes calls and looks at the answers: an error, or the name, status and spec of the object.
  It updates an object as \<^verbatim>\<open>updateCR\<close> does, with the resource version of the object that
  is there; here it gets that object first, where \<^verbatim>\<open>updateCR\<close> takes it from the cache.
\<close>

datatype 'x call =
  CallCreate "'x AthenzDomain" | CallUpdate "'x AthenzDomain" | CallDelete string | CallGet string

fun perform :: "('s, 'x) AthenzDomainInterface \<Rightarrow> 'x call \<Rightarrow> ('s, 'x) domain_method" where
  "perform D (CallCreate b) s = Create D b [] s"
| "perform D (CallUpdate b) s =
     (case Get D (name (objectMeta b)) [] s of
        (Return (Some old, None), s) \<Rightarrow> Update D (with_version old b) [] s
      | (r, s) \<Rightarrow> (r, s))"
| "perform D (CallDelete n) s = (let (err, s) = Delete D n [] s in (Return (None, err), s))"
| "perform D (CallGet n) s = Get D n [] s"

definition payload :: "'x AthenzDomain \<Rightarrow> string \<times> AthenzDomainStatus \<times> 'x AthenzDomainSpec" where
  "payload c = (name (objectMeta c), status c, spec c)"

fun seen ::
    "('x AthenzDomain option \<times> err option) outcome \<Rightarrow>
      (err + (string \<times> AthenzDomainStatus \<times> 'x AthenzDomainSpec) option) outcome" where
  "seen (Panic p) = Panic p"
| "seen (Return (res, Some e)) = Return (Inl e)"
| "seen (Return (res, None)) = Return (Inr (map_option payload res))"

fun run_calls where
  "run_calls D [] s = []"
| "run_calls D (c # cs) s = (let (r, s) = perform D c s in seen r # run_calls D cs s)"

text \<open>
  The names that a request may carry, and the calls that are in order: \<open>accepted\<close> objects pass the
  validation of the server and have no finalizers, an object to be created has no resource version.
\<close>

definition path_segment :: "string \<Rightarrow> bool" where
  "path_segment n \<longleftrightarrow> n \<notin> {[], ''.'', ''..''} \<and> CHR ''/'' \<notin> set n \<and> CHR ''%'' \<notin> set n"

fun in_order :: "('x AthenzDomain \<Rightarrow> bool) \<Rightarrow> 'x call \<Rightarrow> bool" where
  "in_order accepted (CallCreate b) \<longleftrightarrow> accepted b \<and> resourceVersion (objectMeta b) = []"
| "in_order accepted (CallUpdate b) \<longleftrightarrow> accepted b"
| "in_order accepted (CallDelete n) \<longleftrightarrow> path_segment n"
| "in_order accepted (CallGet n) \<longleftrightarrow> path_segment n"

lemma payload_stored: "payload c = payload b \<longleftrightarrow> stored_as b c"
  by (auto simp: payload_def stored_as_def)

lemma stored_with_version [simp]: "stored_as (with_version old b) c = stored_as b c"
  by (simp add: stored_as_def)

section \<open>The contract of a store\<close>

text \<open>
  The objects that a validation accepts have names that a request may carry; the resource version is not
  a part of what is validated.
\<close>

locale validation =
  fixes accepted :: "'x AthenzDomain \<Rightarrow> bool"
  assumes accepted_name: "accepted b \<Longrightarrow> path_segment (name (objectMeta b))"
    and accepted_version: "accepted (with_version old b) = accepted b"

text \<open>
  \<open>stored\<close> reads the objects of a store by name.  Every call that is in order is answered, and it fails
  only when the object is there that should not be, or the other way round.  An update carries the
  resource version of the object that is there.
\<close>

locale reliable_store = validation accepted
  for accepted :: "'x AthenzDomain \<Rightarrow> bool" +
  fixes D :: "('s, 'x) AthenzDomainInterface"
    and stored :: "'s \<Rightarrow> string \<Rightarrow> 'x AthenzDomain option"
  assumes create_free: "accepted b \<Longrightarrow> resourceVersion (objectMeta b) = [] \<Longrightarrow> stored s (name (objectMeta b)) = None \<Longrightarrow>
      \<exists>c s'. Create D b [] s = (Return (Some c, None), s') \<and> stored_as b c \<and> accepted c \<and>
        stored s' = (stored s)(name (objectMeta b) \<mapsto> c)"
    and create_used: "accepted b \<Longrightarrow> resourceVersion (objectMeta b) = [] \<Longrightarrow> stored s (name (objectMeta b)) \<noteq> None \<Longrightarrow>
      \<exists>res s'. Create D b [] s = (Return (res, Some (Status AlreadyExists)), s') \<and> stored s' = stored s"
    and update_held: "accepted b \<Longrightarrow> stored s (name (objectMeta b)) = Some old \<Longrightarrow>
      \<exists>c s'. Update D (with_version old b) [] s = (Return (Some c, None), s') \<and> stored_as b c \<and> accepted c \<and>
        stored s' = (stored s)(name (objectMeta b) \<mapsto> c)"
    and delete_held: "path_segment n \<Longrightarrow> stored s n = Some c \<Longrightarrow> accepted c \<Longrightarrow>
      \<exists>s'. Delete D n [] s = (None, s') \<and> stored s' = (stored s)(n := None)"
    and delete_absent: "path_segment n \<Longrightarrow> stored s n = None \<Longrightarrow>
      \<exists>s'. Delete D n [] s = (Some (Status NotFound), s') \<and> stored s' = stored s"
    and get_held: "path_segment n \<Longrightarrow> stored s n = Some c \<Longrightarrow>
      \<exists>s'. Get D n [] s = (Return (Some c, None), s') \<and> stored s' = stored s"
    and get_absent: "path_segment n \<Longrightarrow> stored s n = None \<Longrightarrow>
      \<exists>res s'. Get D n [] s = (Return (res, Some (Status NotFound)), s') \<and> stored s' = stored s"
begin

definition all_accepted :: "'s \<Rightarrow> bool" where
  "all_accepted s \<longleftrightarrow> (\<forall>n c. stored s n = Some c \<longrightarrow> accepted c)"

text \<open>The answer to a call and the objects afterwards, up to what the server adds to them.\<close>

lemma perform_answer:
  assumes "in_order accepted call" and "all_accepted s" and "perform D call s = (r, s')"
  shows "case call of
      CallCreate b \<Rightarrow>
        if stored s (name (objectMeta b)) = None
        then seen r = Return (Inr (Some (payload b))) \<and>
          (\<exists>c. stored_as b c \<and> accepted c \<and> stored s' = (stored s)(name (objectMeta b) \<mapsto> c))
        else seen r = Return (Inl (Status AlreadyExists)) \<and> stored s' = stored s
    | CallUpdate b \<Rightarrow>
        if stored s (name (objectMeta b)) = None
        then seen r = Return (Inl (Status NotFound)) \<and> stored s' = stored s
        else seen r = Return (Inr (Some (payload b))) \<and>
          (\<exists>c. stored_as b c \<and> accepted c \<and> stored s' = (stored s)(name (objectMeta b) \<mapsto> c))
    | CallDelete n \<Rightarrow>
        if stored s n = None then seen r = Return (Inl (Status NotFound)) \<and> stored s' = stored s
        else seen r = Return (Inr None) \<and> stored s' = (stored s)(n := None)
    | CallGet n \<Rightarrow>
        (case stored s n of
           None \<Rightarrow> seen r = Return (Inl (Status NotFound)) \<and> stored s' = stored s
         | Some c \<Rightarrow> seen r = Return (Inr (Some (payload c))) \<and> stored s' = stored s)"
proof (cases call)
  case (CallCreate b)
  with assms create_free [of b s] create_used [of b s] payload_stored [of _ b] show ?thesis
    by (cases "stored s (name (objectMeta b))") auto
next
  case (CallUpdate b)
  show ?thesis
  proof (cases "stored s (name (objectMeta b))")
    case None
    with CallUpdate assms accepted_name [of b] get_absent [of "name (objectMeta b)" s] show ?thesis
      by (auto split: option.splits)
  next
    case (Some old)
    then obtain s1 where "Get D (name (objectMeta b)) [] s = (Return (Some old, None), s1)" "stored s1 = stored s"
      using CallUpdate assms(1) accepted_name [of b] get_held [of "name (objectMeta b)" s old] by auto
    with Some CallUpdate assms update_held [of b s1 old] payload_stored [of _ b] show ?thesis by auto
  qed
next
  case (CallDelete n)
  with assms delete_held [of n s] delete_absent [of n s] show ?thesis
    by (cases "stored s n") (auto simp: all_accepted_def)
next
  case (CallGet n)
  with assms get_held [of n s] get_absent [of n s] show ?thesis
    by (cases "stored s n") auto
qed

lemma perform_accepted:
  assumes "in_order accepted call" and "all_accepted s" and "perform D call s = (r, s')"
  shows "all_accepted s'"
  using perform_answer [OF assms] assms(2)
  by (cases call) (auto simp: all_accepted_def split: if_splits option.splits)

end

text \<open>
  Two stores that hold the same names, each with the same status and spec, are alike.  Calls keep them
  alike and are answered alike.
\<close>

locale two_stores =
  one: reliable_store accepted D stored + two: reliable_store accepted D' stored'
  for accepted :: "'x AthenzDomain \<Rightarrow> bool"
    and D :: "('s, 'x) AthenzDomainInterface" and stored :: "'s \<Rightarrow> string \<Rightarrow> 'x AthenzDomain option"
    and D' :: "('t, 'x) AthenzDomainInterface" and stored' :: "'t \<Rightarrow> string \<Rightarrow> 'x AthenzDomain option"
begin

definition same_payloads :: "'s \<Rightarrow> 't \<Rightarrow> bool" where
  "same_payloads s t \<longleftrightarrow> (\<forall>n. map_option payload (stored s n) = map_option payload (stored' t n))"

definition alike :: "'s \<Rightarrow> 't \<Rightarrow> bool" where
  "alike s t \<longleftrightarrow> same_payloads s t \<and> one.all_accepted s \<and> two.all_accepted t"

lemma same_names: "same_payloads s t \<Longrightarrow> stored s n = None \<longleftrightarrow> stored' t n = None"
  unfolding same_payloads_def by (metis map_option_is_None)

lemma empty_alike:
  "(\<And>n. stored s n = None) \<Longrightarrow> (\<And>n. stored' t n = None) \<Longrightarrow> alike s t"
  by (simp add: alike_def same_payloads_def one.all_accepted_def two.all_accepted_def)

lemma perform_same:
  assumes "alike s t" "in_order accepted call" "perform D call s = (r, s')" "perform D' call t = (r', t')"
  shows "seen r = seen r' \<and> same_payloads s' t'"
proof -
  have same: "same_payloads s t" and ok: "one.all_accepted s" "two.all_accepted t"
    using assms(1) by (simp_all add: alike_def)
  note answers = one.perform_answer [OF assms(2) ok(1) assms(3)] two.perform_answer [OF assms(2) ok(2) assms(4)]
  show ?thesis
  proof (cases call)
    case (CallCreate b)
    with answers same_names [OF same, of "name (objectMeta b)"] same show ?thesis
      by (cases "stored s (name (objectMeta b)) = None") (auto simp: same_payloads_def payload_stored [symmetric])
  next
    case (CallUpdate b)
    with answers same_names [OF same, of "name (objectMeta b)"] same show ?thesis
      by (cases "stored s (name (objectMeta b)) = None") (auto simp: same_payloads_def payload_stored [symmetric])
  next
    case (CallDelete n)
    with answers same_names [OF same, of n] same show ?thesis
      by (cases "stored s n = None") (auto simp: same_payloads_def)
  next
    case (CallGet n)
    have "map_option payload (stored s n) = map_option payload (stored' t n)"
      using same by (simp add: same_payloads_def)
    with CallGet answers same show ?thesis
      by (cases "stored s n"; cases "stored' t n") (auto simp: same_payloads_def)
  qed
qed

lemma perform_alike:
  assumes "alike s t" "in_order accepted call" "perform D call s = (r, s')" "perform D' call t = (r', t')"
  shows "seen r = seen r' \<and> alike s' t'"
  using perform_same [OF assms] assms one.perform_accepted [OF assms(2) _ assms(3)]
    two.perform_accepted [OF assms(2) _ assms(4)] by (simp add: alike_def)

lemma run_calls_alike:
  assumes "alike s t" "list_all (in_order accepted) cs"
  shows "run_calls D cs s = run_calls D' cs t"
  using assms
proof (induction cs arbitrary: s t)
  case (Cons c cs)
  obtain r s' r' t' where "perform D c s = (r, s')" "perform D' c t = (r', t')"
    by (cases "perform D c s", cases "perform D' c t")
  with perform_alike [OF Cons.prems(1) _ this] Cons show ?case by simp
qed simp

end

section \<open>The two implementations\<close>

text \<open>
  An API server that is reachable: every request that is in order is carried out, or refused for its
  reason.  An update is carried out when it has the resource version of the object that is there.
\<close>

locale reliable_server = domain_server E crs + validation accepted
  for E :: "('w, 'x) env" and crs and accepted +
  assumes create_carried: "accepted b \<Longrightarrow> resourceVersion (objectMeta b) = [] \<Longrightarrow> crs w (name (objectMeta b)) = None \<Longrightarrow>
      \<exists>c w'. client_Create E b [] w = ((c, None), w') \<and> accepted c"
    and create_refused: "accepted b \<Longrightarrow> resourceVersion (objectMeta b) = [] \<Longrightarrow> crs w (name (objectMeta b)) \<noteq> None \<Longrightarrow>
      \<exists>c w'. client_Create E b [] w = ((c, Some (Status AlreadyExists)), w')"
    and update_carried: "accepted b \<Longrightarrow> crs w (name (objectMeta b)) = Some old \<Longrightarrow>
      resourceVersion (objectMeta b) = resourceVersion (objectMeta old) \<Longrightarrow>
      \<exists>c w'. client_Update E b [] w = ((c, None), w') \<and> accepted c"
    and delete_carried: "path_segment n \<Longrightarrow> crs w n = Some c \<Longrightarrow> accepted c \<Longrightarrow> \<exists>w'. client_Delete E n [] w = (None, w')"
    and delete_refused: "path_segment n \<Longrightarrow> crs w n = None \<Longrightarrow>
      \<exists>w'. client_Delete E n [] w = (Some (Status NotFound), w')"
    and get_carried: "path_segment n \<Longrightarrow> crs w n = Some c \<Longrightarrow>
      \<exists>w'. client_Get E n [] w = ((c, None), w') \<and> crs w' = crs w"
    and get_refused: "path_segment n \<Longrightarrow> crs w n = None \<Longrightarrow>
      \<exists>c w'. client_Get E n [] w = ((c, Some (Status NotFound)), w') \<and> crs w' = crs w"

sublocale reliable_server \<subseteq> reliable_store accepted "real_domains E" crs
proof (unfold_locales, goal_cases)
  case (1 b w)
  with create_carried [of b w] create_ok [of b "[]" w] show ?case
    by (force simp: real_domains_def pointed_def)
next
  case (2 b w)
  with create_refused [of b w] create_rejected [of b "[]" w] show ?case
    by (force simp: real_domains_def pointed_def)
next
  case (3 b w old)
  then obtain c w' where "client_Update E (with_version old b) [] w = ((c, None), w')" "accepted c"
    using update_carried [of "with_version old b" w old] accepted_version [of old b] by auto
  with update_ok [OF this(1)] show ?case
    by (simp add: real_domains_def pointed_def)
next
  case (4 n w c)
  with delete_carried [of n w c] delete_ok [of n "[]" w] show ?case
    by (force simp: real_domains_def)
next
  case (5 n w)
  with delete_refused [of n w] delete_rejected [of n "[]" w] show ?case
    by (force simp: real_domains_def)
next
  case (6 n w c)
  with get_carried [of n w c] show ?case by (force simp: real_domains_def pointed_def)
next
  case (7 n w)
  with get_refused [of n w] show ?case by (force simp: real_domains_def pointed_def)
qed

context reliable_server begin

lemma is_store: "reliable_store accepted (real_domains E) crs"
  by unfold_locales

end

text \<open>
  The reactions of the testing library to the other actions on its object tracker: a create or an
  update answers the object as it is stored, an error comes without an object.
\<close>

locale tracking_fake = object_tracker L known T plural scheme_of held served + validation accepted
  for L :: "'s scheme_lib" and known and T :: "('s, 'tr, 'f, 'rx, 'l, 'x) testing_lib"
    and plural scheme_of held served and accepted :: "'x AthenzDomain \<Rightarrow> bool" +
  assumes create_taken: "served f (r, name (objectMeta b)) \<noteq> None \<Longrightarrow>
      \<exists>f'. Invokes T (CreateAction r b) dflt f = ((None, Some (Status AlreadyExists)), f') \<and> served f' = served f"
    and update_kept: "served f (r, name (objectMeta b)) \<noteq> None \<Longrightarrow>
      \<exists>f'. Invokes T (UpdateAction r b) dflt f = ((Some (DomainObject b), None), f') \<and>
        served f' = (served f)((r, name (objectMeta b)) \<mapsto> b)"
    and delete_kept: "served f (r, n) \<noteq> None \<Longrightarrow>
      \<exists>f'. Invokes T (DeleteAction r n) dflt f = ((None, None), f') \<and> served f' = (served f)((r, n) := None)"
    and delete_missing: "served f (r, n) = None \<Longrightarrow>
      \<exists>f'. Invokes T (DeleteAction r n) dflt f = ((None, Some (Status NotFound)), f') \<and> served f' = served f"
    and get_frame: "served (snd (Invokes T (GetAction r n) dflt f)) = served f"
begin

lemma fake_Get_frame: "served (snd (fake_Get T n f)) = served f"
  by (simp add: fake_Get_def domain_result_def get_frame split_beta)

end

sublocale tracking_fake \<subseteq> reliable_store accepted "fake_domains T" "\<lambda>f n. served f (athenzdomainsResource, n)"
proof (unfold_locales, goal_cases)
  case (1 b f)
  from fake_Create_served [OF 1(3)] 1(1) show ?case by (auto simp: fake_domains_def stored_as_def fun_eq_iff)
next
  case (2 b f)
  from create_taken [OF 2(3), of "DomainObject zero_domain"] show ?case
    by (auto simp: fake_domains_def fake_Create_def domain_result_def fun_eq_iff)
next
  case (3 b f old)
  let ?b = "with_version old b"
  have "served f (athenzdomainsResource, name (objectMeta ?b)) \<noteq> None" "accepted ?b"
    using 3 by (simp_all add: accepted_version)
  from update_kept [OF this(1), of "DomainObject zero_domain"] this(2) show ?case
    by (auto simp: fake_domains_def fake_Update_def domain_result_def stored_as_def fun_eq_iff)
next
  case (4 n f c)
  then have "served f (athenzdomainsResource, n) \<noteq> None" by simp
  from delete_kept [OF this, of "DomainObject zero_domain"] show ?case
    by (auto simp: fake_domains_def fake_Delete_def fun_eq_iff)
next
  case (5 n f)
  from delete_missing [OF 5(2), of "DomainObject zero_domain"] show ?case
    by (auto simp: fake_domains_def fake_Delete_def fun_eq_iff)
next
  case (6 n f c)
  with fake_Get_served [of n f] fake_Get_frame [of n f] show ?case
    by (cases "fake_Get T n f") (simp add: fake_domains_def)
next
  case (7 n f)
  with fake_Get_served [of n f] fake_Get_frame [of n f] show ?case
    by (cases "fake_Get T n f") (simp add: fake_domains_def)
qed

context tracking_fake begin

lemma is_store: "reliable_store accepted (fake_domains T) (\<lambda>f n. served f (athenzdomainsResource, n))"
  by unfold_locales

end

section \<open>The concrete stores\<close>

definition well_named :: "'x AthenzDomain \<Rightarrow> bool" where
  \<comment> \<open>the validation of the concrete server\<close>
  "well_named b \<longleftrightarrow> path_segment (name (objectMeta b))"

interpretation named: validation well_named
  by unfold_locales (simp_all add: well_named_def)

lemma stored_well_named: "stored_as b c \<Longrightarrow> well_named c = well_named b"
  by (simp add: stored_as_def well_named_def)

lemma cluster_Get:
  "client_Get (cluster_env z) n opts w =
     (case cluster_crs w n of None \<Rightarrow> ((z, Some (Status NotFound)), w) | Some c \<Rightarrow> ((c, None), w))"
  by (simp add: client_Get_def cluster_env_def cluster_Into_def)

lemma cluster_writes:
  obtains c w' where "store_object b w = (c, w')" "well_named c = well_named b"
  using store_object_cases [of b w] stored_well_named by metis

interpretation cluster: reliable_server "cluster_env z" cluster_crs well_named for z
proof (unfold_locales, goal_cases)
  case (1 b w)
  then show ?case by (cases rule: cluster_writes [of b w]) (simp add: cluster_Create)
next
  case (3 b w old)
  then show ?case by (cases rule: cluster_writes [of b w]) (simp add: cluster_Update)
qed (auto simp: cluster_Create cluster_Delete cluster_Get)

interpretation table: tracking_fake map_scheme "\<lambda>s. s" table_testing "\<lambda>k. ''athenzdomains''" fst snd "\<lambda>f. f" well_named
  by unfold_locales (auto simp: table_testing_def split: option.split)

interpretation both: two_stores well_named "fake_domains table_testing" "\<lambda>f n. f (athenzdomainsResource, n)"
    "real_domains (cluster_env z)" cluster_crs for z
  by unfold_locales

section \<open>Properties\<close>

text \<open>
  C40.  The fake clientset is an API server without AthenzDomains.  Whatever objects it is made with, each
  sequence of creates, updates, deletes and gets is answered through it with the same errors and the same
  names, statuses and specs as through the generated client by an API server that is reachable and empty;
  so a test on the fake sees what the program sees.  The calls are those that a server does not refuse as
  malformed: objects that pass its validation and have no finalizers, created without a resource version
  and updated with the version of the object that is there, as \<^verbatim>\<open>updateCR\<close> does, and
  names that fit into the path of a request.
\<close>

theorem fake_is_empty_server:
  assumes "tracking_fake L known T plural scheme_of held served accepted" and "reliable_server E crs accepted"
    and "fake_init_scheme L = Return s" and "NewSimpleClientset T s (map DomainObject bs) = Return cs"
    and "\<And>n. crs w n = None" and "list_all (in_order accepted) calls"
  shows "run_calls (fake_domains T) calls (fake_AthenzDomains (fake_AthenzV1 cs)) =
    run_calls (real_domains E) calls w"
proof -
  have stores: "two_stores accepted (fake_domains T) (\<lambda>f n. served f (athenzdomainsResource, n)) (real_domains E) crs"
    by (rule two_stores.intro) (rule tracking_fake.is_store [OF assms(1)], rule reliable_server.is_store [OF assms(2)])
  have "two_stores.alike accepted (\<lambda>f n. served f (athenzdomainsResource, n)) crs (fake_AthenzDomains (fake_AthenzV1 cs)) w"
    using object_tracker.simple_clientset_empty [OF tracking_fake.axioms(1) [OF assms(1)] assms(3,4)] assms(5)
    by (intro two_stores.empty_alike [OF stores]) (simp_all add: fake_AthenzDomains_def)
  then show ?thesis
    using assms(6) by (rule two_stores.run_calls_alike [OF stores])
qed

lemma fake_is_empty_server_witness:
  "\<exists>s cs. fake_init_scheme map_scheme = Return s \<and>
     NewSimpleClientset table_testing s [DomainObject (new_cr ''home.domain'' demo_signed)] = Return cs \<and>
     run_calls (fake_domains table_testing)
       [CallGet ''home.domain'', CallCreate (new_cr ''home.domain'' demo_signed),
        CallUpdate (new_cr ''home.domain'' demo_signed), CallDelete ''home.domain'', CallDelete ''home.domain'']
       (fake_AthenzDomains (fake_AthenzV1 cs)) =
     [Return (Inl (Status NotFound)), Return (Inr (Some (payload (new_cr ''home.domain'' demo_signed)))),
      Return (Inr (Some (payload (new_cr ''home.domain'' demo_signed)))), Return (Inr None), Return (Inl (Status NotFound))]"
proof -
  let ?calls = "[CallGet ''home.domain'', CallCreate (new_cr ''home.domain'' demo_signed),
        CallUpdate (new_cr ''home.domain'' demo_signed), CallDelete ''home.domain'', CallDelete ''home.domain'']"
  obtain s where s: "fake_init_scheme map_scheme = Return s"
    using map_scheme.init_scheme_returns by (auto simp: fake_init_scheme_def init_scheme_def)
  obtain cs where cs: "NewSimpleClientset table_testing s (map DomainObject [new_cr ''home.domain'' demo_signed]) = Return cs"
    by (auto simp: NewSimpleClientset_def table_testing_def Let_def)
  have fit: "list_all (in_order well_named) ?calls"
    by (simp add: well_named_def path_segment_def)
  have "run_calls (real_domains demo_env) ?calls demo_world =
     [Return (Inl (Status NotFound)), Return (Inr (Some (payload (new_cr ''home.domain'' demo_signed)))),
      Return (Inr (Some (payload (new_cr ''home.domain'' demo_signed)))), Return (Inr None), Return (Inl (Status NotFound))]"
    by (simp add: real_domains_def pointed_def cluster_Create cluster_Update cluster_Delete cluster_Get store_object_def
        payload_def Let_def)
  with fake_is_empty_server [OF table.tracking_fake_axioms cluster.reliable_server_axioms s cs _ fit, of demo_world] s cs
  show ?thesis by auto
qed

end
