(* ===== verification/Test_Keys.thy ===== *)
theory Test_Keys
  imports Crypto Logging Go_Flag
begin

text \<open>
  The test support \<^verbatim>\<open>pkg/test\<close>: the key file that the tests of the token provider create.
  The random keys and the disk are a record of functions with a locale for their laws; a fatal log
  message ends the process.
\<close>

section \<open>Model\<close>

record ('w, 'r) test_lib =
  GenerateKey :: "int \<Rightarrow> 'w \<Rightarrow> (err + 'r) \<times> 'w" \<comment> \<open>\<open>rsa.GenerateKey(rand.Reader, bits)\<close>\<close>
  fileStat :: "'w \<Rightarrow> string \<Rightarrow> err option"
  isNotExist :: "err \<Rightarrow> bool"
  mkdirAll :: "string \<Rightarrow> int \<Rightarrow> 'w \<Rightarrow> err option \<times> 'w"
  fileCreate :: "string \<Rightarrow> 'w \<Rightarrow> err option \<times> 'w"
  pemEncode :: "string \<Rightarrow> string \<times> string \<Rightarrow> 'w \<Rightarrow> err option \<times> 'w" \<comment> \<open>\<open>pem.Encode\<close> to an open file\<close>
  fileClose :: "string \<Rightarrow> 'w \<Rightarrow> 'w"
  ioReadFile :: "'w \<Rightarrow> readFile"
  ioReadDir :: "'w \<Rightarrow> readDir"

definition keyFile :: string where
  "keyFile = ''secret-key.v0''"

definition Fatalf :: "'v Logger option \<Rightarrow> 'a run" where
  \<comment> \<open>\<open>log.Fatalf\<close>: a call on a nil logger panics; otherwise the process exits with code one\<close>
  "Fatalf log = (case log of None \<Rightarrow> Crashed NilDereference | Some l \<Rightarrow> Exited 1)"

definition savePEMKey ::
    "('w, 'r) test_lib \<Rightarrow> ('r, 'e) pem_lib \<Rightarrow> 'v Logger option \<Rightarrow> string \<Rightarrow> 'r \<Rightarrow> 'w \<Rightarrow> unit run \<times> 'w" where
  "savePEMKey T L log fileName key w =
     (let (err, w) = fileCreate T fileName w
      in case err of
           Some e \<Rightarrow> (Fatalf log, w)
         | None \<Rightarrow>
             (let privateKey = (''RSA PRIVATE KEY'', MarshalPKCS1PrivateKey L key);
                  (err, w) = pemEncode T fileName privateKey w
              in case err of
                   Some e \<Rightarrow> (Fatalf log, w)
                 | None \<Rightarrow> (Running (), fileClose T fileName w)))"

definition CreateKeyFile ::
    "('w, 'r) test_lib \<Rightarrow> ('r, 'e) pem_lib \<Rightarrow> 'v Logger option \<Rightarrow> string \<Rightarrow> 'w \<Rightarrow> string run \<times> 'w" where
  "CreateKeyFile T L log dir w =
     (let (res, w) = GenerateKey T 1024 w
      in case res of
           Inl e \<Rightarrow> (Fatalf log, w)
         | Inr priv \<Rightarrow>
             (let w = (case fileStat T w dir of
                         Some e \<Rightarrow> if isNotExist T e then snd (mkdirAll T dir 511 w) else w \<comment> \<open>\<open>os.ModePerm\<close>\<close>
                       | None \<Rightarrow> w);
                  (r, w) = savePEMKey T L log (dir @ keyFile) priv w
              in (bind_run r (\<lambda>_.
                   case ioReadFile T w (dir @ keyFile) of
                     Inl e \<Rightarrow> Fatalf log
                   | Inr keybytes \<Rightarrow> Running keybytes), w)))"

section \<open>The laws of the disk\<close>

text \<open>
  \<open>disk\<close> reads the directories, each with its entries by name: a file with its content, or a
  subdirectory.  A path names the entry of its base name in its directory.  Creating a file
  truncates it, encoding writes after what was written, \<^verbatim>\<open>MkdirAll\<close> makes at most an
  empty directory of the path it is given, and the text of a key is read back.
\<close>

locale key_disk =
  fixes T :: "('w, 'r) test_lib"
    and L :: "('r, 'e) pem_lib"
    and disk :: "'w \<Rightarrow> string \<Rightarrow> (string \<Rightarrow> string option option) option"
  assumes generated: "GenerateKey T bits w = (res, w') \<Longrightarrow> disk w' = disk w"
    and made: "disk w (Clean d) \<noteq> None \<Longrightarrow> disk (snd (mkdirAll T d m w)) (Clean d) = disk w (Clean d)"
      "disk w (Clean d) = None \<Longrightarrow> disk (snd (mkdirAll T d m w)) (Clean d) \<in> {None, Some Map.empty}"
    and created: "fileCreate T p w = (None, w') \<Longrightarrow>
      \<exists>fs. disk w (Dir p) = Some fs \<and> disk w' = (disk w)(Dir p \<mapsto> fs(Base p \<mapsto> Some []))"
    and encoded: "pemEncode T p block w = (None, w') \<Longrightarrow> disk w (Dir p) = Some fs \<Longrightarrow> fs (Base p) = Some (Some c) \<Longrightarrow>
      disk w' = (disk w)(Dir p \<mapsto> fs(Base p \<mapsto> Some (c @ pem_EncodeToMemory L block)))"
    and kept_on_close: "disk (fileClose T p w) = disk w"
    and listed: "disk w (Clean d) = Some fs \<Longrightarrow> \<exists>nms. ioReadDir T w d = Inr nms \<and> set nms = dom fs"
    and content: "p \<noteq> [] \<Longrightarrow> last p \<noteq> slash \<Longrightarrow> disk w (Dir p) = Some fs \<Longrightarrow> fs (Base p) = Some (Some c) \<Longrightarrow>
      ioReadFile T w p = Inr c"
    and block_back: "pem_Decode L (pem_EncodeToMemory L (''RSA PRIVATE KEY'', b)) = Some (''RSA PRIVATE KEY'', b)"
    and key_back: "ParsePKCS1PrivateKey L (MarshalPKCS1PrivateKey L k) = Inr k"
begin

lemma saved:
  assumes "savePEMKey T L log p k w = (Running (), w')"
  shows "\<exists>fs. disk w (Dir p) = Some fs \<and> disk w' = (disk w)(Dir p \<mapsto>
    fs(Base p \<mapsto> Some (pem_EncodeToMemory L (''RSA PRIVATE KEY'', MarshalPKCS1PrivateKey L k))))"
proof -
  let ?block = "(''RSA PRIVATE KEY'', MarshalPKCS1PrivateKey L k)"
  obtain w1 w2 where w: "fileCreate T p w = (None, w1)" "pemEncode T p ?block w1 = (None, w2)" "w' = fileClose T p w2"
    using assms by (auto simp: savePEMKey_def Fatalf_def split: prod.splits option.splits)
  obtain fs where fs: "disk w (Dir p) = Some fs" "disk w1 = (disk w)(Dir p \<mapsto> fs(Base p \<mapsto> Some []))"
    using created [OF w(1)] by blast
  have "disk w2 = (disk w1)(Dir p \<mapsto> (fs(Base p \<mapsto> Some []))(Base p \<mapsto> Some ([] @ pem_EncodeToMemory L ?block)))"
    by (rule encoded [OF w(2)]) (simp_all add: fs(2))
  with fs w(3) show ?thesis by (simp add: kept_on_close)
qed

lemma created_key:
  assumes "CreateKeyFile T L log (p @ [slash]) w = (Running bs, w')"
  shows "\<exists>k fs. fst (GenerateKey T 1024 w) = Inr k \<and>
    (\<forall>nm. fs nm \<noteq> None \<longrightarrow> (\<exists>fs0. disk w (Clean (p @ [slash])) = Some fs0 \<and> fs0 nm \<noteq> None)) \<and>
    bs = pem_EncodeToMemory L (''RSA PRIVATE KEY'', MarshalPKCS1PrivateKey L k) \<and>
    disk w' (Clean (p @ [slash])) = Some (fs(keyFile \<mapsto> Some bs))"
proof -
  let ?D = "Clean (p @ [slash])" and ?p = "p @ slash # keyFile"
  obtain k w1 w2 where k: "GenerateKey T 1024 w = (Inr k, w1)" "savePEMKey T L log ?p k w2 = (Running (), w')"
      and w2: "w2 = (case fileStat T w1 (p @ [slash]) of
        Some e \<Rightarrow> if isNotExist T e then snd (mkdirAll T (p @ [slash]) 511 w1) else w1 | None \<Rightarrow> w1)"
      and bs: "ioReadFile T w' ?p = Inr bs"
    using assms
    by (auto simp: CreateKeyFile_def Let_def Fatalf_def split: prod.splits sum.splits option.splits if_splits)
  have key: "slash \<notin> set keyFile" "keyFile \<noteq> []" "last keyFile \<noteq> slash"
    by (simp_all add: keyFile_def)
  have path: "Dir ?p = ?D" "Base ?p = keyFile"
    using Dir_file [OF key(1)] Base_append [OF key(1,2)] by blast+
  obtain fs where fs: "disk w2 ?D = Some fs" "disk w' = (disk w2)(?D \<mapsto> fs(keyFile \<mapsto>
      Some (pem_EncodeToMemory L (''RSA PRIVATE KEY'', MarshalPKCS1PrivateKey L k))))"
    using saved [OF k(2)] unfolding path by blast
  have "disk w2 ?D = disk w ?D \<or> fs = Map.empty"
    using made [of w1 "p @ [slash]" 511] fs(1) generated [OF k(1)] w2
    by (cases "disk w ?D") (auto split: option.splits if_splits)
  then have "disk w ?D = Some fs \<or> fs = Map.empty"
    using fs(1) by auto
  then have old: "\<forall>nm. fs nm \<noteq> None \<longrightarrow> (\<exists>fs0. disk w ?D = Some fs0 \<and> fs0 nm \<noteq> None)"
    by auto
  have "ioReadFile T w' ?p = Inr (pem_EncodeToMemory L (''RSA PRIVATE KEY'', MarshalPKCS1PrivateKey L k))"
    by (rule content [where fs = "fs(keyFile \<mapsto> _)"]) (simp_all add: key path fs(2))
  with bs k(1) old fs(2) show ?thesis by auto
qed

end

section \<open>A concrete disk\<close>

text \<open>
  The directories in an association list, each with its entries, the newest first; the key is
  always the same.
\<close>

type_synonym disk_table = "(string \<times> (string \<times> string option) list) list"

definition table_lib :: "'r \<Rightarrow> (string \<times> string \<Rightarrow> string) \<Rightarrow> (disk_table, 'r) test_lib" where
  "table_lib k enc =
     \<lparr>GenerateKey = (\<lambda>bits w. (Inr k, w)),
      fileStat = (\<lambda>w d. if map_of w (Clean d) = None then Some (Plain ''no such file'') else None),
      isNotExist = (\<lambda>e. e = Plain ''no such file''),
      mkdirAll = (\<lambda>d m w. (None, if map_of w (Clean d) = None then (Clean d, []) # w else w)),
      fileCreate = (\<lambda>p w. case map_of w (Dir p) of
         None \<Rightarrow> (Some (Plain ''no such directory''), w)
       | Some fs \<Rightarrow> (None, (Dir p, (Base p, Some []) # fs) # w)),
      pemEncode = (\<lambda>p block w. case map_of w (Dir p) of
         None \<Rightarrow> (Some (Plain ''closed''), w)
       | Some fs \<Rightarrow>
           (case map_of fs (Base p) of
              Some (Some c) \<Rightarrow> (None, (Dir p, (Base p, Some (c @ enc block)) # fs) # w)
            | _ \<Rightarrow> (Some (Plain ''closed''), w))),
      fileClose = (\<lambda>p w. w),
      ioReadFile = (\<lambda>w p. case map_of w (Dir p) of
         None \<Rightarrow> Inl (Plain ''no such directory'')
       | Some fs \<Rightarrow> (case map_of fs (Base p) of Some (Some c) \<Rightarrow> Inr c | _ \<Rightarrow> Inl (Plain ''no such file''))),
      ioReadDir = (\<lambda>w d. case map_of w (Clean d) of
         None \<Rightarrow> Inl (Plain ''no such directory'') | Some fs \<Rightarrow> Inr (map fst fs))\<rparr>"

interpretation disk_table: key_disk "table_lib k (pem_EncodeToMemory demo_pem)" demo_pem
    "\<lambda>w d. map_option map_of (map_of w d)" for k
proof (unfold_locales, goal_cases)
  case (7 w d fs)
  then show ?case
    by (auto simp: table_lib_def dom_map_of_conv_image_fst)
qed (auto simp: table_lib_def demo_pem_def fun_eq_iff split: option.splits if_splits)

section \<open>Properties\<close>

text \<open>
  The tests sign with the key they created: when \<^verbatim>\<open>CreateKeyFile\<close> returns, for a
  directory that is given with its final slash, the key source of that directory reads the new key back,
  as version zero of the secret, unless the directory held a later version before.
\<close>

theorem created_key_is_used:
  assumes "key_disk T L disk" and "sort_slice sortSlice"
    and "CreateKeyFile T L log (p @ ''/'') w = (Running bs, w')"
    and "\<And>fs nm n. disk w (Clean (p @ ''/'')) = Some fs \<Longrightarrow> fs nm \<noteq> None \<Longrightarrow>
      versioned \<lparr>vfDir = p @ ''/'', vfPrefix = ''secret-key''\<rparr> nm n \<Longrightarrow> n < 0 \<or> nm = ''secret-key.v0''"
  shows "\<exists>k. fst (GenerateKey T 1024 w) = Inr k \<and>
    bs = pem_EncodeToMemory L (''RSA PRIVATE KEY'', MarshalPKCS1PrivateKey L k) \<and>
    PrivateKeySource_SigningKey L (ioReadDir T w') (ioReadFile T w') sortSlice (NewPrivateKeySource (p @ ''/'') ''secret-key'') =
      Return (Inr \<lparr>URI = ''secret:secret-key?Version=v0'', keyType = RSA, keyValue = RSAKey k, keyVersion = ''v0''\<rparr>)"
proof -
  let ?v = "\<lparr>vfDir = p @ ''/'', vfPrefix = ''secret-key''\<rparr>"
  obtain k fs where k: "fst (GenerateKey T 1024 w) = Inr k"
      "\<forall>nm. fs nm \<noteq> None \<longrightarrow> (\<exists>fs0. disk w (Clean (p @ [slash])) = Some fs0 \<and> fs0 nm \<noteq> None)"
      "bs = pem_EncodeToMemory L (''RSA PRIVATE KEY'', MarshalPKCS1PrivateKey L k)"
      "disk w' (Clean (p @ [slash])) = Some (fs(keyFile \<mapsto> Some bs))"
    using key_disk.created_key [OF assms(1,3)] by metis
  obtain nms where nms: "ioReadDir T w' (vfDir ?v) = Inr nms" "set nms = insert keyFile (dom fs)"
    using key_disk.listed [OF assms(1) k(4)] unfolding dom_fun_upd by auto
  have zero: "versioned ?v keyFile n \<longleftrightarrow> n = 0" for n
  proof -
    have "Atoi ''0'' = Some 0" by code_simp
    then show ?thesis by (auto simp: versioned_def keyFile_def)
  qed
  obtain rest where l: "list_versions (ioReadDir T w') sortSlice ?v = Inr (fv_of ?v keyFile 0 # rest)"
    using assms(2) nms(1)
  proof (cases rule: list_versions_cases)
    case none
    with zero nms(2) show ?thesis by blast
  next
    case (some nm n rest)
    have "0 \<le> n"
      using some(3) zero nms(2) by blast
    have "nm = keyFile"
    proof (rule ccontr)
      assume ne: "nm \<noteq> keyFile"
      then have "fs nm \<noteq> None"
        using some(1) nms(2) by blast
      then obtain fs0 where "disk w (Clean (p @ ''/'')) = Some fs0" "fs0 nm \<noteq> None"
        using k(2) by blast
      from assms(4) [OF this some(2)] have "n < 0 \<or> nm = keyFile"
        unfolding keyFile_def .
      with ne \<open>0 \<le> n\<close> show False by simp
    qed
    moreover from this have "n = 0"
      using some(2) zero by simp
    ultimately show ?thesis
      using some(4) that by simp
  qed
  have key: "keyFile \<noteq> []" and plain: "plain keyFile"
    by (simp_all add: plain_def keyFile_def)
  note path = Clean_file [OF plain, of p]
  have "ioReadFile T w' (Join (p @ [slash]) keyFile) = Inr bs"
    unfolding Join_in_directory [OF key]
    by (rule key_disk.content [OF assms(1) Clean_nonempty path(3), where fs = "fs(keyFile \<mapsto> Some bs)"])
      (simp_all only: path k(4) fun_upd_same)
  moreover have "''v'' @ Itoa 0 = ''v0''"
    by code_simp
  ultimately show ?thesis
    using latest_of_list [OF l, of "ioReadFile T w'"] k(1,3) key_disk.block_back [OF assms(1)] key_disk.key_back [OF assms(1)]
    by (simp add: PrivateKeySource_SigningKey_def NewPrivateKeySource_def PrivateKeyFromPEMBytes_def secretURI_def)
qed

lemma created_key_is_used_witness:
  "\<exists>log T w'. log = fst (InitLogger line_log ''/tmp/log/test.log'' ''info'' []) \<and>
     T = table_lib ''k'' (pem_EncodeToMemory demo_pem) \<and>
     CreateKeyFile T demo_pem log ''./tmp/'' [] = (Running ''RSA PRIVATE KEY|k'', w') \<and>
     PrivateKeySource_SigningKey demo_pem (ioReadDir T w') (ioReadFile T w') insertionSort
       (NewPrivateKeySource ''./tmp/'' ''secret-key'') =
     Return (Inr \<lparr>URI = ''secret:secret-key?Version=v0'', keyType = RSA, keyValue = RSAKey ''k'', keyVersion = ''v0''\<rparr>)"
proof -
  let ?log = "fst (InitLogger line_log ''/tmp/log/test.log'' ''info'' [])"
    and ?T = "table_lib ''k'' (pem_EncodeToMemory demo_pem)"
  have paths: "Clean ''./tmp/'' = ''tmp''" "Dir ''./tmp/secret-key.v0'' = ''tmp''"
    "Base ''./tmp/secret-key.v0'' = ''secret-key.v0''"
    by code_simp+
  have "\<exists>w'. CreateKeyFile ?T demo_pem ?log (''./tmp'' @ ''/'') [] = (Running ''RSA PRIVATE KEY|k'', w')"
    by (simp add: CreateKeyFile_def savePEMKey_def table_lib_def demo_pem_def keyFile_def paths)
  then obtain w' where w': "CreateKeyFile ?T demo_pem ?log (''./tmp'' @ ''/'') [] = (Running ''RSA PRIVATE KEY|k'', w')"
    by blast
  have k: "fst (GenerateKey ?T 1024 w) = Inr ''k''" for w
    by (simp add: table_lib_def)
  show ?thesis
    using created_key_is_used [OF disk_table.key_disk_axioms insertion.sort_slice_axioms w'] w' k by simp
qed

end
