(* ===== verification/E2E_Framework.thy ===== *)
theory E2E_Framework
  imports Startup
begin

text \<open>
  The framework of the end-to-end tests, \<^verbatim>\<open>test/e2e/framework\<close>: its clients, made from the
  command line, what it removes when the tests are over, and the exit code of the test process.  The
  tests themselves are an argument, as are the clients of ZMS and of the cluster.
\<close>

section \<open>Model\<close>

record 'c test_zms =
  testURL :: string
  testCertificates :: "'c list"

record ('l, 'n, 'h, 'i, 'c) Framework =
  K8sClient :: "('l, 'n) rest_config" \<comment> \<open>the configuration it is made from\<close>
  ZMSClient :: "'c test_zms"
  CRClient :: "('h, 'i) CRUtil"
  RoleDomain :: string
  RoleName :: string
  TrustDomain :: string
  TrustRole :: string
  NamespaceDomain :: string
  MyUtil :: Util

text \<open>
  What the framework calls: the flags that the testing library has defined before
  \<^verbatim>\<open>TestMain\<close>, the libraries of the program, and the requests of the clean-up.
\<close>

record ('lv, 'lw, 'la, 'l, 'n, 'h, 'd, 'w, 'x, 'i, 'c) test_env =
  testFlags :: "(string \<times> FlagValue) list"
  testLog :: "('lv, 'lw, 'la) log_lib"
  testLogWorld :: 'lw
  testKube :: "('l, 'n, 'h, 'd) kube_lib"
  testInformers :: "('w, 'x, 'i) informer_lib"
  testEnv :: "('w, 'x) env" \<comment> \<open>of the AthenzDomain client and its informer\<close>
  cacheSynced :: bool \<comment> \<open>\<open>cache.WaitForCacheSync\<close>\<close>
  tls_LoadX509KeyPair :: "string \<Rightarrow> string \<Rightarrow> err + 'c"
  zms_DeleteRole :: "string \<Rightarrow> string \<Rightarrow> string \<Rightarrow> string \<Rightarrow> 'w \<Rightarrow> err option \<times> 'w"
  ns_Delete :: "string \<Rightarrow> string \<Rightarrow> 'w \<Rightarrow> err option \<times> 'w" \<comment> \<open>name and propagation policy\<close>

definition test_vars :: "(string \<times> FlagValue) list" where
  "test_vars =
     [(''kubeconfig'', StringValue []),
      (''inClusterConfig'', BoolValue True),
      (''key'', StringValue ''/var/run/athenz/service.key.pem''),
      (''cert'', StringValue ''/var/run/athenz/service.cert.pem''),
      (''zms-url'', StringValue []),
      (''log-location'', StringValue ''/var/log/k8s-athenz-syncer.log''),
      (''log-mode'', StringValue ''info''),
      (''e2e-test1-domain'', StringValue ''test-domain''),
      (''e2e-test1-role'', StringValue ''test-role''),
      (''e2e-test2-domain'', StringValue ''trust-domain''),
      (''e2e-test2-role'', StringValue ''test-trustrole''),
      (''e2e-test3-domain'', StringValue ''test-ns-domain'')]"

definition test_flags :: "(string \<times> FlagValue) list \<Rightarrow> string list \<Rightarrow> formal run" where
  \<comment> \<open>\<open>setup\<close> up to \<open>flag.Parse\<close>\<close>
  "test_flags defs args = bind_run (run_of (define_flags test_vars (map_of defs))) (\<lambda>fs. Parse fs args)"

definition test_kubeconfig :: "(string \<Rightarrow> string) \<Rightarrow> formal \<Rightarrow> string" where
  \<comment> \<open>\<open>kubeconfig\<close> after the defaults; \<open>filepath.Join\<close> of three elements that are not empty\<close>
  "test_kubeconfig environ fs =
     (let kubeconfig = string_var fs ''kubeconfig'' in
      if kubeconfig = [] then
        (if bool_var fs ''inClusterConfig'' then []
         else let home = HomeDir environ
              in if home \<noteq> [] then Clean (home @ ''/.kube/config'') else kubeconfig)
      else kubeconfig)"

definition setupZMSClient ::
    "(string \<Rightarrow> string \<Rightarrow> err + 'c) \<Rightarrow> string \<Rightarrow> string \<Rightarrow> string \<Rightarrow> err + 'c test_zms" where
  "setupZMSClient load keyPath certPath url =
     (case load certPath keyPath of
        Inl e \<Rightarrow> Inl (Wrapped ''Unable to formulate clientCert from key and cert bytes, error'' e)
      | Inr clientCert \<Rightarrow> Inr \<lparr>testURL = url, testCertificates = [clientCert]\<rparr>)"

definition setup_framework where
  \<comment> \<open>\<open>setup\<close> from the informer on, with the client of the custom resources at hand\<close>
  "setup_framework M fs cfg athenzClient =
     (let crIndexInformer = NewAthenzDomainInformer (testInformers M) (testEnv M) 0 Map.empty in
      if \<not> cacheSynced M then Return (Inl (Plain ''Error syncing cache''))
      else bind_outcome (NewCRUtil (Some athenzClient) crIndexInformer) (\<lambda>crutil.
        Return (case setupZMSClient (tls_LoadX509KeyPair M) (string_var fs ''key'')
                       (string_var fs ''cert'') (string_var fs ''zms-url'') of
                  Inl e \<Rightarrow> Inl e
                | Inr zmsclient \<Rightarrow>
                    Inr \<lparr>K8sClient = cfg, ZMSClient = zmsclient, CRClient = crutil,
                         RoleDomain = string_var fs ''e2e-test1-domain'',
                         RoleName = string_var fs ''e2e-test1-role'',
                         TrustDomain = string_var fs ''e2e-test2-domain'',
                         TrustRole = string_var fs ''e2e-test2-role'',
                         NamespaceDomain = string_var fs ''e2e-test3-domain'',
                         MyUtil = NewUtil [] [] [] False\<rparr>)))"

definition setup_clients where
  \<comment> \<open>\<open>setup\<close> after the flags are read and the logger is there: an error, or the framework\<close>
  "setup_clients M fs =
     (let K = testKube M in
      case BuildConfigFromFlags K (test_kubeconfig (getenv K) fs) of
        Inl e \<Rightarrow> Return (Inl e)
      | Inr cfg \<Rightarrow>
          (case kubernetes_NewForConfig K cfg of
             Some e \<Rightarrow> Return (Inl e)
           | None \<Rightarrow>
               bind_outcome (NewForConfig (clientLib K) (Some cfg)) (\<lambda>r.
                 case r of
                   Inl e \<Rightarrow> Return (Inl e)
                 | Inr athenzClient \<Rightarrow> setup_framework M fs cfg athenzClient)))"

definition test_setup where
  \<comment> \<open>\<open>setup\<close>: its error, and the variable \<open>Global\<close>, which is nil before\<close>
  "test_setup M args =
     bind_run (test_flags (testFlags M) args) (\<lambda>fs.
     let (logger, lw) = InitLogger (testLog M) (string_var fs ''log-location'') (string_var fs ''log-mode'') (testLogWorld M) in
     bind_run (run_of (setup_clients M fs)) (\<lambda>r.
       Running (case r of Inl e \<Rightarrow> (Some e, None) | Inr f \<Rightarrow> (None, Some f))))"

definition teardown where
  \<comment> \<open>the error or panic, \<open>Global\<close> and the world afterwards\<close>
  "teardown M Global w =
     (case Global of
        None \<Rightarrow> (Panic NilDereference, Global, w)
      | Some f \<Rightarrow>
          (let (err, w) = zms_DeleteRole M (RoleDomain f) (RoleName f) [] [] w in
           case err of
             Some e \<Rightarrow> (Return (Some e), Global, w)
           | None \<Rightarrow>
               (let (err, w) = zms_DeleteRole M (RoleDomain f) (TrustRole f) [] [] w in
                case err of
                  Some e \<Rightarrow> (Return (Some e), Global, w)
                | None \<Rightarrow>
                    (let (err, w) = RemoveAthenzDomain (testEnv M) (TrustDomain f) w in
                     case err of
                       Some e \<Rightarrow> (Return (Some e), Global, w)
                     | None \<Rightarrow>
                         (let nm = DomainToNamespace (MyUtil f) (NamespaceDomain f);
                              (err, w) = ns_Delete M nm ''Foreground'' w
                          in case err of
                               Some e \<Rightarrow> (Return (Some e), Global, w)
                             | None \<Rightarrow> (Return None, None, w))))))"

definition MainEntry where
  \<comment> \<open>\<open>tests\<close> is \<open>t.Run()\<close>, which reads \<open>Global\<close>; the process always exits, or crashes\<close>
  "MainEntry M args tests w =
     (case test_setup M args of
        Exited c \<Rightarrow> (Exited c :: unit run, w)
      | Crashed p \<Rightarrow> (Crashed p, w)
      | Running (Some e, Global) \<Rightarrow> (Exited 1, w)
      | Running (None, Global) \<Rightarrow>
          (let (code, w) = tests Global w;
               (r, Global, w) = teardown M Global w
           in case r of
                Panic p \<Rightarrow> (Crashed p, w)
              | Return (Some e) \<Rightarrow> (Exited 1, w)
              | Return None \<Rightarrow> (Exited code, w)))"

section \<open>The laws of the clean-up\<close>

text \<open>
  \<open>held\<close> are the roles that ZMS holds, by domain and name, \<open>live\<close> the namespaces that are not
  being deleted.  A request that succeeds removes what it names and nothing else.
\<close>

locale clean_up = domain_server E crs
  for E :: "('w, 'x) env" and crs +
  fixes M :: "('lv, 'lw, 'la, 'l, 'n, 'h, 'd, 'w, 'x, 'i, 'c) test_env"
    and held :: "'w \<Rightarrow> (string \<times> string) set"
    and live :: "'w \<Rightarrow> string set"
  assumes env: "testEnv M = E"
    and role_deleted: "zms_DeleteRole M d r [] [] w = (None, w') \<Longrightarrow>
      held w' = held w - {(d, r)} \<and> live w' = live w \<and> crs w' = crs w \<and> cr_GetByKey E w' = cr_GetByKey E w"
    and resource_deleted: "client_Delete E n [] w = (e, w') \<Longrightarrow> held w' = held w \<and> live w' = live w"
    and namespace_deleted: "ns_Delete M n policy w = (None, w') \<Longrightarrow>
      live w' = live w - {n} \<and> held w' = held w \<and> crs w' = crs w"
begin

lemma remove_frame:
  "RemoveAthenzDomain E n w = (e, w') \<Longrightarrow> held w' = held w \<and> live w' = live w"
  by (auto simp: RemoveAthenzDomain_def dest: resource_deleted split: prod.splits option.splits if_splits)

lemma teardown_removes:
  assumes "teardown M (Some f) w = (Return None, Global, w')" and "cache_current E crs w (TrustDomain f)"
  shows "Global = None \<and> held w' = held w - {(RoleDomain f, RoleName f), (RoleDomain f, TrustRole f)} \<and>
    crs w' = (crs w)(TrustDomain f := None) \<and> live w' = live w - {DomainToNamespace (MyUtil f) (NamespaceDomain f)}"
proof -
  obtain w1 w2 w3 where w: "zms_DeleteRole M (RoleDomain f) (RoleName f) [] [] w = (None, w1)"
      "zms_DeleteRole M (RoleDomain f) (TrustRole f) [] [] w1 = (None, w2)"
      "RemoveAthenzDomain E (TrustDomain f) w2 = (None, w3)"
      "ns_Delete M (DomainToNamespace (MyUtil f) (NamespaceDomain f)) ''Foreground'' w3 = (None, w')" "Global = None"
    using assms(1) by (auto simp: teardown_def env Let_def split: prod.splits option.splits)
  have "cache_current E crs w2 (TrustDomain f)"
    using assms(2) role_deleted [OF w(1)] role_deleted [OF w(2)] by (simp add: cache_current_def)
  then have "crs w3 = (crs w2)(TrustDomain f := None)"
    by (rule remove_gone [OF w(3)])
  with role_deleted [OF w(1)] role_deleted [OF w(2)] remove_frame [OF w(3)] namespace_deleted [OF w(4)] w(5)
  show ?thesis by auto
qed

end

text \<open>A clean-up that fails has done nothing after the request that failed.\<close>

lemma teardown_stops_at_first_error:
  assumes "zms_DeleteRole M (RoleDomain f) (RoleName f) [] [] w = (Some e, w1)"
  shows "teardown M (Some f) w = (Return (Some e), Some f, w1)"
  using assms by (simp add: teardown_def)

section \<open>The framework that the command line gives\<close>

lemma test_setup_eq:
  assumes "test_flags (testFlags M) args = Running fs"
  shows "test_setup M args = (case setup_clients M fs of Panic p \<Rightarrow> Crashed p
    | Return (Inl e) \<Rightarrow> Running (Some e, None) | Return (Inr f) \<Rightarrow> Running (None, Some f))"
  using assms by (simp add: test_setup_def split_beta split: outcome.split sum.split)

lemma test_setup_framework:
  fixes M :: "('lv, 'lw, 'la, 'l, 'n, 'h, 'd, 'w, 'x, 'i, 'c) test_env"
  assumes "test_setup M args = Running (None, Global)" and "test_flags (testFlags M) args = Running fs"
  obtains f where "Global = Some f"
    "BuildConfigFromFlags (testKube M) (test_kubeconfig (getenv (testKube M)) fs) = Inr (K8sClient f)"
    "RoleDomain f = string_var fs ''e2e-test1-domain''" "RoleName f = string_var fs ''e2e-test1-role''"
    "TrustDomain f = string_var fs ''e2e-test2-domain''" "TrustRole f = string_var fs ''e2e-test2-role''"
    "NamespaceDomain f = string_var fs ''e2e-test3-domain''" "MyUtil f = NewUtil [] [] [] False"
proof -
  obtain f where f: "Global = Some f" "setup_clients M fs = Return (Inr f)"
    using assms(1) by (auto simp: test_setup_eq [OF assms(2)] split: outcome.splits sum.splits)
  let ?K = "testKube M"
  obtain cfg where cfg: "BuildConfigFromFlags ?K (test_kubeconfig (getenv ?K) fs) = Inr cfg"
    using f(2) by (cases "BuildConfigFromFlags ?K (test_kubeconfig (getenv ?K) fs)") (auto simp: setup_clients_def)
  then have "kubernetes_NewForConfig ?K cfg = None"
    using f(2) by (cases "kubernetes_NewForConfig ?K cfg") (auto simp: setup_clients_def)
  with f(2) cfg obtain r where "NewForConfig (clientLib ?K) (Some cfg) = Return r"
      "(case r of Inl e \<Rightarrow> Return (Inl e) | Inr cl \<Rightarrow> setup_framework M fs cfg cl) = Return (Inr f)"
    by (auto simp: setup_clients_def)
  then obtain cl :: "('h, 'd) Clientset" where "setup_framework M fs cfg cl = Return (Inr f)"
    by (cases r) auto
  with f(1) cfg show ?thesis
    using that
    by (cases "setupZMSClient (tls_LoadX509KeyPair M) (string_var fs ''key'') (string_var fs ''cert'') (string_var fs ''zms-url'')")
      (auto simp: setup_framework_def Let_def split: if_splits)
qed

section \<open>Properties\<close>

text \<open>
  When the test process ends with exit code zero, other than by asking for help, the tests have passed
  and nothing of them is left: the two roles that the command line names are not in ZMS, the trust
  domain has no custom resource, and the namespace of the third test is gone or being deleted;
  provided the informer had caught up when the tests ended.
\<close>

theorem passed_tests_leave_nothing:
  assumes "clean_up E crs M held live" and "test_flags (testFlags M) args = Running fs"
    and "\<And>Global. cache_current E crs (snd (tests Global w)) (string_var fs ''e2e-test2-domain'')"
    and "MainEntry M args tests w = (Exited 0, w')"
  shows "(\<exists>Global. test_setup M args = Running (None, Global) \<and> fst (tests Global w) = 0) \<and>
    (string_var fs ''e2e-test1-domain'', string_var fs ''e2e-test1-role'') \<notin> held w' \<and>
    (string_var fs ''e2e-test1-domain'', string_var fs ''e2e-test2-role'') \<notin> held w' \<and>
    crs w' (string_var fs ''e2e-test2-domain'') = None \<and>
    DomainToNamespace (NewUtil [] [] [] False) (string_var fs ''e2e-test3-domain'') \<notin> live w'"
proof -
  obtain Global code w1 Global' where s: "test_setup M args = Running (None, Global)"
      "tests Global w = (code, w1)" "teardown M Global w1 = (Return None, Global', w')" "code = 0"
    using assms(4)
    by (auto simp: MainEntry_def test_setup_eq [OF assms(2)] split: outcome.splits sum.splits prod.splits option.splits)
  obtain f where f: "Global = Some f" "RoleDomain f = string_var fs ''e2e-test1-domain''" "RoleName f = string_var fs ''e2e-test1-role''"
    "TrustDomain f = string_var fs ''e2e-test2-domain''" "TrustRole f = string_var fs ''e2e-test2-role''"
    "NamespaceDomain f = string_var fs ''e2e-test3-domain''" "MyUtil f = NewUtil [] [] [] False"
    using test_setup_framework [OF s(1) assms(2)] by metis
  have "cache_current E crs w1 (TrustDomain f)"
    using assms(3) [of Global] s(2) f(4) by simp
  with clean_up.teardown_removes [OF assms(1) s(3) [unfolded f(1)]] s f show ?thesis by auto
qed

text \<open>A run on the concrete cluster, where the tests leave two roles, a custom resource and a namespace behind.\<close>

definition demo_test_env ::
    "(string, string list, string, rat \<times> int, unit, string, string, unit cluster, unit, int, string) test_env" where
  "demo_test_env =
     \<lparr>testFlags = [], testLog = line_log, testLogWorld = [],
      testKube = \<lparr>getenv = (\<lambda>v. ''/root''), BuildConfigFromFlags = (\<lambda>k. Inr demo_config),
                  kubernetes_NewForConfig = (\<lambda>k. None), clientLib = demo_client_lib\<rparr>,
      testInformers = demo_informer_lib, testEnv = demo_env, cacheSynced = True,
      tls_LoadX509KeyPair = (\<lambda>c k. Inr (c @ k)),
      zms_DeleteRole = (\<lambda>d r ref owner w.
         if (d, r) \<in> set (zmsRoles w) then (None, w\<lparr>zmsRoles := filter (\<lambda>x. x \<noteq> (d, r)) (zmsRoles w)\<rparr>)
         else (Some (Resource 404 ''Not Found''), w)),
      ns_Delete = (\<lambda>n policy w.
         if n \<in> set (namespaces w) then (None, w\<lparr>namespaces := filter (\<lambda>x. x \<noteq> n) (namespaces w)\<rparr>)
         else (Some (Status NotFound), w))\<rparr>"

definition demo_tests where
  "demo_tests Global w =
     (0 :: int, informer_sync (snd (store_object (new_cr ''trust-domain'' demo_signed) (w
       \<lparr>zmsRoles := [(''test-domain'', ''test-role''), (''test-domain'', ''test-trustrole'')],
        namespaces := [''test--ns--domain'']\<rparr>))))"

interpretation demo_tests: clean_up demo_env cluster_crs demo_test_env "\<lambda>w. set (zmsRoles w)" "\<lambda>w. set (namespaces w)"
  by unfold_locales (auto simp: demo_test_env_def cluster_Delete split: if_splits)

lemma demo_test_flags: "\<exists>fs. test_flags [] [] = Running fs \<and> fs = map_of test_vars"
proof -
  have "define_flags test_vars (map_of []) = Return (Map.empty ++ map_of test_vars)"
    unfolding map_of.simps by (rule define_flags_distinct) (simp_all add: test_vars_def proper_name_def)
  then show ?thesis
    using Parse_settings [of "map_of test_vars" "[]" "[]"] by (simp add: test_flags_def ends_flags_def)
qed

lemma passed_tests_leave_nothing_witness:
  "\<exists>w'. MainEntry demo_test_env [] demo_tests demo_world = (Exited 0, w') \<and>
     (''test-domain'', ''test-role'') \<notin> set (zmsRoles w') \<and> (''test-domain'', ''test-trustrole'') \<notin> set (zmsRoles w') \<and>
     cluster_crs w' ''trust-domain'' = None \<and> ''test--ns--domain'' \<notin> set (namespaces w')"
proof -
  have fs: "test_flags (testFlags demo_test_env) [] = Running (map_of test_vars)"
    using demo_test_flags by (simp add: demo_test_env_def)
  obtain cs where cs: "NewForConfig demo_client_lib (Some demo_config) = Return (Inr cs)"
    using demo_NewForConfig by blast
  have ns: "DomainToNamespace (NewUtil [] [] [] False) ''test-ns-domain'' = ''test--ns--domain''"
    by code_simp
  have "\<exists>Global. test_setup demo_test_env [] = Running (None, Global)"
    unfolding test_setup_eq [OF fs] setup_clients_def setup_framework_def setupZMSClient_def
    using cs by (simp add: NewCRUtil_def AthenzV1_def demo_test_env_def)
  then obtain Global where g: "test_setup demo_test_env [] = Running (None, Global)" by blast
  obtain f where f: "Global = Some f" "RoleDomain f = ''test-domain''" "RoleName f = ''test-role''"
    "TrustDomain f = ''trust-domain''" "TrustRole f = ''test-trustrole''" "NamespaceDomain f = ''test-ns-domain''"
    "MyUtil f = NewUtil [] [] [] False"
    using test_setup_framework [OF g fs] by (simp add: test_vars_def string_var_def) metis
  let ?w = "snd (demo_tests (Some f) demo_world)"
  obtain c where w: "zmsRoles ?w = [(''test-domain'', ''test-role''), (''test-domain'', ''test-trustrole'')]"
      "namespaces ?w = [''test--ns--domain'']" "objects ?w = [(''trust-domain'', c)]"
      "crCache ?w = [(''trust-domain'', ObjAthenzDomain (Some c))]"
    by (simp add: demo_tests_def store_object_def informer_sync_def Let_def)
  have "\<exists>w'. teardown demo_test_env (Some f) ?w = (Return None, None, w')"
    by (simp add: teardown_def f ns demo_test_env_def w RemoveAthenzDomain_def GetCRByName_def cluster_Delete Let_def)
  then have "\<exists>w'. MainEntry demo_test_env [] demo_tests demo_world = (Exited 0, w')"
    by (auto simp: MainEntry_def g f(1) demo_tests_def)
  then obtain w' where run: "MainEntry demo_test_env [] demo_tests demo_world = (Exited 0, w')"
    by blast
  have cur: "cache_current demo_env cluster_crs (snd (demo_tests Global demo_world)) d" for Global d
    by (simp add: demo_tests_def informer_sync_current)
  show ?thesis
    using passed_tests_leave_nothing [OF demo_tests.clean_up_axioms fs cur run] run
    by (intro exI [of _ w']) (simp add: test_vars_def string_var_def ns)
qed

end
