(* ===== verification/Spec2Isabelle.thy ===== *)
theory Spec2Isabelle
  imports Mirror Lifecycle Process Domain_Interface Test_Keys E2E_Framework
begin

text \<open>
  This library verifies the k8s-athenz-syncer: a Kubernetes controller that keeps an AthenzDomain
  custom resource for the Athenz domain of every namespace of a cluster, for the admin and system
  domains, and for the domains that these delegate roles to, in line with the domain data of ZMS,
  the Athenz management service.

  \<^bold>\<open>The program and its model.\<close>  Informers report namespace and custom resource events; two
  crons ask ZMS for modified domains and re-add everything; all of them put domain names on one
  rate limited work queue.  One worker takes names off the queue and synchronises them.  The parts,
  in the order in which they build on each other:

  \<^item> \<^verbatim>\<open>Prelude\<close>, \<^verbatim>\<open>Go_Strings\<close>, \<^verbatim>\<open>Go_Time\<close>,
    \<^verbatim>\<open>Go_Duration\<close>, \<^verbatim>\<open>Go_Filepath\<close>: what the code uses of Go.  A call that may panic has an
    \<open>outcome\<close>; pointers are options; a slice is an optional list, since nil and empty differ
    under \<^verbatim>\<open>reflect.DeepEqual\<close>; errors are the datatype \<open>err\<close>; \<^verbatim>\<open>int\<close> and
    \<^verbatim>\<open>time.Duration\<close> are integers with \<open>wrap64\<close> or saturation written out.  The
    string functions, RFC 3339 times, durations and path functions are executable definitions; only the
    floating point product in the fraction of a duration is an argument.
  \<^item> \<^verbatim>\<open>Athenz_Types\<close> (\<^verbatim>\<open>pkg/apis/athenz/v1\<close>): the records of the API and
    of ZMS, with the fields that the program never reads in a type parameter \<^typ>\<open>'x\<close>, and the
    deep copy functions.
  \<^item> \<^verbatim>\<open>Util\<close> (\<^verbatim>\<open>pkg/util\<close>): names of domains and namespaces, the MSD
    filter.  The locale \<open>ns_codec\<close> is the promise to the other parts that a mappable namespace is
    found back from its domain.
  \<^item> \<^verbatim>\<open>RateLimiter\<close> (\<^verbatim>\<open>pkg/ratelimiter\<close>): the limiter of the queue, with
    the interface locale \<open>rate_limiter\<close>.
  \<^item> \<^verbatim>\<open>Environment\<close>: everything that lies outside the repository, as one record
    \<open>env\<close> of operations on an abstract world \<^typ>\<open>'w\<close>, and the generated typed client on top of
    its transport.  The laws that theorems need of it are locales: \<open>domain_server\<close> (the API
    server's AthenzDomain objects, including lost answers), \<open>cr_indexer\<close>, \<open>limited_queue\<close>, and in
    later theories \<open>quiet_queue\<close>, \<open>retry_notify\<close>, \<open>configmap_server\<close>, \<open>retrying_queue\<close>,
    \<open>worker_server\<close>, \<open>typed_world\<close>, \<open>typed_system\<close>, \<open>stable_calls\<close>, \<open>stable_world\<close>, \<open>running_queue\<close>,
    \<open>lossless_queue\<close>, \<open>accepting_queue\<close>, \<open>closing_queue\<close>, \<open>settling_worker\<close>, \<open>quiet_domain\<close>,
    \<open>gone_domain\<close>, \<open>program_server\<close> and \<open>typed_program\<close>.
  \<^item> \<^verbatim>\<open>CR\<close> (\<^verbatim>\<open>pkg/cr\<close>), \<^verbatim>\<open>Cron\<close>
    (\<^verbatim>\<open>pkg/cron\<close>), \<^verbatim>\<open>Controller\<close> (\<^verbatim>\<open>pkg/controller\<close>): the
    operations as functions of the environment, the component's own state and the world, with
    every early return and panic as a branch.  A function that writes returns the world also when
    it panics.
  \<^item> \<^verbatim>\<open>Cluster\<close>: a concrete environment in which all the laws hold together, and a small
    world on which the witnesses run.  It models no file of the repository.
  \<^item> \<^verbatim>\<open>CR_Properties\<close>, \<^verbatim>\<open>Cron_Properties\<close>,
    \<^verbatim>\<open>Controller_Properties\<close>: the theorems about these components.
  \<^item> \<^verbatim>\<open>System\<close>: the whole controller as a step relation whose steps are the actions of its
    goroutines and of the outside, and the invariant of all reachable states.
  \<^item> \<^verbatim>\<open>Mirror\<close>: the abstract specification of the controller as a mirror of ZMS, and the
    refinement: an abstraction function under which every step of the system is a step of the
    mirror.
  \<^item> \<^verbatim>\<open>Convergence\<close>: what the worker loop has achieved when it ends, over the contracts
    \<open>lossless_queue\<close> of the queue and \<open>settling_worker\<close> of a domain that the worker settles in one of
    its attempts, and that it ends once the queue was shut down (\<open>closing_queue\<close>).  A valid domain that
    ZMS answers while the outside stands still (\<open>quiet_domain\<close>) and a domain that is not wanted any more
    (\<open>gone_domain\<close>) are both such domains.
  \<^item> \<^verbatim>\<open>Lifecycle\<close>: the same from the event or the cron on, with a queue that takes what it is
    offered (\<open>accepting_queue\<close>): a round of the full resync, and the deletion of a namespace.
  \<^item> \<^verbatim>\<open>Well_Formed\<close>: the pointers and dynamic types that the code takes for granted, as an
    invariant under which no goroutine of the controller panics; \<^verbatim>\<open>Shutdown\<close>: the whole of
    \<^verbatim>\<open>Run\<close> and how it ends.
  \<^item> \<^verbatim>\<open>FileWatcher\<close>, \<^verbatim>\<open>Reloader\<close> (\<^verbatim>\<open>pkg/filewatcher\<close>,
    \<^verbatim>\<open>pkg/reloader\<close>): the watcher, its notifier interface as the locale
    \<open>watch_notifier\<close>, and the certificate reloader that provides it, its goroutines as a step
    relation over a file system that may change at any time.
  \<^item> \<^verbatim>\<open>Crypto\<close>, \<^verbatim>\<open>Identity\<close> (\<^verbatim>\<open>pkg/crypto\<close>,
    \<^verbatim>\<open>pkg/identity\<close>): the versioned private keys, over the contract \<open>sort_slice\<close> of
    \<^verbatim>\<open>sort.Slice\<close>, and the token provider, over the contract \<open>zms_session\<close> of the
    clock and the client.
  \<^item> \<^verbatim>\<open>Clientset\<close> (\<^verbatim>\<open>pkg/apis/athenz/v1/register.go\<close>,
    \<^verbatim>\<open>pkg/client/clientset/versioned\<close>): the API group, its registration with a scheme
    (contract \<open>scheme_registry\<close>), and the constructors of the generated clients.
  \<^item> \<^verbatim>\<open>Informers\<close> (\<^verbatim>\<open>pkg/client/informers\<close>, \<^verbatim>\<open>pkg/client/listers\<close>):
    the generated factory, informer, accessors and lister.
  \<^item> \<^verbatim>\<open>Fake_Client\<close> (the two \<^verbatim>\<open>fake\<close> packages): the generated fake clientset over
    the contract \<open>object_tracker\<close> of the testing library.
  \<^item> \<^verbatim>\<open>Domain_Interface\<close> (\<^verbatim>\<open>typed/athenz/v1\<close>): the interface
    \<^verbatim>\<open>AthenzDomainInterface\<close> as a record with its two implementations.  Both meet the contract
    \<open>reliable_store\<close> for the objects that a \<open>validation\<close> accepts, the generated client when the API server is reachable (\<open>reliable_server\<close>) and the
    fake by the laws of the testing library (\<open>tracking_fake\<close>); clients cannot tell two such stores apart
    (\<open>two_stores\<close>).
  \<^item> \<^verbatim>\<open>Logging\<close> (\<^verbatim>\<open>pkg/log\<close>): the logger with its fallbacks, over the contract
    \<open>logging_library\<close>.
  \<^item> \<^verbatim>\<open>Go_Flag\<close>: Go's \<^verbatim>\<open>flag\<close> package, executable, with the grammar of the command
    lines that it accepts; \<^verbatim>\<open>Command_Line\<close> (\<^verbatim>\<open>main.go\<close>): the flags of the program and
    what a command line makes of them.
  \<^item> \<^verbatim>\<open>Startup\<close> (\<^verbatim>\<open>main.go\<close>, \<^verbatim>\<open>NewController\<close>): flags, logger, clients,
    authentication and the construction of the controller with its informers.
  \<^item> \<^verbatim>\<open>Process\<close> (\<^verbatim>\<open>main.go\<close>): the life of the process, a step relation of the signals, of
    \<^verbatim>\<open>main\<close>, of the goroutines of the controller (\<open>controller_go\<close>) with their panics, the start of
    \<^verbatim>\<open>Run\<close> and the index function that the informer calls, and of the goroutines of the
    authentication (\<open>token_go\<close>, \<open>cert_go\<close>): the refresh loop, or the file watcher and the reloads.  The
    latter are begun during the start and take their first step when \<^verbatim>\<open>main\<close> waits; \<open>controller_go_simulates\<close> relates it to the steps of \<^verbatim>\<open>System\<close>.
  \<^item> \<^verbatim>\<open>Test_Keys\<close> (\<^verbatim>\<open>pkg/test\<close>), \<^verbatim>\<open>E2E_Framework\<close>
    (\<^verbatim>\<open>test/e2e/framework\<close>): the key file that the tests create, over the contract
    \<open>key_disk\<close> of the disk, and the set-up, clean-up and exit code of the end-to-end tests, over the
    contract \<open>clean_up\<close>.

  \<^bold>\<open>What is shown.\<close>  For the core: a synchronisation writes at most the custom resource of its
  domain and only data that ZMS answered for it; under an available API server it converges to the
  answer of ZMS up to signatures, is silent when nothing changed, and removes what is not wanted;
  in every reachable state each custom resource carries the filtered data of the domain it is named
  after; every step of the system refines a step of the abstract mirror, and a synchronised domain
  stays in line through every interleaving while ZMS answers the same; when the worker loop has emptied the
  queue, every valid domain that waited there is in line with ZMS; one round of the full resync brings all
  domains that it takes up in line, whatever was lost before; the custom resource of a deleted namespace is
  removed unless another reason keeps its domain valid; on well-formed data, and while ZMS does not
  fail for a cached domain, neither the worker nor a cron panics, and the worker loop ends once the
  queue was shut down.  For the whole program, from its command line: which command
  lines it accepts and what configuration they give, what the start makes of it, that the custom resources
  stay consistent through the life of the process, and that it ends only by a signal or by the panic of
  the refresh loop that a token expiry of the command line can cause.  For the crons: exactly which domains are offered to the queue, and that the etag only
  moves to tags of successful answers.  For the queue: release times are an interval apart and
  retries are counted as the limiter counts them.  For names: exactly which namespaces and domains
  survive the round trip.  For the authentication: reloads exclude each other and pick up announced
  files, the highest key version is used, and a token never expires between two refreshes.  For the
  generated code: which informer a factory gives for which resource, which configuration reaches the
  clients, what the fake clientset serves, and that it answers well-formed calls like an API server without
  objects.  For the test support: the created key is the one that
  is read, and end-to-end tests that pass leave nothing behind.

  \<^bold>\<open>What the model found.\<close>  The redeclared \<^verbatim>\<open>err\<close> in \<^verbatim>\<open>sync\<close> makes the
  worker panic or swallow an error of ZMS (\<open>zms_error_is_lost\<close>); two documented flags end the process
  (\<open>documented_flags_exit\<close>); \<^verbatim>\<open>main\<close> waits for no goroutine when it ends
  (\<open>process_ends_by_signal\<close>); a new key file alone is not loaded (\<open>key_change_is_ignored\<close>); ordinary
  offers use up the retries (\<open>first_failure_dropped\<close>); a sibling of the admin domain is not valid
  (\<open>admin_sibling_namespace_invalid\<close>); the update cron does not look at excluded namespaces
  (\<open>update_cron_ignores_exclusion\<close>); system domains are offered without an admin domain
  (\<open>system_domains_without_admin\<close>); the first item of a burst does not wait
  (\<open>burst_is_staggered\<close>); a file update in a small window is lost (\<open>update_during_reset_is_lost\<close>);
  \<^verbatim>\<open>Run\<close> waits for a shutdown of the queue that only itself performs
  (\<open>Run_waits_for_its_own_shutdown\<close>); the fake clientset and a comment of the informers name another
  API group than the scheme (\<open>fake_misses_initial_objects\<close>, \<open>ForResource_is_domain_informer\<close>); a
  negative token expiry makes the refresh loop panic (\<open>small_expiry_panics\<close>), which ends the process
  (\<open>process_ends_by_signal\<close>); system domains are not valid for being so (\<open>ValidateDomain_correct\<close>).

  \<^bold>\<open>Bounds and loops.\<close>  No fuel is used.  Loops over data are structural recursion; the endless
  loops of the crons and the watcher run over the finite list of the ways their
  \<^verbatim>\<open>select\<close> ends; the worker loop and the loop of \<^verbatim>\<open>wait.Until\<close> around it are
  \<^verbatim>\<open>partial_function\<close>s, whose termination is characterised by \<open>runWorker_stops_at_shutdown\<close>,
  \<open>worker_ends_after_shutdown\<close> and \<open>Run_waits_for_its_own_shutdown\<close>; the loop of \<^verbatim>\<open>flag.Parse\<close> consumes an argument in each
  round.  In \<open>system_step\<close> an action of a goroutine is one
  step: the goroutines share only the queue, the caches and the API server, each of which is
  synchronised on its own, and only the worker writes custom resources.  The \<^verbatim>\<open>etag\<close> is
  written by the update cron alone once it runs.

  \<^bold>\<open>What is not modelled.\<close>  The tests themselves; signals other than the two that \<^verbatim>\<open>main\<close> asks for, which are the
  operating system's affair.  The flags of klog are an argument.  Log messages of the modelled functions are left out,
  except where they panic.  The packages outside the repository are arguments, and their documented
  behaviour is the content of the locales.  Strings are lists of bytes; blanks and digits are the
  ASCII ones.
\<close>

section \<open>From a namespace event to the custom resource\<close>

text \<open>
  C6.  The way of a new namespace through the components: when the informer reports a namespace
  that is not excluded, its domain is offered to the queue; and when the worker later takes that
  domain, with the namespace in the cache, ZMS answering for it and the API server available, the
  domain is found valid and the custom resource of the domain holds the filtered answer of ZMS,
  without an error to retry.
\<close>

theorem namespace_event_creates_domain:
  assumes "domain_server E crs" and "faithful_copiers (copiers E)"
    and "keyf ob = (ns, None)" and "\<not> IsNamespaceExcluded u ns" and "mappable u ns"
    and "d = NamespaceToDomain u ns"
    and "fst (ns_GetByKey E w2 ns) \<noteq> None" and "zms_answers E d w2 s w3"
    and "domain s = Some data" and "domainName data = d"
    and "FilterMSDRules u (Some data) = Return (Some data')" and "domainPolicies data' \<noteq> None"
    and "cache_current E crs w3 d" and "server_available E crs w3"
    and "\<forall>c. crs w3 d = Some c \<longrightarrow> comparable (spec c)"
  shows "ns_handler E u keyf delf (AddFunc ob) w1 = q_AddRateLimited E d w1 \<and>
    (\<exists>w4 c. process_key E u (KeyString d) w2 = (Return True, w4) \<and> crs w4 d = Some c \<and>
       unsigned (spec c) = unsigned \<lparr>signedDomain = s\<lparr>domain := Some data'\<rparr>\<rparr> \<and> message (status c) = [])"
proof -
  have "ValidateDomain E u d w2"
    unfolding assms(6) using assms(5,7) by (rule ValidateDomain_namespace)
  then obtain w4 c where "sync E u d w2 = (Return None, w4)" "crs w4 d = Some c"
      "unsigned (spec c) = unsigned \<lparr>signedDomain = s\<lparr>domain := Some data'\<rparr>\<rparr>" "message (status c) = []"
    using domain_server.sync_stores [OF assms(1,2) _ assms(8-15)] by blast
  then show ?thesis
    using assms(3,4,6) by (simp add: nsinformerhandler_def process_key_def)
qed

lemma namespace_event_creates_domain_witness:
  "\<exists>w4 c. process_key demo_env demo_util (KeyString ''home.domain'') (informer_sync demo_world)
       = (Return True, w4) \<and> cluster_crs w4 ''home.domain'' = Some c"
proof -
  have "zmsTable (informer_sync demo_world) = demo_zms"
    by (simp add: informer_sync_def)
  note answers = demo_answers [OF this]
  have key: "demo_keyf (ObjNamespace (Some ''home-domain'')) = (''home-domain'', None)"
    by (simp add: demo_keyf_def)
  show ?thesis
    using namespace_event_creates_domain [where keyf = demo_keyf and delf = demo_keyf and ?w1.0 = demo_world
        and ob = "ObjNamespace (Some ''home-domain'')" and data = demo_data and data' = demo_data,
        OF cluster.domain_server_axioms cluster_copiers key _ demo_mappable _ _ answers _ _ _ _
          informer_sync_current cluster_available]
    by (auto simp: informer_sync_def)
qed

end
